(* ===== verification/Prelude.thy ===== *)
theory Prelude
  imports Main "HOL-Library.Word" "HOL-Library.Sublist"
begin

text \<open>
  What every component of the development shares: the outcome of a C++ computation
  (a value, a thrown exception, or a state the language gives no meaning to), the
  state-passing programs built from it, the observable world those programs write to,
  and generic lemmas on lists and on decimal printing.

  \<^item> \<open>exn\<close> names the exception classes the sources throw or catch.  The type parameter
    \<open>'j\<close> is the JSON value type of the third-party library, which an exception of
    \<^verbatim>\<open>JsonRpcException\<close> carries as its data.
  \<^item> \<open>Stuck\<close> is undefined behaviour (a null pointer or a disengaged optional is
    dereferenced, an index is out of range), a call of \<^verbatim>\<open>std::abort\<close>, or a wait that
    never ends.  No \<^verbatim>\<open>catch\<close> clause intercepts it.
\<close>

section \<open>Machine integers\<close>

type_synonym int32 = "32 word"
type_synonym uint32 = "32 word"
type_synonym uint8 = "8 word"
type_synonym uint64 = "64 word"

section \<open>Exceptions and outcomes\<close>

record 'j jsonrpc_exception =
  m_code :: int32
  m_message :: string
  m_data :: 'j
  m_err :: string

datatype 'j exn =
    BadValue string
  | Unexpected string
  | ConfigError string
  | NotImplemented string
  | InvalidParameter string
  | NoSuchArgument string
  | TypeError string
  | LibraryError string
  | JsonParseError string
  | JsonTypeError string
  | JsonOutOfRange string
  | HttpRequestJsonRpcError string
  | HttpResponseJsonRpcError string
  | JsonRpcExn "'j jsonrpc_exception"

datatype ub = NullDeref | OptionalDeref | OutOfBounds | MissingKey | NoReturn | Aborted

datatype ('j, 'a) outcome = Ok 'a | Throw "'j exn" | Stuck ub

text \<open>The text \<^verbatim>\<open>ex.what()\<close> of an exception.\<close>

fun what :: "'j exn \<Rightarrow> string" where
  "what (BadValue s) = s"
| "what (Unexpected s) = s"
| "what (ConfigError s) = s"
| "what (NotImplemented s) = s"
| "what (InvalidParameter s) = s"
| "what (NoSuchArgument s) = s"
| "what (TypeError s) = s"
| "what (LibraryError s) = s"
| "what (JsonParseError s) = s"
| "what (JsonTypeError s) = s"
| "what (JsonOutOfRange s) = s"
| "what (HttpRequestJsonRpcError s) = s"
| "what (HttpResponseJsonRpcError s) = s"
| "what (JsonRpcExn e) = m_err e"

named_theorems outcome_simps \<open>evaluation of outcomes and of state-passing programs\<close>

definition rbind :: "('j, 'a) outcome \<Rightarrow> ('a \<Rightarrow> ('j, 'b) outcome) \<Rightarrow> ('j, 'b) outcome" where
  "rbind r f = (case r of Ok a \<Rightarrow> f a | Throw e \<Rightarrow> Throw e | Stuck u \<Rightarrow> Stuck u)"

definition rmap :: "('a \<Rightarrow> 'b) \<Rightarrow> ('j, 'a) outcome \<Rightarrow> ('j, 'b) outcome" where
  "rmap f r = rbind r (\<lambda>a. Ok (f a))"

lemma rbind_simps [simp, outcome_simps]:
  "rbind (Ok a) f = f a"
  "rbind (Throw e) f = Throw e"
  "rbind (Stuck u) f = Stuck u"
  by (simp_all add: rbind_def)

lemma rmap_simps [simp, outcome_simps]:
  "rmap g (Ok a) = Ok (g a)"
  "rmap g (Throw e) = Throw e"
  "rmap g (Stuck u) = Stuck u"
  by (simp_all add: rmap_def)

lemma rbind_eq_Ok:
  "rbind r f = Ok b \<longleftrightarrow> (\<exists>a. r = Ok a \<and> f a = Ok b)"
  by (cases r) simp_all

lemma rmap_eq_Ok: "rmap g r = Ok b \<longleftrightarrow> (\<exists>a. r = Ok a \<and> b = g a)"
  by (cases r) auto

lemma rbind_assoc: "rbind (rbind r f) g = rbind r (\<lambda>a. rbind (f a) g)"
  by (cases r) simp_all

text \<open>
  A loop over a container that stops at the first outcome that is not a value.
\<close>

fun mapR :: "('a \<Rightarrow> ('j, 'b) outcome) \<Rightarrow> 'a list \<Rightarrow> ('j, 'b list) outcome" where
  "mapR f [] = Ok []"
| "mapR f (x # xs) = rbind (f x) (\<lambda>y. rmap ((#) y) (mapR f xs))"

lemma mapR_append:
  "mapR f (xs @ ys) = rbind (mapR f xs) (\<lambda>as. rmap ((@) as) (mapR f ys))"
proof (induction xs)
  case Nil
  show ?case by (cases "mapR f ys") simp_all
next
  case (Cons x xs)
  then show ?case by (cases "f x"; cases "mapR f xs"; cases "mapR f ys") simp_all
qed

lemma mapR_all_Ok: "(\<And>x. x \<in> set xs \<Longrightarrow> f x = Ok (g x)) \<Longrightarrow> mapR f xs = Ok (map g xs)"
  by (induction xs) simp_all

lemma mapR_eq_Ok: "mapR f xs = Ok ys \<longleftrightarrow> list_all2 (\<lambda>x y. f x = Ok y) xs ys"
proof (induction xs arbitrary: ys)
  case Nil
  show ?case by auto
next
  case (Cons x xs)
  then show ?case by (auto simp: rbind_eq_Ok rmap_eq_Ok list_all2_Cons1)
qed

lemma mapR_Ok_length: "mapR f xs = Ok ys \<Longrightarrow> length ys = length xs"
  by (simp add: mapR_eq_Ok list_all2_lengthD)

lemma mapR_first_not_Ok:
  "\<lbrakk>\<And>x. x \<in> set xs \<Longrightarrow> f x = Ok (g x); \<And>y. f z \<noteq> Ok y\<rbrakk>
    \<Longrightarrow> mapR f (xs @ z # zs) = rbind (f z) (\<lambda>_. Ok [])"
proof (induction xs)
  case Nil
  then show ?case by (cases "f z") auto
next
  case (Cons x xs)
  then show ?case by (cases "f z") auto
qed

section \<open>State-passing programs\<close>

type_synonym ('j, 's, 'a) prog = "'s \<Rightarrow> ('j, 'a) outcome \<times> 's"

definition ret :: "'a \<Rightarrow> ('j, 's, 'a) prog" where
  "ret a s = (Ok a, s)"

definition lift :: "('j, 'a) outcome \<Rightarrow> ('j, 's, 'a) prog" where
  "lift r s = (r, s)"

definition throw :: "'j exn \<Rightarrow> ('j, 's, 'a) prog" where
  "throw e s = (Throw e, s)"

definition mbind :: "('j, 's, 'a) prog \<Rightarrow> ('a \<Rightarrow> ('j, 's, 'b) prog) \<Rightarrow> ('j, 's, 'b) prog" where
  "mbind m f s = (case m s of
      (Ok a, s') \<Rightarrow> f a s'
    | (Throw e, s') \<Rightarrow> (Throw e, s')
    | (Stuck u, s') \<Rightarrow> (Stuck u, s'))"

definition mseq :: "('j, 's, 'a) prog \<Rightarrow> ('j, 's, 'b) prog \<Rightarrow> ('j, 's, 'b) prog" where
  "mseq m n = mbind m (\<lambda>_. n)"

text \<open>\<^verbatim>\<open>try { m } catch (const std::exception& ex) { h ex }\<close>: the effects of \<open>m\<close> stay.\<close>

definition catching :: "('j, 's, 'a) prog \<Rightarrow> ('j exn \<Rightarrow> ('j, 's, 'a) prog) \<Rightarrow> ('j, 's, 'a) prog" where
  "catching m h s = (case m s of
      (Throw e, s') \<Rightarrow> h e s'
    | (Ok a, s') \<Rightarrow> (Ok a, s')
    | (Stuck u, s') \<Rightarrow> (Stuck u, s'))"

fun forM :: "('a \<Rightarrow> ('j, 's, unit) prog) \<Rightarrow> 'a list \<Rightarrow> ('j, 's, unit) prog" where
  "forM f [] = ret ()"
| "forM f (x # xs) = mseq (f x) (forM f xs)"

lemma prog_simps [simp, outcome_simps]:
  "ret a s = (Ok a, s)"
  "lift r s = (r, s)"
  "throw e s = (Throw e, s)"
  by (simp_all add: ret_def lift_def throw_def)

lemma mbind_Ok [outcome_simps]: "m s = (Ok a, s') \<Longrightarrow> mbind m f s = f a s'"
  by (simp add: mbind_def)

lemma mbind_Throw [outcome_simps]: "m s = (Throw e, s') \<Longrightarrow> mbind m f s = (Throw e, s')"
  by (simp add: mbind_def)

lemma mbind_Stuck [outcome_simps]: "m s = (Stuck u, s') \<Longrightarrow> mbind m f s = (Stuck u, s')"
  by (simp add: mbind_def)

lemma mseq_Ok [outcome_simps]: "m s = (Ok a, s') \<Longrightarrow> mseq m n s = n s'"
  by (simp add: mseq_def mbind_def)

lemma mseq_Throw [outcome_simps]: "m s = (Throw e, s') \<Longrightarrow> mseq m n s = (Throw e, s')"
  by (simp add: mseq_def mbind_def)

lemma mseq_Stuck [outcome_simps]: "m s = (Stuck u, s') \<Longrightarrow> mseq m n s = (Stuck u, s')"
  by (simp add: mseq_def mbind_def)

lemma catching_Ok [outcome_simps]: "m s = (Ok a, s') \<Longrightarrow> catching m h s = (Ok a, s')"
  by (simp add: catching_def)

lemma catching_Throw [outcome_simps]: "m s = (Throw e, s') \<Longrightarrow> catching m h s = h e s'"
  by (simp add: catching_def)

lemma catching_Stuck [outcome_simps]: "m s = (Stuck u, s') \<Longrightarrow> catching m h s = (Stuck u, s')"
  by (simp add: catching_def)

lemma mbind_lift [simp, outcome_simps]:
  "mbind (lift r) f s = (case r of Ok a \<Rightarrow> f a s | Throw e \<Rightarrow> (Throw e, s) | Stuck u \<Rightarrow> (Stuck u, s))"
  by (simp add: mbind_def split: outcome.split)

text \<open>
  A catch-all handler that itself returns normally turns a program that is never stuck
  into one that always returns.
\<close>

lemma catching_never_throws:
  assumes "\<And>e t. \<exists>a t'. h e t = (Ok a, t')"
  shows "fst (catching m h s) \<noteq> Throw e"
proof (cases "m s")
  case (Pair r t)
  show ?thesis
  proof (cases r)
    case (Throw x)
    obtain a t' where "h x t = (Ok a, t')" using assms by blast
    with Pair Throw show ?thesis by (simp add: catching_def)
  qed (use Pair in \<open>simp_all add: catching_def\<close>)
qed

section \<open>Steps with outputs\<close>

text \<open>
  A component that takes a step for every input and gives an output, and an abstract automaton
  over observations of the inputs.  The locale \<open>simulation\<close> is the interface between the two:
  whoever shows the one law for its component gets the outputs of whole runs.
\<close>

inductive step_run :: "('i \<Rightarrow> 's \<Rightarrow> 'out \<Rightarrow> 's \<Rightarrow> bool) \<Rightarrow> 's \<Rightarrow> 'i list \<Rightarrow> 'out list \<Rightarrow> 's \<Rightarrow> bool"
  for step :: "'i \<Rightarrow> 's \<Rightarrow> 'out \<Rightarrow> 's \<Rightarrow> bool" where
  step_run_Nil: "step_run step s [] [] s"
| step_run_Cons: "step i s r s' \<Longrightarrow> step_run step s' ins rs s'' \<Longrightarrow> step_run step s (i # ins) (r # rs) s''"

inductive_simps step_run_Nil_iff [simp]: "step_run step s [] rs s'"
inductive_simps step_run_Cons_iff: "step_run step s (i # ins) rs s'"

fun spec_outputs :: "('b \<Rightarrow> 'v \<Rightarrow> 'out \<times> 'v) \<Rightarrow> 'v \<Rightarrow> 'b list \<Rightarrow> 'out list" where
  "spec_outputs spec v [] = []"
| "spec_outputs spec v (b # bs) = fst (spec b v) # spec_outputs spec (snd (spec b v)) bs"

lemma spec_outputs_length [simp]: "length (spec_outputs spec v bs) = length bs"
  by (induction bs arbitrary: v) simp_all

lemma step_run_append:
  "step_run step s (ins @ ins') out s'' \<longleftrightarrow>
    (\<exists>rs rs' s'. out = rs @ rs' \<and> step_run step s ins rs s' \<and> step_run step s' ins' rs' s'')"
proof (induction ins arbitrary: s out)
  case (Cons i ins)
  then show ?case by (auto simp: step_run_Cons_iff) (metis append_Cons)+
qed simp

lemma spec_outputs_append:
  "spec_outputs spec v (bs @ bs') = spec_outputs spec v bs @ spec_outputs spec (foldl (\<lambda>v b. snd (spec b v)) v bs) bs'"
  by (induction bs arbitrary: v) simp_all

locale simulation =
  fixes inv :: "'s \<Rightarrow> bool"
    and enabled :: "'s \<Rightarrow> 'i \<Rightarrow> bool"
    and abs :: "'s \<Rightarrow> 'v"
    and obs :: "'i \<Rightarrow> 'b"
    and step :: "'i \<Rightarrow> 's \<Rightarrow> 'out \<Rightarrow> 's \<Rightarrow> bool"
    and spec :: "'b \<Rightarrow> 'v \<Rightarrow> 'out \<times> 'v"
  assumes sim: "inv s \<Longrightarrow> step i s r s' \<Longrightarrow> inv s' \<and> spec (obs i) (abs s) = (r, abs s')"
    and progress: "inv s \<Longrightarrow> enabled s i \<Longrightarrow> \<exists>r s'. step i s r s'"
begin

lemma run_outputs:
  "step_run step s ins rs s' \<Longrightarrow> inv s \<Longrightarrow>
    rs = spec_outputs spec (abs s) (map obs ins) \<and> inv s' \<and> abs s' = foldl (\<lambda>v b. snd (spec b v)) (abs s) (map obs ins)"
proof (induction rule: step_run.induct)
  case (step_run_Cons i s r s' ins rs s'')
  then show ?case using sim [of s i r s'] by simp
qed simp

lemma run_goes_on:
  "step_run step s ins rs s' \<Longrightarrow> inv s \<Longrightarrow> enabled s' i \<Longrightarrow> \<exists>r s''. step_run step s (ins @ [i]) (rs @ [r]) s''"
  using run_outputs [of s ins rs s'] progress [of s' i] by (auto simp: step_run_append step_run_Cons_iff) blast

end

section \<open>Decimal printing\<close>

definition digit_char :: "nat \<Rightarrow> char" where
  "digit_char n = char_of (48 + n)"

fun to_string :: "nat \<Rightarrow> string" where
  "to_string n = (if n < 10 then [digit_char n] else to_string (n div 10) @ [digit_char (n mod 10)])"

declare to_string.simps [simp del]

definition int_to_string :: "int \<Rightarrow> string" where
  "int_to_string i = (if i < 0 then CHR ''-'' # to_string (nat (- i)) else to_string (nat i))"

definition is_digit :: "char \<Rightarrow> bool" where
  "is_digit c \<longleftrightarrow> 48 \<le> (of_char c :: nat) \<and> (of_char c :: nat) \<le> 57"

lemma is_digit_digit_char: "n < 10 \<Longrightarrow> is_digit (digit_char n)"
  by (simp add: is_digit_def digit_char_def)

lemma to_string_digits: "c \<in> set (to_string n) \<Longrightarrow> is_digit c"
proof (induction n rule: to_string.induct)
  case (1 n)
  then show ?case
    by (subst (asm) (2) to_string.simps) (auto simp: is_digit_digit_char split: if_splits)
qed

lemma to_string_nonempty [simp]: "to_string n \<noteq> []"
  by (subst to_string.simps) simp

fun of_digits :: "string \<Rightarrow> nat" where
  "of_digits cs = foldl (\<lambda>n c. n * 10 + (of_char c - 48)) 0 cs"

lemma of_digits_to_string: "of_digits (to_string n) = n"
proof (induction n rule: to_string.induct)
  case (1 n)
  then show ?case
    by (subst to_string.simps) (auto simp: digit_char_def)
qed

lemma to_string_inject: "to_string m = to_string n \<longleftrightarrow> m = n"
  by (metis of_digits_to_string)

section \<open>Lists\<close>

text \<open>\<^verbatim>\<open>std::find_if(begin, end, [](x) { return x.has_value() && p(*x); })\<close>.\<close>

fun find_some :: "('a \<Rightarrow> bool) \<Rightarrow> 'a option list \<Rightarrow> 'a option" where
  "find_some p [] = None"
| "find_some p (None # xs) = find_some p xs"
| "find_some p (Some x # xs) = (if p x then Some x else find_some p xs)"

lemma find_some_first:
  "p x \<Longrightarrow> (\<And>y. Some y \<in> set ys \<Longrightarrow> \<not> p y) \<Longrightarrow> find_some p (ys @ Some x # zs) = Some x"
  by (induction p ys rule: find_some.induct) auto

lemma find_some_SomeD: "find_some p xs = Some x \<Longrightarrow> Some x \<in> set xs \<and> p x"
  by (induction p xs rule: find_some.induct) (auto split: if_splits)

lemma find_some_None_iff: "find_some p xs = None \<longleftrightarrow> (\<forall>x. Some x \<in> set xs \<longrightarrow> \<not> p x)"
  by (induction p xs rule: find_some.induct) auto

text \<open>A separator that occurs in neither first part splits a string in one way only.\<close>

lemma sep_inject:
  "c \<notin> set xs \<Longrightarrow> c \<notin> set ys \<Longrightarrow> xs @ c # us = ys @ c # vs \<longleftrightarrow> xs = ys \<and> us = vs"
proof (induction xs arbitrary: ys)
  case Nil
  then show ?case by (cases ys) auto
next
  case (Cons x xs)
  then show ?case by (cases ys) auto
qed

end
