(* ===== verification/Json_Lib.thy ===== *)
theory Json_Lib
  imports Prelude
begin

text \<open>
  The JSON library (\<^verbatim>\<open>nlohmann::json\<close>, fetched by the build and not part of the
  repository) as a parameter: the record \<open>json_lib\<close> holds one function per library
  operation the sources call, over an arbitrary type \<open>'j\<close> of JSON values.  Every
  definition of the development that touches JSON takes such a record as an argument.

  The locale \<open>json_api\<close> states the documented behaviour of those operations that
  the properties rely on.  Its predicate is the named hypothesis \<open>json_api J\<close> of the
  properties.  The library documents that brace-initialising a variable from one JSON
  value (\<^verbatim>\<open>auto x{value};\<close>) yields, depending on the compiler, a copy or an array with
  the value as its only element (\<open>j_brace\<close>): the locales \<open>json_brace_wraps\<close> and
  \<open>json_brace_copies\<close> extend the interface with one of the two.

  The second half instantiates the parameter with a concrete tree type, \<open>std_json\<close>,
  and discharges the laws for it; the witnesses evaluate the model on it.
\<close>

section \<open>The operations the sources call\<close>

datatype value_t = Null | Object | Array | String | Boolean
  | NumberInteger | NumberUnsigned | NumberFloat

record 'j json_lib =
  j_type :: "'j \<Rightarrow> value_t" \<comment> \<open>\<^verbatim>\<open>type()\<close>, \<^verbatim>\<open>is_array()\<close>, \<^verbatim>\<open>is_object()\<close>, \<^verbatim>\<open>is_null()\<close>\<close>
  j_contains :: "'j \<Rightarrow> string \<Rightarrow> bool" \<comment> \<open>\<^verbatim>\<open>contains(key)\<close>, \<^verbatim>\<open>find(key) != end()\<close>\<close>
  j_at :: "'j \<Rightarrow> string \<Rightarrow> ('j, 'j) outcome" \<comment> \<open>\<^verbatim>\<open>at(key)\<close>\<close>
  j_sub :: "'j \<Rightarrow> string \<Rightarrow> ('j, 'j) outcome" \<comment> \<open>\<^verbatim>\<open>operator[](key)\<close> read on a mutable value\<close>
  j_csub :: "'j \<Rightarrow> string \<Rightarrow> ('j, 'j) outcome" \<comment> \<open>\<^verbatim>\<open>operator[](key)\<close> on a const value\<close>
  j_index :: "'j \<Rightarrow> nat \<Rightarrow> ('j, 'j) outcome" \<comment> \<open>\<^verbatim>\<open>operator[](size_type)\<close> on a mutable value\<close>
  j_size :: "'j \<Rightarrow> nat" \<comment> \<open>\<^verbatim>\<open>size()\<close>\<close>
  j_elems :: "'j \<Rightarrow> 'j list" \<comment> \<open>the range \<^verbatim>\<open>begin()\<close> to \<^verbatim>\<open>end()\<close> of an array\<close>
  j_get_string :: "'j \<Rightarrow> ('j, string) outcome" \<comment> \<open>\<^verbatim>\<open>get<string>()\<close>\<close>
  j_get_int :: "'j \<Rightarrow> ('j, int32) outcome" \<comment> \<open>\<^verbatim>\<open>get<int>()\<close>, \<^verbatim>\<open>get<int32_t>()\<close>\<close>
  j_vector_error :: "'j \<Rightarrow> 'j exn" \<comment> \<open>what \<^verbatim>\<open>get<vector<T>>()\<close> throws for a value that is no array\<close>
  j_brace :: "'j \<Rightarrow> 'j" \<comment> \<open>the value of \<^verbatim>\<open>x\<close> after \<^verbatim>\<open>auto x{value}\<close>\<close>
  j_null :: 'j \<comment> \<open>a default constructed value\<close>
  j_str :: "string \<Rightarrow> 'j"
  j_int :: "int32 \<Rightarrow> 'j"
  j_array :: "'j list \<Rightarrow> 'j"
  j_object :: "(string \<times> 'j) list \<Rightarrow> 'j" \<comment> \<open>\<^verbatim>\<open>json{{key, value}, ...}\<close>\<close>
  j_put :: "'j \<Rightarrow> string \<Rightarrow> 'j \<Rightarrow> ('j, 'j) outcome" \<comment> \<open>\<^verbatim>\<open>x[key] = value\<close>\<close>
  j_push_back :: "'j \<Rightarrow> 'j \<Rightarrow> ('j, 'j) outcome"
  j_dump :: "'j \<Rightarrow> ('j, string) outcome"
  j_parse :: "string \<Rightarrow> ('j, 'j) outcome" \<comment> \<open>\<^verbatim>\<open>json::parse\<close>\<close>
  moved_string :: "string \<Rightarrow> string" \<comment> \<open>what a \<^verbatim>\<open>std::string\<close> holds after being moved from\<close>

text \<open>
  \<^verbatim>\<open>get_to(vector)\<close>: the elements of an array are read in order by the element type's
  \<^verbatim>\<open>from_json\<close>; a value that is no array is a type error.
\<close>

definition get_vector ::
    "'j json_lib \<Rightarrow> ('j \<Rightarrow> ('j, 'a) outcome) \<Rightarrow> 'j \<Rightarrow> ('j, 'a list) outcome" where
  "get_vector J f j =
     (if j_type J j = Array then mapR f (j_elems J j) else Throw (j_vector_error J j))"

text \<open>\<^verbatim>\<open>at(key).get_to(string)\<close> and \<^verbatim>\<open>at(key).get_to(int)\<close>.\<close>

definition at_string :: "'j json_lib \<Rightarrow> 'j \<Rightarrow> string \<Rightarrow> ('j, string) outcome" where
  "at_string J j k = rbind (j_at J j k) (j_get_string J)"

definition at_int :: "'j json_lib \<Rightarrow> 'j \<Rightarrow> string \<Rightarrow> ('j, int32) outcome" where
  "at_int J j k = rbind (j_at J j k) (j_get_int J)"

section \<open>The documented behaviour\<close>

locale json_api =
  fixes J :: "'j json_lib"
  assumes type_null: "j_type J (j_null J) = Null"
    and type_str: "j_type J (j_str J s) = String"
    and type_int: "j_type J (j_int J i) = NumberInteger"
    and type_array: "j_type J (j_array J xs) = Array"
    and type_object: "j_type J (j_object J kvs) = Object"
    and elems_array: "j_elems J (j_array J xs) = xs"
    and size_array: "j_size J (j_array J xs) = length xs"
    and get_string_str: "j_get_string J (j_str J s) = Ok s"
    and get_string_type: "j_type J j \<noteq> String \<Longrightarrow> \<exists>m. j_get_string J j = Throw (JsonTypeError m)"
    and get_int_int: "j_get_int J (j_int J i) = Ok i"
    and contains_object: "j_contains J (j_object J kvs) k \<longleftrightarrow> k \<in> fst ` set kvs"
    and contains_type: "j_type J j \<noteq> Object \<Longrightarrow> \<not> j_contains J j k"
    and at_object: "map_of kvs k = Some v \<Longrightarrow> j_at J (j_object J kvs) k = Ok v"
    and at_missing: "j_type J j = Object \<Longrightarrow> \<not> j_contains J j k \<Longrightarrow> \<exists>m. j_at J j k = Throw (JsonOutOfRange m)"
    and at_type: "j_type J j \<noteq> Object \<Longrightarrow> \<exists>m. j_at J j k = Throw (JsonTypeError m)"
    and csub_present: "j_contains J j k \<Longrightarrow> j_csub J j k = j_at J j k"
    and csub_missing: "j_type J j = Object \<Longrightarrow> \<not> j_contains J j k \<Longrightarrow> j_csub J j k = Stuck MissingKey"
    and csub_type: "j_type J j \<noteq> Object \<Longrightarrow> \<exists>m. j_csub J j k = Throw (JsonTypeError m)"
    and sub_present: "j_contains J j k \<Longrightarrow> j_sub J j k = j_at J j k"
    and sub_missing: "j_type J j \<in> {Object, Null} \<Longrightarrow> \<not> j_contains J j k \<Longrightarrow> j_sub J j k = Ok (j_null J)"
    and sub_type: "j_type J j \<notin> {Object, Null} \<Longrightarrow> \<exists>m. j_sub J j k = Throw (JsonTypeError m)"
    and index_array: "j_type J j = Array \<Longrightarrow>
          j_index J j n = Ok (if n < length (j_elems J j) then j_elems J j ! n else j_null J)"
    and index_type: "j_type J j \<notin> {Array, Null} \<Longrightarrow> \<exists>m. j_index J j n = Throw (JsonTypeError m)"
    and put_object: "k \<notin> fst ` set kvs \<Longrightarrow> j_put J (j_object J kvs) k v = Ok (j_object J (kvs @ [(k, v)]))"
    and put_null: "j_put J (j_null J) k v = Ok (j_object J [(k, v)])"
    and push_null: "j_push_back J (j_null J) x = Ok (j_array J [x])"
    and push_array: "j_push_back J (j_array J xs) x = Ok (j_array J (xs @ [x]))"
    and vector_error: "\<exists>m. j_vector_error J j = JsonTypeError m"
    and brace: "j_brace J j = j \<or> j_brace J j = j_array J [j]"
begin

lemmas api_simps [simp] =
  type_null type_str type_int type_array type_object elems_array size_array
  get_string_str get_int_int contains_object at_object csub_present csub_missing sub_present
  sub_missing put_object put_null push_null push_array

lemma at_string_object [simp]:
  "map_of kvs k = Some (j_str J s) \<Longrightarrow> at_string J (j_object J kvs) k = Ok s"
  by (simp add: at_string_def)

lemma at_int_object [simp]:
  "map_of kvs k = Some (j_int J i) \<Longrightarrow> at_int J (j_object J kvs) k = Ok i"
  by (simp add: at_int_def)

lemma get_vector_array [simp]: "get_vector J f (j_array J xs) = mapR f xs"
  by (simp add: get_vector_def)

lemma get_vector_no_array:
  "j_type J j \<noteq> Array \<Longrightarrow> \<exists>m. get_vector J f j = Throw (JsonTypeError m)"
  using vector_error by (simp add: get_vector_def)

lemma at_object_missing:
  "k \<notin> fst ` set kvs \<Longrightarrow> \<exists>m. j_at J (j_object J kvs) k = Throw (JsonOutOfRange m)"
  by (rule at_missing) simp_all

lemma at_string_object_missing:
  "k \<notin> fst ` set kvs \<Longrightarrow> \<exists>m. at_string J (j_object J kvs) k = Throw (JsonOutOfRange m)"
  using at_object_missing [of k kvs] by (auto simp: at_string_def)

lemma brace_cases [consumes 0, case_names copies wraps]:
  obtains "j_brace J j = j" | "j_brace J j = j_array J [j]"
  using brace by blast

end

text \<open>The two behaviours of \<^verbatim>\<open>auto x{value}\<close>.\<close>

locale json_brace_wraps = json_api +
  assumes wraps: "j_brace J j = j_array J [j]"

locale json_brace_copies = json_api +
  assumes copies: "j_brace J j = j"

section \<open>A concrete JSON value type\<close>

datatype jval =
    JNull
  | JBool bool
  | JInt int32
  | JUnsigned uint64
  | JStr string
  | JArr "jval list"
  | JObj "(string \<times> jval) list"

fun jval_type :: "jval \<Rightarrow> value_t" where
  "jval_type JNull = Null"
| "jval_type (JBool b) = Boolean"
| "jval_type (JInt i) = NumberInteger"
| "jval_type (JUnsigned n) = NumberUnsigned"
| "jval_type (JStr s) = String"
| "jval_type (JArr xs) = Array"
| "jval_type (JObj kvs) = Object"

fun jval_find :: "jval \<Rightarrow> string \<Rightarrow> jval option" where
  "jval_find (JObj kvs) k = map_of kvs k"
| "jval_find _ k = None"

definition jval_type_error :: "(jval, 'a) outcome" where
  "jval_type_error = Throw (JsonTypeError ''type_error'')"

definition jval_at :: "jval \<Rightarrow> string \<Rightarrow> (jval, jval) outcome" where
  "jval_at j k = (case jval_find j k of
      Some v \<Rightarrow> Ok v
    | None \<Rightarrow> if jval_type j = Object then Throw (JsonOutOfRange ''key not found'') else jval_type_error)"

definition jval_csub :: "jval \<Rightarrow> string \<Rightarrow> (jval, jval) outcome" where
  "jval_csub j k = (case jval_find j k of
      Some v \<Rightarrow> Ok v
    | None \<Rightarrow> if jval_type j = Object then Stuck MissingKey else jval_type_error)"

definition jval_sub :: "jval \<Rightarrow> string \<Rightarrow> (jval, jval) outcome" where
  "jval_sub j k = (case jval_find j k of
      Some v \<Rightarrow> Ok v
    | None \<Rightarrow> if jval_type j \<in> {Object, Null} then Ok JNull else jval_type_error)"

fun jval_elems :: "jval \<Rightarrow> jval list" where
  "jval_elems (JArr xs) = xs"
| "jval_elems _ = []"

fun jval_size :: "jval \<Rightarrow> nat" where
  "jval_size JNull = 0"
| "jval_size (JArr xs) = length xs"
| "jval_size (JObj kvs) = length kvs"
| "jval_size _ = 1"

definition jval_index :: "jval \<Rightarrow> nat \<Rightarrow> (jval, jval) outcome" where
  "jval_index j i = (if jval_type j \<in> {Array, Null}
     then Ok (if i < length (jval_elems j) then jval_elems j ! i else JNull)
     else jval_type_error)"

fun jval_get_string :: "jval \<Rightarrow> (jval, string) outcome" where
  "jval_get_string (JStr s) = Ok s"
| "jval_get_string _ = jval_type_error"

fun jval_get_int :: "jval \<Rightarrow> (jval, int32) outcome" where
  "jval_get_int (JInt i) = Ok i"
| "jval_get_int (JUnsigned n) = Ok (ucast n)"
| "jval_get_int (JBool b) = Ok (if b then 1 else 0)"
| "jval_get_int _ = jval_type_error"

fun jval_put :: "jval \<Rightarrow> string \<Rightarrow> jval \<Rightarrow> (jval, jval) outcome" where
  "jval_put JNull k v = Ok (JObj [(k, v)])"
| "jval_put (JObj kvs) k v =
    Ok (JObj (if k \<in> fst ` set kvs then map (\<lambda>(k', w). (k', if k' = k then v else w)) kvs else kvs @ [(k, v)]))"
| "jval_put _ k v = jval_type_error"

fun jval_push_back :: "jval \<Rightarrow> jval \<Rightarrow> (jval, jval) outcome" where
  "jval_push_back JNull x = Ok (JArr [x])"
| "jval_push_back (JArr xs) x = Ok (JArr (xs @ [x]))"
| "jval_push_back _ x = jval_type_error"

text \<open>The compact text of a value.\<close>

fun join_with :: "string \<Rightarrow> string list \<Rightarrow> string" where
  "join_with sep [] = []"
| "join_with sep [x] = x"
| "join_with sep (x # xs) = x @ sep @ join_with sep xs"

definition quoted :: "string \<Rightarrow> string" where
  "quoted s = CHR 0x22 # concat (map (\<lambda>c. if c \<in> {CHR 0x22, CHR 0x5C} then [CHR 0x5C, c] else [c]) s) @ [CHR 0x22]"

fun jval_text :: "jval \<Rightarrow> string" where
  "jval_text JNull = ''null''"
| "jval_text (JBool b) = (if b then ''true'' else ''false'')"
| "jval_text (JInt i) = int_to_string (sint i)"
| "jval_text (JUnsigned n) = to_string (unat n)"
| "jval_text (JStr s) = quoted s"
| "jval_text (JArr xs) = ''['' @ join_with '','' (map jval_text xs) @ '']''"
| "jval_text (JObj kvs) = ''{'' @ join_with '','' (map (\<lambda>(k, v). quoted k @ '':'' @ jval_text v) kvs) @ ''}''"

text \<open>
  The instance takes the behaviour of \<^verbatim>\<open>auto x{value}\<close> (\<open>True\<close> for the wrapping one)
  and the parser as arguments.
\<close>

definition std_json :: "bool \<Rightarrow> (string \<Rightarrow> jval option) \<Rightarrow> jval json_lib" where
  "std_json wrap parse = \<lparr>
     j_type = jval_type,
     j_contains = (\<lambda>j k. jval_find j k \<noteq> None),
     j_at = jval_at,
     j_sub = jval_sub,
     j_csub = jval_csub,
     j_index = jval_index,
     j_size = jval_size,
     j_elems = jval_elems,
     j_get_string = jval_get_string,
     j_get_int = jval_get_int,
     j_vector_error = (\<lambda>j. JsonTypeError ''type must be array''),
     j_brace = (\<lambda>j. if wrap then JArr [j] else j),
     j_null = JNull,
     j_str = JStr,
     j_int = JInt,
     j_array = JArr,
     j_object = JObj,
     j_put = jval_put,
     j_push_back = jval_push_back,
     j_dump = (\<lambda>j. Ok (jval_text j)),
     j_parse = (\<lambda>s. case parse s of Some j \<Rightarrow> Ok j | None \<Rightarrow> Throw (JsonParseError ''parse error'')),
     moved_string = (\<lambda>s. [])\<rparr>"

named_theorems std_json_simps \<open>evaluation of the concrete JSON instance\<close>

lemma std_json_sel [simp, std_json_simps]:
  "j_type (std_json b p) = jval_type"
  "j_contains (std_json b p) = (\<lambda>j k. jval_find j k \<noteq> None)"
  "j_at (std_json b p) = jval_at"
  "j_sub (std_json b p) = jval_sub"
  "j_csub (std_json b p) = jval_csub"
  "j_index (std_json b p) = jval_index"
  "j_size (std_json b p) = jval_size"
  "j_elems (std_json b p) = jval_elems"
  "j_get_string (std_json b p) = jval_get_string"
  "j_get_int (std_json b p) = jval_get_int"
  "j_vector_error (std_json b p) = (\<lambda>j. JsonTypeError ''type must be array'')"
  "j_brace (std_json b p) = (\<lambda>j. if b then JArr [j] else j)"
  "j_null (std_json b p) = JNull"
  "j_str (std_json b p) = JStr"
  "j_int (std_json b p) = JInt"
  "j_array (std_json b p) = JArr"
  "j_object (std_json b p) = JObj"
  "j_put (std_json b p) = jval_put"
  "j_push_back (std_json b p) = jval_push_back"
  "j_dump (std_json b p) = (\<lambda>j. Ok (jval_text j))"
  "j_parse (std_json b p) = (\<lambda>s. case p s of Some j \<Rightarrow> Ok j | None \<Rightarrow> Throw (JsonParseError ''parse error''))"
  "moved_string (std_json b p) = (\<lambda>s. [])"
  by (simp_all add: std_json_def)

lemmas jval_ops = jval_at_def jval_csub_def jval_sub_def jval_index_def jval_type_error_def

lemma jval_find_type: "jval_type j \<noteq> Object \<Longrightarrow> jval_find j k = None"
  by (cases j) simp_all

lemma map_of_Some_iff: "(\<exists>y. map_of kvs k = Some y) \<longleftrightarrow> k \<in> fst ` set kvs"
  using map_of_eq_None_iff [of kvs k] by (cases "map_of kvs k") auto

interpretation std: json_api "std_json b p"
proof unfold_locales
  show "\<exists>m. j_get_string (std_json b p) j = Throw (JsonTypeError m)"
    if "j_type (std_json b p) j \<noteq> String" for j
    using that by (cases j) (auto simp: jval_ops)
qed (auto simp: jval_ops jval_find_type map_of_Some_iff map_of_eq_None_iff)

interpretation std_wraps: json_brace_wraps "std_json True p"
  by unfold_locales simp

interpretation std_copies: json_brace_copies "std_json False p"
  by unfold_locales simp

lemma std_json_api: "json_api (std_json b p)"
  by (rule std.json_api_axioms)

end
