(* ===== verification/Kea_Lib.thy ===== *)
theory Kea_Lib
  imports Json_Lib
begin

text \<open>
  The Kea libraries, the operating system and the compiler's choices as a parameter.
  Kea is not part of the repository: its data enters as records of the fields and
  accessor results the sources read (a lease, a packet, a URL, a configuration element),
  its operations as the fields of the records \<open>elem_lib\<close> and \<open>env\<close>, which the
  definitions of the development take as an argument.
\<close>

section \<open>Addresses, identifiers, leases\<close>

type_synonym ioaddr = "128 word" \<comment> \<open>\<^verbatim>\<open>isc::asiolink::IOAddress\<close>, an IPv6 address\<close>
type_synonym duid = "uint8 list"
type_synonym subnet_id = uint32

record hwaddr =
  hw_bytes :: "uint8 list"
  hw_type :: "16 word"
  hw_source :: uint32

datatype lease_type = TYPE_TA | TYPE_NA | TYPE_PD | TYPE_V4

record lease =
  l_addr :: ioaddr
  l_prefixlen :: uint8
  l_iaid :: uint32
  l_duid :: "duid option" \<comment> \<open>\<open>None\<close> is the null pointer\<close>
  l_hwaddr :: "hwaddr option"
  l_type :: lease_type
  l_stateExpiredReclaimed :: bool
  l_stateDeclined :: bool

text \<open>
  The lease database and the current configuration as the code sees them when it asks.
  A database backend may throw.
\<close>

record 'j lease_mgr =
  getLeases6 :: "lease_type \<Rightarrow> duid \<Rightarrow> uint32 \<Rightarrow> ('j, lease list) outcome"
  getLeases6_subnet :: "subnet_id \<Rightarrow> ('j, lease list) outcome"

record cfg_mgr =
  currentCfg :: "subnet_id list option option option"
    \<comment> \<open>\<^verbatim>\<open>getCurrentCfg()\<close>, \<^verbatim>\<open>getCfgSubnets6()\<close>, \<^verbatim>\<open>getAll()\<close>: each may be a null pointer\<close>

section \<open>Configuration elements and URLs\<close>

datatype elem_type = E_integer | E_real | E_boolean | E_null | E_string | E_list | E_map

record ('j, 'e) elem_lib =
  e_type :: "'e \<Rightarrow> elem_type"
  e_find :: "'e \<Rightarrow> string \<Rightarrow> ('j, 'e option) outcome"
  e_stringValue :: "'e \<Rightarrow> ('j, string) outcome"
  e_intValue :: "'e \<Rightarrow> ('j, uint64) outcome" \<comment> \<open>the 64 bits of a signed value\<close>
  e_mapValue :: "'e \<Rightarrow> ('j, string \<Rightarrow> 'e option) outcome"
  e_fromJSON :: "string \<Rightarrow> ('j, 'e) outcome"
  e_text :: "'e \<Rightarrow> string" \<comment> \<open>\<^verbatim>\<open>str()\<close>\<close>

datatype scheme = HTTP | HTTPS

record url =
  url_valid :: bool
  url_error :: string
  url_scheme :: scheme
  url_hostname :: string
  url_port :: nat
  url_text :: string

record auth =
  auth_secret :: string

section \<open>The HTTP library\<close>

text \<open>The enumerators of \<^verbatim>\<open>httplib::Error\<close> the sources name, and any other.\<close>

datatype httplib_error = HL_Success | HL_Unknown | HL_Connection | HL_BindIPAddress | HL_Read | HL_Write
  | HL_ExceedRedirectCount | HL_Canceled | HL_SSLConnection | HL_SSLLoadingCerts
  | HL_SSLServerVerification | HL_UnsupportedMultipartBoundaryChars | HL_Compression
  | HL_ConnectionTimeout | HL_ProxyConnection | HL_Other nat

text \<open>What a \<^verbatim>\<open>POST\<close> gives back: an error, or a status with a body.\<close>

datatype reply = NoReply httplib_error | Reply int32 string

section \<open>The environment\<close>

record ('j, 'e) env =
  nl :: "'j json_lib"
  el :: "('j, 'e) elem_lib"
  toText :: "ioaddr \<Rightarrow> string"
  duid_toText :: "duid \<Rightarrow> string"
  hwaddr_fromText :: "string \<Rightarrow> ('j, hwaddr) outcome"
  hwaddr_eq :: "hwaddr \<Rightarrow> hwaddr \<Rightarrow> bool" \<comment> \<open>\<^verbatim>\<open>HWAddr::operator==\<close>\<close>
  parse_url :: "string \<Rightarrow> url"
  make_auth :: "string \<Rightarrow> string \<Rightarrow> ('j, auth) outcome" \<comment> \<open>\<^verbatim>\<open>BasicHttpAuth(user, password)\<close>\<close>
  timer_setup :: "uint64 \<Rightarrow> ('j, unit) outcome" \<comment> \<open>\<^verbatim>\<open>IntervalTimer::setup\<close>, may reject the interval\<close>
  httplib_enum :: "nat \<Rightarrow> httplib_error" \<comment> \<open>the enumerator with a number\<close>
  httplib_to_string :: "httplib_error \<Rightarrow> string"

text \<open>
  A printed address holds no blank: the documented text forms of an IPv6 address are
  made of hexadecimal digits, colons and dots.
\<close>

definition blank_free :: "string \<Rightarrow> bool" where
  "blank_free s \<longleftrightarrow> CHR '' '' \<notin> set s"

definition toText_ok :: "('j, 'e) env \<Rightarrow> bool" where
  "toText_ok V \<longleftrightarrow> (\<forall>a. blank_free (toText V a) \<and> CHR ''/'' \<notin> set (toText V a)) \<and> inj (toText V)"

lemma blank_free_append [simp]: "blank_free (s @ t) \<longleftrightarrow> blank_free s \<and> blank_free t"
  by (auto simp: blank_free_def)

lemma blank_free_Nil [simp]: "blank_free []"
  by (simp add: blank_free_def)

lemma blank_free_Cons [simp]: "blank_free (c # s) \<longleftrightarrow> c \<noteq> CHR '' '' \<and> blank_free s"
  by (auto simp: blank_free_def)

lemma blank_free_to_string [simp]: "blank_free (to_string n)"
  using to_string_digits by (fastforce simp: blank_free_def is_digit_def)

lemma toText_blank_free: "toText_ok V \<Longrightarrow> blank_free (toText V a)"
  by (simp add: toText_ok_def)

section \<open>A concrete environment\<close>

text \<open>
  An instance of the parameter for the witnesses: configuration elements are trees, a
  hardware address is parsed from colon-separated hexadecimal pairs, an address prints
  as its value, a user name with a colon is refused, and so is a timer interval that is
  not positive.
\<close>

datatype kelem = KText string | KInt uint64 | KBool bool | KStr string | KMap "(string \<times> kelem) list"

fun kelem_type :: "kelem \<Rightarrow> elem_type" where
  "kelem_type (KText s) = E_list"
| "kelem_type (KInt i) = E_integer"
| "kelem_type (KBool b) = E_boolean"
| "kelem_type (KStr s) = E_string"
| "kelem_type (KMap kvs) = E_map"

definition kelem_lib :: "(jval, kelem) elem_lib" where
  "kelem_lib = \<lparr>
     e_type = kelem_type,
     e_find = (\<lambda>e k. case e of KMap kvs \<Rightarrow> Ok (map_of kvs k) | _ \<Rightarrow> Throw (TypeError ''find'')),
     e_stringValue = (\<lambda>e. case e of KStr s \<Rightarrow> Ok s | _ \<Rightarrow> Throw (TypeError ''stringValue'')),
     e_intValue = (\<lambda>e. case e of KInt i \<Rightarrow> Ok i | _ \<Rightarrow> Throw (TypeError ''intValue'')),
     e_mapValue = (\<lambda>e. case e of KMap kvs \<Rightarrow> Ok (map_of kvs) | _ \<Rightarrow> Throw (TypeError ''mapValue'')),
     e_fromJSON = (\<lambda>s. Ok (KText s)),
     e_text = (\<lambda>e. case e of KText s \<Rightarrow> s | _ \<Rightarrow> [])\<rparr>"

definition hex_digit :: "char \<Rightarrow> nat option" where
  "hex_digit c = (let n = of_char c in
     if 48 \<le> n \<and> n \<le> 57 then Some (n - 48)
     else if 97 \<le> n \<and> n \<le> 102 then Some (n - 87) else None)"

fun hex_pairs :: "string \<Rightarrow> uint8 list option" where
  "hex_pairs [] = Some []"
| "hex_pairs [a] = None"
| "hex_pairs (a # b # cs) = (case (hex_digit a, hex_digit b) of
     (Some x, Some y) \<Rightarrow> map_option ((#) (of_nat (16 * x + y)))
        (hex_pairs (if take 1 cs = '':'' then drop 1 cs else cs))
   | _ \<Rightarrow> None)"

definition std_fromText :: "string \<Rightarrow> (jval, hwaddr) outcome" where
  "std_fromText s = (case hex_pairs s of
     Some bs \<Rightarrow> Ok \<lparr>hw_bytes = bs, hw_type = 1, hw_source = 0\<rparr>
   | None \<Rightarrow> Throw (BadValue ''invalid format of the decoded string''))"

definition std_url :: "string \<Rightarrow> url" where
  "std_url s = \<lparr>
     url_valid = prefix ''http://'' s \<or> prefix ''https://'' s,
     url_error = ''url '' @ s @ '' lacks http or https scheme'',
     url_scheme = (if prefix ''https://'' s then HTTPS else HTTP),
     url_hostname = drop 7 s, url_port = 80, url_text = s\<rparr>"

definition std_env :: "jval json_lib \<Rightarrow> (jval, kelem) env" where
  "std_env J = \<lparr>
     nl = J,
     el = kelem_lib,
     toText = (\<lambda>a. ''::'' @ to_string (unat a)),
     duid_toText = (\<lambda>d. join_with '':'' (map (\<lambda>b. to_string (unat b)) d)),
     hwaddr_fromText = std_fromText,
     hwaddr_eq = (\<lambda>a b. hw_type a = hw_type b \<and> hw_bytes a = hw_bytes b),
     parse_url = std_url,
     make_auth = (\<lambda>u p. if CHR '':'' \<in> set u then Throw (BadValue ''user must not contain a colon'')
                        else Ok \<lparr>auth_secret = u @ '':'' @ p\<rparr>),
     timer_setup = (\<lambda>i. if sint i \<le> 0 then Throw (BadValue ''Interval should not be less than or equal to 0'')
                       else Ok ()),
     httplib_enum = (\<lambda>n. if n < 15 then [HL_Success, HL_Unknown, HL_Connection, HL_BindIPAddress, HL_Read,
        HL_Write, HL_ExceedRedirectCount, HL_Canceled, HL_SSLConnection, HL_SSLLoadingCerts,
        HL_SSLServerVerification, HL_UnsupportedMultipartBoundaryChars, HL_Compression,
        HL_ConnectionTimeout, HL_ProxyConnection] ! n else HL_Other n),
     httplib_to_string = (\<lambda>e. if e = HL_Success then ''Success (no error)'' else ''error'')\<rparr>"

lemma std_env_sel [simp]:
  "nl (std_env J) = J"
  "el (std_env J) = kelem_lib"
  "toText (std_env J) = (\<lambda>a. ''::'' @ to_string (unat a))"
  "hwaddr_fromText (std_env J) = std_fromText"
  "hwaddr_eq (std_env J) = (\<lambda>a b. hw_type a = hw_type b \<and> hw_bytes a = hw_bytes b)"
  "parse_url (std_env J) = std_url"
  "make_auth (std_env J) = (\<lambda>u p. if CHR '':'' \<in> set u then Throw (BadValue ''user must not contain a colon'')
                        else Ok \<lparr>auth_secret = u @ '':'' @ p\<rparr>)"
  "timer_setup (std_env J) = (\<lambda>i. if sint i \<le> 0
      then Throw (BadValue ''Interval should not be less than or equal to 0'') else Ok ())"
  "httplib_to_string (std_env J) = (\<lambda>e. if e = HL_Success then ''Success (no error)'' else ''error'')"
  by (simp_all add: std_env_def)

lemma kelem_lib_sel [simp]:
  "e_type kelem_lib = kelem_type"
  "e_find kelem_lib (KMap kvs) k = Ok (map_of kvs k)"
  "e_stringValue kelem_lib (KStr s) = Ok s"
  "e_intValue kelem_lib (KInt i) = Ok i"
  "e_mapValue kelem_lib (KMap kvs) = Ok (map_of kvs)"
  "e_fromJSON kelem_lib s = Ok (KText s)"
  "e_text kelem_lib (KText s) = s"
  by (simp_all add: kelem_lib_def)

lemma std_env_toText_ok: "toText_ok (std_env J)"
  by (auto simp: toText_ok_def inj_def to_string_inject is_digit_def
      dest!: to_string_digits intro: unsigned_word_eqI)

end
