(* ===== verification/Jsonrpc.thy ===== *)
theory Jsonrpc
  imports Kea_Lib
begin

text \<open>
  The JSON-RPC support of \<^verbatim>\<open>include/jsonrpc/utils.hpp\<close> and \<^verbatim>\<open>src/jsonrpc/utils.cpp\<close>:
  the exception class, the request builder and the response validator.  Lemmas: the exact
  request document, the classification of error codes, and what each shape of response
  yields, errors included.
\<close>

section \<open>Exceptions\<close>

datatype error_type = PARSE_ERROR | INVALID_REQUEST | METHOD_NOT_FOUND | INVALID_PARAMS
  | INTERNAL_ERROR | SERVER_ERROR | INVALID

fun error_code :: "error_type \<Rightarrow> int32" where
  "error_code PARSE_ERROR = -32700"
| "error_code INVALID_REQUEST = -32600"
| "error_code METHOD_NOT_FOUND = -32601"
| "error_code INVALID_PARAMS = -32602"
| "error_code INTERNAL_ERROR = -32603"
| "error_code SERVER_ERROR = -1"
| "error_code INVALID = 0"

text \<open>The \<^verbatim>\<open>switch\<close> runs on the integer value: a value that is no enumerator takes the default.\<close>

definition ErrorTypeString :: "int32 \<Rightarrow> string" where
  "ErrorTypeString c =
     (if c = error_code PARSE_ERROR then ''parse_error''
      else if c = error_code INVALID_REQUEST then ''invalid_request''
      else if c = error_code METHOD_NOT_FOUND then ''method_not_found''
      else if c = error_code INVALID_PARAMS then ''invalid_params''
      else if c = error_code INTERNAL_ERROR then ''internal_error''
      else if c = error_code SERVER_ERROR then ''server_error''
      else ''invalid_error'')"

definition jsonrpc_exn :: "'j json_lib \<Rightarrow> int32 \<Rightarrow> string \<Rightarrow> 'j jsonrpc_exception" where
  "jsonrpc_exn J code message =
     \<lparr>m_code = code, m_message = message, m_data = j_null J,
      m_err = ErrorTypeString code @ '': '' @ message\<rparr>"

definition jsonrpc_exn_data ::
    "'j json_lib \<Rightarrow> int32 \<Rightarrow> string \<Rightarrow> 'j \<Rightarrow> ('j, 'j jsonrpc_exception) outcome" where
  "jsonrpc_exn_data J code message data =
     rmap (\<lambda>d. \<lparr>m_code = code, m_message = message, m_data = data,
       m_err = ErrorTypeString code @ '': '' @ message @ '', data: '' @ d\<rparr>) (j_dump J data)"

definition static_cast_error :: "int32 \<Rightarrow> error_type" where
  "static_cast_error c =
     (if c = -32603 then INTERNAL_ERROR else if c = -32602 then INVALID_PARAMS
      else if c = -32601 then METHOD_NOT_FOUND else INVALID_REQUEST)"

definition exn_type :: "'j jsonrpc_exception \<Rightarrow> error_type" where
  "exn_type e = (let c = sint (m_code e) in
     if c \<ge> -32603 \<and> c \<le> -32600 then static_cast_error (m_code e)
     else if c \<ge> -32099 \<and> c \<le> -32000 then SERVER_ERROR
     else if c = -32700 then PARSE_ERROR
     else INVALID)"

definition hasKey :: "'j json_lib \<Rightarrow> 'j \<Rightarrow> string \<Rightarrow> bool" where
  "hasKey J v key = j_contains J v key"

definition hasKeyWithType :: "'j json_lib \<Rightarrow> 'j \<Rightarrow> string \<Rightarrow> value_t \<Rightarrow> ('j, bool) outcome" where
  "hasKeyWithType J v key t =
     (if hasKey J v key then rmap (\<lambda>x. j_type J x = t) (j_at J v key) else Ok False)"

definition invalid_error_response :: string where
  "invalid_error_response =
     ''invalid error response: \"code\" (negative number) and \"message\" (string) are required''"

definition fromJson :: "'j json_lib \<Rightarrow> 'j \<Rightarrow> ('j, 'j jsonrpc_exception) outcome" where
  "fromJson J value =
     rbind (hasKeyWithType J value ''code'' NumberInteger) (\<lambda>hasCode.
     rbind (hasKeyWithType J value ''message'' String) (\<lambda>hasMessage.
     if hasCode \<and> hasMessage then
       rbind (rbind (j_csub J value ''code'') (j_get_int J)) (\<lambda>code.
       rbind (rbind (j_csub J value ''message'') (j_get_string J)) (\<lambda>message.
       if hasKey J value ''data''
       then rbind (j_csub J value ''data'') (jsonrpc_exn_data J code message)
       else Ok (jsonrpc_exn J code message)))
     else Ok (jsonrpc_exn J (error_code INTERNAL_ERROR) invalid_error_response)))"

section \<open>Requests\<close>

text \<open>One entry of the request array: the object built for a numbered command.\<close>

definition command_json :: "'j json_lib \<Rightarrow> int32 \<times> string \<Rightarrow> ('j, 'j) outcome" where
  "command_json J entry = (case entry of (reqId, command) \<Rightarrow>
     rbind (j_put J (j_object J [(''method'', j_str J ''cli'')]) ''id'' (j_int J reqId)) (\<lambda>inner.
     rbind (j_put J inner ''jsonrpc'' (j_str J ''2.0'')) (\<lambda>inner.
     rbind (j_put J (j_object J [(''cmd'', j_str J command)]) ''version'' (j_int J 1)) (\<lambda>cliParams.
     j_put J inner ''params'' cliParams))))"

fun request_array :: "'j json_lib \<Rightarrow> 'j \<Rightarrow> (int32 \<times> string) list \<Rightarrow> ('j, 'j) outcome" where
  "request_array J array [] = Ok array"
| "request_array J array (entry # entries) =
     rbind (command_json J entry) (\<lambda>inner.
     rbind (j_push_back J array inner) (\<lambda>array. request_array J array entries))"

definition createRequestFromCommands ::
    "('j, 'e) env \<Rightarrow> (int32 \<times> string) list \<Rightarrow> ('j, 'e) outcome" where
  "createRequestFromCommands V commands =
     rbind (request_array (nl V) (j_null (nl V)) commands) (\<lambda>array.
     rbind (j_dump (nl V) array) (e_fromJSON (el V)))"

definition createRequestFromCommand ::
    "('j, 'e) env \<Rightarrow> int32 \<Rightarrow> string \<Rightarrow> ('j, 'e) outcome" where
  "createRequestFromCommand V reqId commands = createRequestFromCommands V [(reqId, commands)]"

section \<open>Responses\<close>

datatype id_type = IdInt int32 | IdString string

record 'j jsonrpc_response =
  resp_id :: id_type
  resp_result :: 'j

fun id_toString :: "id_type \<Rightarrow> string" where
  "id_toString (IdInt i) = int_to_string (sint i)"
| "id_toString (IdString s) = s"

definition neither_result_nor_error :: string where
  "neither_result_nor_error =
     ''invalid server response: neither \"result\" nor \"error\" fields found for response id: ''"

definition response_id :: "'j json_lib \<Rightarrow> 'j \<Rightarrow> ('j, id_type option) outcome" where
  "response_id J inner =
     (if hasKey J inner ''id'' then
        rbind (j_csub J inner ''id'') (\<lambda>i.
        if j_type J i = String then rmap (\<lambda>s. Some (IdString s)) (j_get_string J i)
        else rmap (\<lambda>n. Some (IdInt n)) (j_get_int J i))
      else Ok None)"

text \<open>
  The lambda \<^verbatim>\<open>validator\<close>.  It appends one response to the captured vector or throws;
  here it returns the response it appends.
\<close>

definition validator :: "'j json_lib \<Rightarrow> 'j \<Rightarrow> ('j, 'j jsonrpc_response) outcome" where
  "validator J inner =
     rbind (hasKeyWithType J inner ''error'' Object) (\<lambda>errorObject.
     if errorObject then
       rbind (j_csub J inner ''error'') (\<lambda>e. rbind (fromJson J e) (\<lambda>x. Throw (JsonRpcExn x)))
     else
     rbind (hasKeyWithType J inner ''error'' String) (\<lambda>errorString.
     if errorString then
       rbind (rbind (j_csub J inner ''error'') (j_get_string J)) (\<lambda>message.
       Throw (JsonRpcExn (jsonrpc_exn J (error_code INTERNAL_ERROR) message)))
     else
     rbind (response_id J inner) (\<lambda>idKey. case idKey of
       Some i \<Rightarrow> rmap (\<lambda>r. \<lparr>resp_id = i, resp_result = r\<rparr>) (j_csub J inner ''result'')
     | None \<Rightarrow> Throw (JsonRpcExn (jsonrpc_exn J (error_code INTERNAL_ERROR)
                 (neither_result_nor_error @ id_toString (IdInt 0)))))))"

definition handle_parsed :: "'j json_lib \<Rightarrow> 'j \<Rightarrow> ('j, 'j jsonrpc_response list) outcome" where
  "handle_parsed J parsed =
     (if j_type J parsed = Array then
        rbind (j_index J parsed 0) (\<lambda>first.
        let inner = j_brace J first in
        if j_size J inner \<noteq> 0 then
          rbind (j_index J inner 0) (\<lambda>item.
          if j_type J item = Array then mapR (validator J) (j_elems J item)
          else if j_type J item = Object then rmap (\<lambda>r. [r]) (validator J item)
          else Ok [])
        else Ok [])
      else rmap (\<lambda>r. [r]) (validator J parsed))"

text \<open>\<^verbatim>\<open>catch (json::parse_error& e)\<close> around the whole of it.\<close>

definition translate_parse_error :: "'j json_lib \<Rightarrow> ('j, 'a) outcome \<Rightarrow> ('j, 'a) outcome" where
  "translate_parse_error J r = (case r of
     Throw (JsonParseError m) \<Rightarrow>
       Throw (JsonRpcExn (jsonrpc_exn J (error_code PARSE_ERROR)
         (''invalid JSON response from server: '' @ m)))
   | _ \<Rightarrow> r)"

definition handleResponse :: "'j json_lib \<Rightarrow> string \<Rightarrow> ('j, 'j jsonrpc_response list) outcome" where
  "handleResponse J response =
     translate_parse_error J (rbind (j_parse J response) (\<lambda>doc. handle_parsed J (j_brace J doc)))"

lemma translate_parse_error_simps [simp]:
  "translate_parse_error J (Ok a) = Ok a"
  "translate_parse_error J (Stuck u) = Stuck u"
  "translate_parse_error J (Throw (JsonRpcExn x)) = Throw (JsonRpcExn x)"
  "translate_parse_error J (Throw (JsonTypeError m)) = Throw (JsonTypeError m)"
  "translate_parse_error J (Throw (JsonOutOfRange m)) = Throw (JsonOutOfRange m)"
  "translate_parse_error J (Throw (JsonParseError m)) =
     Throw (JsonRpcExn (jsonrpc_exn J (error_code PARSE_ERROR)
       (''invalid JSON response from server: '' @ m)))"
  by (simp_all add: translate_parse_error_def)

section \<open>Lemmas on requests\<close>

text \<open>The object a numbered command becomes, written out.\<close>

definition command_object :: "'j json_lib \<Rightarrow> int32 \<times> string \<Rightarrow> 'j" where
  "command_object J entry = j_object J
     [(''method'', j_str J ''cli''), (''id'', j_int J (fst entry)), (''jsonrpc'', j_str J ''2.0''),
      (''params'', j_object J [(''cmd'', j_str J (snd entry)), (''version'', j_int J 1)])]"

context json_api
begin

lemma command_json_eq: "command_json J entry = Ok (command_object J entry)"
  by (simp add: command_json_def command_object_def split: prod.split)

lemma request_array_eq:
  "request_array J (j_array J xs) entries = Ok (j_array J (xs @ map (command_object J) entries))"
  by (induction entries arbitrary: xs) (simp_all add: command_json_eq)

lemma request_array_start:
  "entries \<noteq> [] \<Longrightarrow>
    request_array J (j_null J) entries = Ok (j_array J (map (command_object J) entries))"
  by (cases entries) (simp_all add: command_json_eq request_array_eq)

end

section \<open>Lemmas on responses\<close>

fun id_json :: "'j json_lib \<Rightarrow> id_type \<Rightarrow> 'j" where
  "id_json J (IdInt i) = j_int J i"
| "id_json J (IdString s) = j_str J s"

text \<open>The response objects of the JSON-RPC standard: one with a result, one with an error.\<close>

definition response_object :: "'j json_lib \<Rightarrow> 'j jsonrpc_response \<Rightarrow> 'j" where
  "response_object J r = j_object J
     [(''jsonrpc'', j_str J ''2.0''), (''result'', resp_result r), (''id'', id_json J (resp_id r))]"

definition error_object :: "'j json_lib \<Rightarrow> int32 \<Rightarrow> string \<Rightarrow> id_type \<Rightarrow> 'j" where
  "error_object J code message i = j_object J
     [(''jsonrpc'', j_str J ''2.0''),
      (''error'', j_object J [(''code'', j_int J code), (''message'', j_str J message)]),
      (''id'', id_json J i)]"

context json_api
begin

lemma validator_response_object: "validator J (response_object J r) = Ok r"
  by (cases "resp_id r")
    (simp_all add: validator_def response_object_def hasKeyWithType_def hasKey_def response_id_def)

lemma mapR_response_objects: "mapR (validator J) (map (response_object J) rs) = Ok rs"
  by (induction rs) (simp_all add: validator_response_object)

lemma fromJson_error:
  "fromJson J (j_object J [(''code'', j_int J code), (''message'', j_str J message)])
     = Ok (jsonrpc_exn J code message)"
  by (simp add: fromJson_def hasKeyWithType_def hasKey_def)

lemma validator_error_object:
  "validator J (error_object J code message i) = Throw (JsonRpcExn (jsonrpc_exn J code message))"
  by (simp add: validator_def error_object_def hasKeyWithType_def hasKey_def fromJson_error)

lemma type_response_object [simp]: "j_type J (response_object J r) = Object"
  by (simp add: response_object_def)

lemma type_error_object [simp]: "j_type J (error_object J code message i) = Object"
  by (simp add: error_object_def)

lemma index_one [simp]: "j_index J (j_array J [x]) 0 = Ok x"
  by (simp add: index_array)

text \<open>
  One object is validated whichever way brace initialisation goes: copied, it takes the
  last branch; wrapped, the array branch unwraps it again.
\<close>

lemma handle_parsed_object:
  assumes "j_type J doc = Object"
  shows "handle_parsed J (j_brace J doc) = rmap (\<lambda>r. [r]) (validator J doc)"
proof (cases rule: brace_cases [of doc])
  case copies
  with assms show ?thesis by (simp add: handle_parsed_def)
next
  case wraps
  have "j_brace J doc = doc \<or> j_brace J doc = j_array J [doc]" by (rule brace)
  with wraps assms show ?thesis
    by (auto simp: handle_parsed_def Let_def size_array)
qed

lemma handleResponse_object:
  "j_parse J body = Ok doc \<Longrightarrow> j_type J doc = Object \<Longrightarrow>
    handleResponse J body = translate_parse_error J (rmap (\<lambda>r. [r]) (validator J doc))"
  by (simp add: handleResponse_def handle_parsed_object)

lemma validator_no_result:
  "validator J (j_object J [(''jsonrpc'', j_str J ''2.0''), (''id'', id_json J i)]) = Stuck MissingKey"
  by (cases i) (simp_all add: validator_def hasKeyWithType_def hasKey_def response_id_def csub_missing)

end

context json_brace_wraps
begin

lemma handle_parsed_wraps:
  "handle_parsed J (j_brace J doc) =
    (if j_type J doc = Array then mapR (validator J) (j_elems J doc)
     else if j_type J doc = Object then rmap (\<lambda>r. [r]) (validator J doc)
     else Ok [])"
  by (simp add: handle_parsed_def wraps Let_def size_array)

lemma handleResponse_batch:
  "j_parse J body = Ok (j_array J (map (response_object J) rs)) \<Longrightarrow> handleResponse J body = Ok rs"
  by (simp add: handleResponse_def handle_parsed_wraps mapR_response_objects)

lemma handleResponse_batch_error:
  "j_parse J body = Ok (j_array J (map (response_object J) rs @ error_object J code message i # docs)) \<Longrightarrow>
    handleResponse J body = Throw (JsonRpcExn (jsonrpc_exn J code message))"
  by (simp add: handleResponse_def handle_parsed_wraps mapR_append mapR_response_objects
      validator_error_object)

end

context json_brace_copies
begin

lemma handle_parsed_copies_array:
  assumes "xs \<noteq> []" and "j_type J (hd xs) \<notin> {Array, Null}" and "j_size J (hd xs) \<noteq> 0"
  shows "\<exists>m. handle_parsed J (j_brace J (j_array J xs)) = Throw (JsonTypeError m)"
proof -
  have "j_index J (j_array J xs) 0 = Ok (hd xs)"
    using assms(1) by (simp add: index_array hd_conv_nth)
  moreover obtain m where "j_index J (hd xs) 0 = Throw (JsonTypeError m)"
    using index_type [OF assms(2)] by blast
  ultimately show ?thesis using assms(3) by (simp add: handle_parsed_def copies Let_def)
qed

end

section \<open>Properties\<close>

text \<open>C18: a request built from a non-empty list of numbered commands is the text of one JSON array
  that holds, in the order of the list, exactly one JSON-RPC 2.0 object per command, with method
  \<open>cli\<close>, the command's own id, and the command text under \<open>params.cmd\<close> with version 1.\<close>

theorem request_document:
  assumes "json_api (nl V)" and "commands \<noteq> []"
  shows "createRequestFromCommands V commands =
    rbind (j_dump (nl V) (j_array (nl V) (map (command_object (nl V)) commands))) (e_fromJSON (el V))"
  using json_api.request_array_start [OF assms]
  by (simp add: createRequestFromCommands_def)

lemma request_document_witness:
  "createRequestFromCommands (std_env (std_json True (\<lambda>s. None))) [(1, ''show version'')] =
    Ok (KText (jval_text (JArr [JObj [(''method'', JStr ''cli''), (''id'', JInt 1), (''jsonrpc'', JStr ''2.0''),
       (''params'', JObj [(''cmd'', JStr ''show version''), (''version'', JInt 1)])]])))"
  using request_document [of "std_env (std_json True (\<lambda>s. None))" "[(1, ''show version'')]"]
  by (simp add: command_object_def std_json_api)

text \<open>C19: when brace initialisation wraps, a body that parses to an array of JSON-RPC result objects
  is decoded to exactly those responses, in order, with their ids (integers and strings) and results.\<close>

theorem response_batch_roundtrip:
  assumes "json_brace_wraps J"
    and "j_parse J body = Ok (j_array J (map (response_object J) responses))"
  shows "handleResponse J body = Ok responses"
  using json_brace_wraps.handleResponse_batch [OF assms] .

lemma response_batch_roundtrip_witness:
  "handleResponse (std_json True (\<lambda>s. Some (JArr [response_object (std_json True (\<lambda>s. None))
      \<lparr>resp_id = IdInt 1, resp_result = JNull\<rparr>]))) ''x'' = Ok [\<lparr>resp_id = IdInt 1, resp_result = JNull\<rparr>]"
proof (rule response_batch_roundtrip [OF std_wraps.json_brace_wraps_axioms])
qed (simp add: response_object_def)

text \<open>C20: a batch in which some entry is an error object with a code and a message makes the whole
  call throw the JSON-RPC exception of the first such entry, however many results precede it.\<close>

theorem response_batch_error:
  assumes "json_brace_wraps J"
    and "j_parse J body =
      Ok (j_array J (map (response_object J) responses @ error_object J code message i # docs))"
  shows "handleResponse J body = Throw (JsonRpcExn (jsonrpc_exn J code message))"
  using json_brace_wraps.handleResponse_batch_error [OF assms] .

lemma response_batch_error_witness:
  "handleResponse (std_json True (\<lambda>s. Some (JArr
       [error_object (std_json True (\<lambda>s. None)) (-32602) ''Invalid params'' (IdInt 1), JNull]))) ''x''
    = Throw (JsonRpcExn \<lparr>m_code = -32602, m_message = ''Invalid params'', m_data = JNull,
        m_err = ''invalid_params: Invalid params''\<rparr>)"
  using response_batch_error [OF std_wraps.json_brace_wraps_axioms [of "\<lambda>s. Some (JArr
       [error_object (std_json True (\<lambda>s. None)) (-32602) ''Invalid params'' (IdInt 1), JNull])"],
     where responses = "[]" and body = "''x''" and code = "-32602" and message = "''Invalid params''"
       and i = "IdInt 1" and docs = "[JNull]"]
  by (simp add: error_object_def jsonrpc_exn_def ErrorTypeString_def)

text \<open>When brace initialisation copies instead, every body that is a non-empty array of JSON-RPC
  objects (results or errors) is rejected with a JSON type error that is no \<open>JsonRpcException\<close>.\<close>

theorem response_batch_copies_rejected:
  assumes "json_brace_copies J" and "j_parse J body = Ok (j_array J docs)"
    and "docs \<noteq> []" and "j_type J (hd docs) = Object" and "j_size J (hd docs) \<noteq> 0"
  shows "\<exists>m. handleResponse J body = Throw (JsonTypeError m)"
  using json_brace_copies.handle_parsed_copies_array [OF assms(1,3) _ assms(5)] assms(2,4)
  by (auto simp: handleResponse_def)

lemma response_batch_copies_rejected_witness:
  "\<exists>m. handleResponse (std_json False (\<lambda>s. Some (JArr [JObj [(''id'', JInt 1), (''result'', JNull)]]))) ''x''
    = Throw (JsonTypeError m)"
  using response_batch_copies_rejected [OF std_copies.json_brace_copies_axioms
      [of "\<lambda>s. Some (JArr [JObj [(''id'', JInt 1), (''result'', JNull)]])"], where body = "''x''"]
  by simp

text \<open>A response object with an id but neither an error nor a result reads the absent result
  member through the const subscript, which the JSON library leaves undefined; the message written
  for this case is never thrown.\<close>

theorem response_without_result_undefined:
  assumes "json_api J"
    and "j_parse J body = Ok (j_object J [(''jsonrpc'', j_str J ''2.0''), (''id'', id_json J i)])"
  shows "handleResponse J body = Stuck MissingKey"
  using json_api.handleResponse_object [OF assms] json_api.validator_no_result [OF assms(1)]
    json_api.type_object [OF assms(1)]
  by simp

lemma response_without_result_undefined_witness:
  "handleResponse (std_json True (\<lambda>s. Some (JObj [(''jsonrpc'', JStr ''2.0''), (''id'', JInt 7)]))) ''x''
    = Stuck MissingKey"
  by (rule response_without_result_undefined [OF std_json_api, where i = "IdInt 7"]) simp

text \<open>An exception with a code in the JSON-RPC server range is classified as a server error by
  \<open>type()\<close>, while the text composed for the same exception calls it an invalid error.\<close>

theorem server_error_text:
  assumes "-32099 \<le> sint code" and "sint code \<le> -32000"
  shows "exn_type (jsonrpc_exn J code message) = SERVER_ERROR \<and>
    what (JsonRpcExn (jsonrpc_exn J code message)) = ''invalid_error: '' @ message"
proof -
  have "code \<noteq> error_code t" for t
    using assms by (cases t) auto
  then show ?thesis
    using assms by (simp add: exn_type_def jsonrpc_exn_def ErrorTypeString_def del: error_code.simps)
qed

lemma server_error_text_witness:
  "exn_type (jsonrpc_exn (std_json True (\<lambda>s. None)) (-32050) ''busy'') = SERVER_ERROR \<and>
    what (JsonRpcExn (jsonrpc_exn (std_json True (\<lambda>s. None)) (-32050) ''busy'')) = ''invalid_error: '' @ ''busy''"
  by (rule server_error_text) simp_all

end
