(* ===== verification/Route_Export.thy ===== *)
theory Route_Export
  imports Kea_Lib
begin

text \<open>
  \<^verbatim>\<open>RouteExport\<close> of \<^verbatim>\<open>include/route_export.hpp\<close> and \<^verbatim>\<open>src/route_export.cpp\<close>: what a
  hook asks the management client to install or remove.  The lemmas relate the variant, its
  DHCPv6 type name and its printed form.
\<close>

datatype route_info =
    IA_NAInfo (srcVlanAddr: ioaddr) (na_addr: ioaddr)
  | IA_PDInfo (dstIa_naAddr: ioaddr) (pd_prefix: ioaddr) (pd_length: uint8)
  | IA_NAInfoFuzzyRemove (fuzzy_na_addr: ioaddr)
  | IA_PDInfoFuzzyRemove (fuzzy_pd_prefix: ioaddr) (fuzzy_pd_length: uint8)
  | IA_NAFast (srcVlanIfName: string) (fast_na_addr: ioaddr)

record route_export =
  re_tid :: uint32
  re_iaid :: uint32
  re_duid :: "duid option"
  routeInfo :: route_info

text \<open>\<^verbatim>\<open>std::to_string\<close> of an unsigned value.\<close>

abbreviation to_string_w :: "'a::len word \<Rightarrow> string" where
  "to_string_w w \<equiv> to_string (unat w)"

fun info_toString :: "('j, 'e) env \<Rightarrow> route_info \<Rightarrow> string" where
  "info_toString V (IA_NAInfo vlan na) =
     ''srcVlanAddr='' @ toText V vlan @ '', ia_naAddr='' @ toText V na"
| "info_toString V (IA_PDInfo na pd len) =
     ''dstIa_naAddr='' @ toText V na @ '', ia_pdPrefix='' @ toText V pd @ '', '' @
     ''ia_pdLength='' @ to_string_w len"
| "info_toString V (IA_NAInfoFuzzyRemove na) = ''ia_naAddr='' @ toText V na"
| "info_toString V (IA_PDInfoFuzzyRemove pd len) =
     ''ia_pdPrefix='' @ toText V pd @ '', '' @ ''ia_pdLength='' @ to_string_w len"
| "info_toString V (IA_NAFast ifn na) = ''srcVlanIfName='' @ ifn @ '', ia_naAddr='' @ toText V na"

definition route_toString :: "('j, 'e) env \<Rightarrow> route_export \<Rightarrow> string" where
  "route_toString V r = ''transid='' @ to_string_w (re_tid r) @ '', '' @ ''iaid='' @ to_string_w (re_iaid r) @
     '', '' @ info_toString V (routeInfo r)"

fun info_IATypeString :: "route_info \<Rightarrow> string" where
  "info_IATypeString (IA_NAInfo _ _) = ''IA_NA''"
| "info_IATypeString (IA_NAInfoFuzzyRemove _) = ''IA_NA''"
| "info_IATypeString (IA_NAFast _ _) = ''IA_NA''"
| "info_IATypeString (IA_PDInfo _ _ _) = ''IA_PD''"
| "info_IATypeString (IA_PDInfoFuzzyRemove _ _) = ''IA_PD''"

definition toDHCPv6IATypeString :: "route_export \<Rightarrow> string" where
  "toDHCPv6IATypeString r = info_IATypeString (routeInfo r)"

text \<open>The address with its prefix length, as the management client writes it into commands.\<close>

definition subnet_text :: "('j, 'e) env \<Rightarrow> ioaddr \<Rightarrow> uint8 \<Rightarrow> string" where
  "subnet_text V a len = toText V a @ ''/'' @ to_string_w len"

definition host_text :: "('j, 'e) env \<Rightarrow> ioaddr \<Rightarrow> string" where
  "host_text V a = toText V a @ ''/128''"

lemma subnet_text_blank_free: "toText_ok V \<Longrightarrow> blank_free (subnet_text V a len)"
  by (simp add: subnet_text_def toText_blank_free)

lemma host_text_blank_free: "toText_ok V \<Longrightarrow> blank_free (host_text V a)"
  by (simp add: host_text_def toText_blank_free)

lemma host_text_inject: "toText_ok V \<Longrightarrow> host_text V a = host_text V b \<longleftrightarrow> a = b"
  by (auto simp: host_text_def toText_ok_def inj_def)

lemma subnet_text_inject:
  assumes "toText_ok V" and "subnet_text V a m = subnet_text V b n"
  shows "a = b \<and> m = n"
proof -
  have "CHR ''/'' \<notin> set (toText V x)" for x using assms(1) by (simp add: toText_ok_def)
  with assms(2) have "toText V a = toText V b \<and> to_string_w m = to_string_w n"
    by (simp add: subnet_text_def sep_inject)
  then show ?thesis
    using assms(1) by (auto simp: toText_ok_def inj_def to_string_inject intro: unsigned_word_eqI)
qed

end
