(* ===== verification/World.thy ===== *)
theory World
  imports Jsonrpc Route_Export
begin

text \<open>
  The effects of the program.  A component writes log messages and posts HTTP requests to
  the I/O service of a client; the response of a request is handled later, by the lambda
  that was passed along.  The lambdas of the sources are the constructors of \<open>handler\<close>,
  one per lambda, with the captured values as arguments.

  \<open>world\<close> is the part of the state all components share; the components extend it.  The
  lemmas say that no operation takes back a posted request or a written message.
\<close>

section \<open>Log messages\<close>

text \<open>
  The messages of \<^verbatim>\<open>src/messages.mes\<close> at the levels INFO and ERROR, and the DEBUG messages
  that are the only trace of a failed callout.  Other DEBUG output is not modelled.
\<close>

datatype msg_id =
    INIT_FAILED | LOAD | UNLOAD | START_SERVICE
  | LEASE6_SELECT_INSERT | LEASE6_SELECT_NO_IA_NA_FAILED
  | SUBNET6_SELECT_FAILED | LEASE6_SELECT_FAILED | LEASE6_RENEW_FAILED | LEASE6_REBIND_FAILED
  | LEASE6_DECLINE_FAILED | LEASE6_RELEASE_FAILED | LEASE6_EXPIRE_FAILED
  | UPDATE_INFO_ON_DEVICE | REMOVE_INFO_ON_DEVICE
  | UPDATE_INFO_COMMUNICATION_FAILED | JSON_RPC_VALIDATE_ERROR
  | ROUTE_APPLY_UNKNOWN_ERROR | RESPONSE_PARSE_ERROR | RESPONSE_VLAN_ADDR_MAPPING_ERROR
  | ROUTE_APPLY_SUCCESS | ROUTE_APPLY_FAILED | ROUTE_REMOVE_SUCCESS | ROUTE_REMOVE_FAILED
  | ROUTE_REMOVE_FIND_IA_NA_LEASE_FAILED | ROUTE_REINIT_NO_HWADDR_FAILED
  | ROUTE_REINIT_IA_NA_LEASE_FAILED | HEARTBEAT_FAILED | HEARTBEAT_RESTORED_CONNECTION

datatype log_event = Log (log_id: msg_id) (log_args: "string list")

section \<open>Requests\<close>

datatype lookup_handler =
    ApplyVlan string string string \<comment> \<open>\<^verbatim>\<open>iaNAAddrStr\<close>, \<^verbatim>\<open>linkAddrStr\<close>, \<^verbatim>\<open>dhcpv6TypeStr\<close>\<close>
  | RemoveVlan string string string
  | FuzzyVlan string string \<comment> \<open>\<^verbatim>\<open>iaNAAddrStr\<close>, \<^verbatim>\<open>dhcpv6TypeStr\<close>\<close>
  | FuzzyHop string string \<comment> \<open>\<^verbatim>\<open>srcIA_PDSubnetStr\<close>, \<^verbatim>\<open>dhcpv6TypeStr\<close>\<close>

datatype handler =
    RouteApply string string string \<comment> \<open>\<^verbatim>\<open>dhcpv6TypeStr\<close>, source, destination\<close>
  | RouteRemove string string string
  | AddressLookup string string lookup_handler \<comment> \<open>\<^verbatim>\<open>lookupAddrStr\<close>, \<^verbatim>\<open>lookupAddrType\<close>\<close>
  | NeighborMapping \<comment> \<open>the mapping requested by \<^verbatim>\<open>restoreLeasesFromLeaseDatabase\<close>\<close>
  | HeartbeatResponse

record 'e request =
  rq_url :: url
  rq_endpoint :: string
  rq_tls :: bool \<comment> \<open>whether the TLS context pointer is set\<close>
  rq_body :: 'e
  rq_handler :: handler
  rq_timeout :: int32
  rq_auth :: "auth option" \<comment> \<open>\<^verbatim>\<open>m_basicAuth\<close> of the client the request is posted to\<close>

record 'e world =
  posted :: "'e request list" \<comment> \<open>requests whose response was not handled yet\<close>
  logged :: "log_event list"

definition log_msg :: "msg_id \<Rightarrow> string list \<Rightarrow> ('j, ('e, 'z) world_scheme, unit) prog" where
  "log_msg i args w = (Ok (), w\<lparr>logged := logged w @ [Log i args]\<rparr>)"

definition post :: "'e request \<Rightarrow> ('j, ('e, 'z) world_scheme, unit) prog" where
  "post r w = (Ok (), w\<lparr>posted := posted w @ [r]\<rparr>)"

lemma log_msg_simps [simp, outcome_simps]:
  "log_msg i args w = (Ok (), w\<lparr>logged := logged w @ [Log i args]\<rparr>)"
  by (simp add: log_msg_def)

lemma post_simps [simp, outcome_simps]: "post r w = (Ok (), w\<lparr>posted := posted w @ [r]\<rparr>)"
  by (simp add: post_def)

section \<open>What an operation may do to the state\<close>

text \<open>
  \<open>follows R m\<close>: the states before and after \<open>m\<close> are related by \<open>R\<close>, however \<open>m\<close> ends.  For a
  reflexive and transitive relation this is closed under every construct of the programs, and a
  goal about an operation is solved by \<open>intro follows_intros\<close>.  The locale \<open>step_rel\<close> states the
  two laws; later locales extend it with what an operation of a component may rely on, so that
  the facts about a component are proved once for every relation.
\<close>

definition follows :: "('s \<Rightarrow> 's \<Rightarrow> bool) \<Rightarrow> ('j, 's, 'a) prog \<Rightarrow> bool" where
  "follows R m \<longleftrightarrow> (\<forall>s. R s (snd (m s)))"

named_theorems follows_intros \<open>the states before and after an operation are related\<close>

lemma followsD: "follows R m \<Longrightarrow> m s = (r, s') \<Longrightarrow> R s s'"
  unfolding follows_def by (metis snd_conv)

lemma follows_at: "(\<And>s. follows R (f s)) \<Longrightarrow> follows R (\<lambda>s. f s s)"
  by (simp add: follows_def)

lemma follows_if [follows_intros]:
  "(b \<Longrightarrow> follows R m) \<Longrightarrow> (\<not> b \<Longrightarrow> follows R n) \<Longrightarrow> follows R (if b then m else n)"
  by simp

lemma follows_option [follows_intros]:
  "follows R m \<Longrightarrow> (\<And>a. follows R (f a)) \<Longrightarrow> follows R (case x of None \<Rightarrow> m | Some a \<Rightarrow> f a)"
  by (cases x) simp_all

lemma follows_let [follows_intros]: "(\<And>x. follows R (f x)) \<Longrightarrow> follows R (Let a f)"
  by (simp add: Let_def)

lemma follows_prod [follows_intros]: "(\<And>a b. follows R (f a b)) \<Longrightarrow> follows R (case p of (a, b) \<Rightarrow> f a b)"
  by (cases p) simp

lemma follows_outcome [follows_intros]:
  "(\<And>a. follows R (f a)) \<Longrightarrow> (\<And>e. follows R (g e)) \<Longrightarrow> (\<And>u. follows R (h u)) \<Longrightarrow>
    follows R (case x of Ok a \<Rightarrow> f a | Throw e \<Rightarrow> g e | Stuck u \<Rightarrow> h u)"
  by (cases x) simp_all

lemma follows_lease_type [follows_intros]:
  "follows R a \<Longrightarrow> follows R b \<Longrightarrow> follows R c \<Longrightarrow> follows R d \<Longrightarrow>
    follows R (case t of TYPE_TA \<Rightarrow> a | TYPE_NA \<Rightarrow> b | TYPE_PD \<Rightarrow> c | TYPE_V4 \<Rightarrow> d)"
  by (cases t) simp_all

lemma follows_route_info [follows_intros]:
  assumes "\<And>a b. follows R (f a b)" "\<And>a b c. follows R (g a b c)" "\<And>a. follows R (h a)" "\<And>a b. follows R (k a b)"
    "\<And>a b. follows R (m a b)"
  shows "follows R (case i of IA_NAInfo a b \<Rightarrow> f a b | IA_PDInfo a b c \<Rightarrow> g a b c | IA_NAInfoFuzzyRemove a \<Rightarrow> h a
    | IA_PDInfoFuzzyRemove a b \<Rightarrow> k a b | IA_NAFast a b \<Rightarrow> m a b)"
  using assms by (cases i) simp_all

lemma follows_reply [follows_intros]:
  "(\<And>e. follows R (f e)) \<Longrightarrow> (\<And>st b. follows R (g st b)) \<Longrightarrow>
    follows R (case x of NoReply e \<Rightarrow> f e | Reply st b \<Rightarrow> g st b)"
  by (cases x) simp_all

locale step_rel =
  fixes R :: "'s \<Rightarrow> 's \<Rightarrow> bool"
  assumes R_refl: "R s s"
    and R_trans: "R s t \<Longrightarrow> R t u \<Longrightarrow> R s u"
begin

lemma follows_ret [follows_intros]: "follows R (ret a)"
  by (simp add: follows_def R_refl)

lemma follows_lift [follows_intros]: "follows R (lift r)"
  by (simp add: follows_def R_refl)

lemma follows_throw [follows_intros]: "follows R (throw e)"
  by (simp add: follows_def R_refl)

lemma follows_mbind [follows_intros]:
  assumes "follows R m" and "\<And>a. follows R (f a)"
  shows "follows R (mbind m f)"
  unfolding follows_def
proof
  fix s
  obtain r t where m: "m s = (r, t)" by fastforce
  with assms(1) have "R s t" by (rule followsD)
  moreover have "R t (snd (f a t))" for a using assms(2) by (simp add: follows_def)
  ultimately show "R s (snd (mbind m f s))"
    using m by (cases r) (auto simp: mbind_def intro: R_trans)
qed

lemma follows_mseq [follows_intros]: "follows R m \<Longrightarrow> follows R n \<Longrightarrow> follows R (mseq m n)"
  unfolding mseq_def by (rule follows_mbind)

lemma follows_catching [follows_intros]:
  assumes "follows R m" and "\<And>e. follows R (h e)"
  shows "follows R (catching m h)"
  unfolding follows_def
proof
  fix s
  obtain r t where m: "m s = (r, t)" by fastforce
  with assms(1) have "R s t" by (rule followsD)
  moreover have "R t (snd (h e t))" for e using assms(2) by (simp add: follows_def)
  ultimately show "R s (snd (catching m h s))"
    using m by (cases r) (auto simp: catching_def intro: R_trans)
qed

lemma follows_forM [follows_intros]: "(\<And>x. follows R (f x)) \<Longrightarrow> follows R (forM f xs)"
  by (induction xs) (auto intro: follows_intros)

end

text \<open>Relations under which messages may be written.\<close>

locale logging = step_rel R for R :: "('e, 'z) world_scheme \<Rightarrow> ('e, 'z) world_scheme \<Rightarrow> bool" +
  assumes R_logged: "R s (s\<lparr>logged := logged s @ [e]\<rparr>)"
begin

lemma follows_log [follows_intros]: "follows R (log_msg i args)"
  by (simp add: follows_def R_logged)

end

section \<open>Effects are never taken back\<close>

definition world_le :: "('e, 'z) world_scheme \<Rightarrow> ('e, 'z) world_scheme \<Rightarrow> bool" where
  "world_le w w' \<longleftrightarrow> prefix (posted w) (posted w') \<and> prefix (logged w) (logged w')"

abbreviation grows :: "('j, ('e, 'z) world_scheme, 'a) prog \<Rightarrow> bool" where
  "grows \<equiv> follows world_le"

interpretation grows: logging world_le
  by unfold_locales (auto simp: world_le_def intro: prefix_order.trans)

lemma grows_post: "grows (post r)"
  by (simp add: follows_def world_le_def)

end
