(* ===== verification/Http_Client.thy ===== *)
theory Http_Client
  imports World
begin

text \<open>
  \<^verbatim>\<open>NXOSHttpClient\<close> of \<^verbatim>\<open>include/nxos_http_client.hpp\<close> and \<^verbatim>\<open>src/nxos_http_client.cpp\<close>
  without its thread pool: posting a request, and the work a thread does for a posted request
  once the HTTP library has answered (\<open>reply\<close>).  Lemmas: the translation of errors in both
  directions, the credentials sent, and when the response handler is called and with what.
\<close>

section \<open>Errors and status codes\<close>

datatype response_error = SUCCESS | UnknownError | CONNECTION | BINDIPADDRESS | READ | WRITE
  | EXCEED_REDIRECT_COUNT | CANCELED | SSL_CONNECTION | SSL_LOADING_CERTS
  | SSL_SERVER_VERIFICATION | UNSUPPORTED_MULTIPART_BOUNDARY_CHARS | COMPRESSION
  | CONNECTION_TIMEOUT | PROXY_CONNECTION

fun response_error_code :: "response_error \<Rightarrow> nat" where
  "response_error_code SUCCESS = 0"
| "response_error_code UnknownError = 1"
| "response_error_code CONNECTION = 2"
| "response_error_code BINDIPADDRESS = 3"
| "response_error_code READ = 4"
| "response_error_code WRITE = 5"
| "response_error_code EXCEED_REDIRECT_COUNT = 6"
| "response_error_code CANCELED = 7"
| "response_error_code SSL_CONNECTION = 8"
| "response_error_code SSL_LOADING_CERTS = 9"
| "response_error_code SSL_SERVER_VERIFICATION = 10"
| "response_error_code UNSUPPORTED_MULTIPART_BOUNDARY_CHARS = 11"
| "response_error_code COMPRESSION = 12"
| "response_error_code CONNECTION_TIMEOUT = 13"
| "response_error_code PROXY_CONNECTION = 14"

text \<open>The errors are ordered by their numbers; success comes first.\<close>

instantiation response_error :: linorder
begin

definition less_eq_response_error :: "response_error \<Rightarrow> response_error \<Rightarrow> bool" where
  "less_eq_response_error a b \<longleftrightarrow> response_error_code a \<le> response_error_code b"

definition less_response_error :: "response_error \<Rightarrow> response_error \<Rightarrow> bool" where
  "less_response_error a b \<longleftrightarrow> response_error_code a < response_error_code b"

lemma response_error_code_inject: "response_error_code a = response_error_code b \<longleftrightarrow> a = b"
  by (cases a; cases b) simp_all

instance
  by standard (auto simp: less_eq_response_error_def less_response_error_def
      simp flip: response_error_code_inject)

end

lemma success_least: "SUCCESS < e \<longleftrightarrow> e \<noteq> SUCCESS"
  by (cases e) (simp_all add: less_response_error_def)

fun HttplibErrorToNXOSHttpClientMapper :: "httplib_error \<Rightarrow> response_error" where
  "HttplibErrorToNXOSHttpClientMapper HL_Success = SUCCESS"
| "HttplibErrorToNXOSHttpClientMapper HL_Connection = CONNECTION"
| "HttplibErrorToNXOSHttpClientMapper HL_BindIPAddress = BINDIPADDRESS"
| "HttplibErrorToNXOSHttpClientMapper HL_Read = READ"
| "HttplibErrorToNXOSHttpClientMapper HL_Write = WRITE"
| "HttplibErrorToNXOSHttpClientMapper HL_ExceedRedirectCount = EXCEED_REDIRECT_COUNT"
| "HttplibErrorToNXOSHttpClientMapper HL_Canceled = CANCELED"
| "HttplibErrorToNXOSHttpClientMapper HL_SSLConnection = SSL_CONNECTION"
| "HttplibErrorToNXOSHttpClientMapper HL_SSLLoadingCerts = SSL_LOADING_CERTS"
| "HttplibErrorToNXOSHttpClientMapper HL_SSLServerVerification = SSL_SERVER_VERIFICATION"
| "HttplibErrorToNXOSHttpClientMapper HL_UnsupportedMultipartBoundaryChars =
     UNSUPPORTED_MULTIPART_BOUNDARY_CHARS"
| "HttplibErrorToNXOSHttpClientMapper HL_Compression = COMPRESSION"
| "HttplibErrorToNXOSHttpClientMapper HL_ConnectionTimeout = CONNECTION_TIMEOUT"
| "HttplibErrorToNXOSHttpClientMapper HL_ProxyConnection = PROXY_CONNECTION"
| "HttplibErrorToNXOSHttpClientMapper _ = UnknownError"

definition HttplibStatusCodeToNXOSHttpClientMapper :: "int32 \<Rightarrow> int32" where
  "HttplibStatusCodeToNXOSHttpClientMapper status = status"

definition ResponseErrorToString :: "('j, 'e) env \<Rightarrow> response_error \<Rightarrow> string" where
  "ResponseErrorToString V e = httplib_to_string V (httplib_enum V (response_error_code e))"

section \<open>The client\<close>

text \<open>What is left of the thread pool between two calls; \<open>Thread_Pool\<close> has its steps.\<close>

record http_client =
  m_basicAuth :: "auth option"
  pool_threads :: nat \<comment> \<open>\<^verbatim>\<open>m_threadPool.size()\<close>\<close>
  pool_exited :: nat \<comment> \<open>\<^verbatim>\<open>m_exitedThreads\<close>\<close>
  pool_stopped :: bool \<comment> \<open>\<^verbatim>\<open>m_ioService->stopped()\<close>\<close>

definition new_http_client :: http_client where
  "new_http_client = \<lparr>m_basicAuth = None, pool_threads = 0, pool_exited = 0, pool_stopped = False\<rparr>"

definition addBasicAuth :: "auth option \<Rightarrow> http_client \<Rightarrow> http_client" where
  "addBasicAuth a c = (case a of Some s \<Rightarrow> c\<lparr>m_basicAuth := Some s\<rparr> | None \<Rightarrow> c)"

text \<open>
  \<^verbatim>\<open>setThreadsState\<close> from its call to its return.  A start fills the pool and resets the counter of
  the threads that left it.  In a stop this counter grows by one per thread, from its old value, while
  the caller waits for it to be the number of threads.  If it did not start from zero, it is never
  that number, or it is before all threads have left, and the caller joins the others while it holds
  the mutex they need to leave: the call returns iff the counter starts from zero.
\<close>

definition default_pool_size :: nat where
  "default_pool_size = 4"

definition start_threads :: "http_client \<Rightarrow> http_client" where
  "start_threads c =
     c\<lparr>pool_stopped := False, pool_threads := max (pool_threads c) default_pool_size, pool_exited := 0\<rparr>"

definition stop_threads :: "http_client \<Rightarrow> http_client option" where
  "stop_threads c =
     (if pool_exited c = 0
      then Some (c\<lparr>pool_stopped := True, pool_threads := 0, pool_exited := pool_exited c + pool_threads c\<rparr>)
      else None)"

text \<open>A client after \<^verbatim>\<open>addBasicAuth\<close> and \<^verbatim>\<open>startClient\<close>.\<close>

definition started_client :: "auth \<Rightarrow> http_client" where
  "started_client a =
     \<lparr>m_basicAuth = Some a, pool_threads = default_pool_size, pool_exited = 0, pool_stopped = False\<rparr>"

lemma start_new_client [simp]: "start_threads (addBasicAuth (Some a) new_http_client) = started_client a"
  by (simp add: start_threads_def addBasicAuth_def new_http_client_def started_client_def)

lemma started_client_sel [simp]:
  "m_basicAuth (started_client a) = Some a" "pool_stopped (started_client a) = False"
  by (simp_all add: started_client_def)

text \<open>A started client can be stopped once.\<close>

definition stopped_client :: "auth \<Rightarrow> http_client" where
  "stopped_client a =
     \<lparr>m_basicAuth = Some a, pool_threads = 0, pool_exited = default_pool_size, pool_stopped = True\<rparr>"

lemma stop_client [simp]:
  "stop_threads (started_client a) = Some (stopped_client a)"
  "stop_threads (stopped_client a) = None" "pool_stopped (stopped_client a)"
  by (simp_all add: started_client_def stopped_client_def stop_threads_def default_pool_size_def)

text \<open>
  \<^verbatim>\<open>m_httpClient->sendRequest(...)\<close>: the pointer is null before the client is started.
\<close>

definition sendRequest ::
    "http_client option \<Rightarrow> url \<Rightarrow> string \<Rightarrow> bool \<Rightarrow> 'e \<Rightarrow> handler \<Rightarrow> int32
      \<Rightarrow> ('j, ('e, 'z) world_scheme, unit) prog" where
  "sendRequest client u uri tlsContext requestBody responseHandler timeout =
     (case client of
        None \<Rightarrow> lift (Stuck NullDeref)
      | Some c \<Rightarrow> post \<lparr>rq_url = u, rq_endpoint = uri, rq_tls = tlsContext, rq_body = requestBody,
                     rq_handler = responseHandler, rq_timeout = timeout, rq_auth = m_basicAuth c\<rparr>)"

text \<open>The default argument \<^verbatim>\<open>int timeout = 10000\<close>.\<close>

definition default_timeout :: int32 where
  "default_timeout = 10000"

section \<open>What goes over the wire\<close>

text \<open>The split of the secret at its first colon.\<close>

definition split_secret :: "string \<Rightarrow> (string \<times> string) option" where
  "split_secret secret =
     (if CHR '':'' \<in> set secret
      then Some (takeWhile (\<lambda>c. c \<noteq> CHR '':'') secret, tl (dropWhile (\<lambda>c. c \<noteq> CHR '':'') secret))
      else None)"

record http_call =
  call_host :: string
  call_port :: nat
  call_connection_timeout :: int32
  call_basic_auth :: "(string \<times> string) option"
  call_endpoint :: string
  call_body :: string
  call_content_type :: string

definition http_call_of :: "('j, 'e) env \<Rightarrow> 'e request \<Rightarrow> http_call" where
  "http_call_of V rq = \<lparr>
     call_host = url_hostname (rq_url rq), call_port = url_port (rq_url rq),
     call_connection_timeout = rq_timeout rq,
     call_basic_auth = Option.bind (rq_auth rq) (\<lambda>a. split_secret (auth_secret a)),
     call_endpoint = rq_endpoint rq, call_body = e_text (el V) (rq_body rq),
     call_content_type = ''application/json-rpc''\<rparr>"

section \<open>Handling the reply\<close>

definition validateResponse :: "'j json_lib \<Rightarrow> string \<Rightarrow> ('j, 'j jsonrpc_response list) outcome" where
  "validateResponse J response =
     (if response = [] then Throw (BadValue ''no body found in the response'')
      else handleResponse J response)"

text \<open>The arguments of a response handler; the vector pointer is never null.\<close>

record 'j response_args =
  ra_response :: "'j jsonrpc_response list option"
  ra_error :: response_error
  ra_status :: int32
  ra_exn :: "'j jsonrpc_exception option"

text \<open>\<^verbatim>\<open>catch (const JsonRpcException& ex)\<close>: the exception is logged and handed on.\<close>

definition validated ::
    "('j, 'e) env \<Rightarrow> string \<Rightarrow> string
      \<Rightarrow> ('j, ('e, 'z) world_scheme, 'j jsonrpc_response list \<times> 'j jsonrpc_exception option) prog" where
  "validated V connectionName body =
     (case validateResponse (nl V) body of
        Ok rs \<Rightarrow> ret (rs, None)
      | Throw (JsonRpcExn x) \<Rightarrow>
          mseq (log_msg JSON_RPC_VALIDATE_ERROR [connectionName, m_err x]) (ret ([], Some x))
      | Throw e \<Rightarrow> throw e
      | Stuck u \<Rightarrow> lift (Stuck u))"

definition run_request ::
    "('j, 'e) env \<Rightarrow> (handler \<Rightarrow> 'j response_args \<Rightarrow> ('j, ('e, 'z) world_scheme, unit) prog)
      \<Rightarrow> 'e request \<Rightarrow> reply \<Rightarrow> ('j, ('e, 'z) world_scheme, unit) prog" where
  "run_request V handle rq rep =
     (if url_scheme (rq_url rq) = HTTPS then
        (if \<not> rq_tls rq then throw (NotImplemented ''https tls context not implemented for requests'')
         else ret ())
      else
        (case rep of
           NoReply e \<Rightarrow>
             mseq (log_msg UPDATE_INFO_COMMUNICATION_FAILED [url_text (rq_url rq), httplib_to_string V e])
               (handle (rq_handler rq) \<lparr>ra_response = Some [], ra_error = HttplibErrorToNXOSHttpClientMapper e,
                  ra_status = 200, ra_exn = None\<rparr>)
         | Reply status body \<Rightarrow>
             mbind (validated V (url_text (rq_url rq)) body) (\<lambda>(rs, x).
               handle (rq_handler rq) \<lparr>ra_response = Some rs, ra_error = SUCCESS,
                  ra_status = HttplibStatusCodeToNXOSHttpClientMapper status, ra_exn = x\<rparr>)))"

section \<open>Lemmas\<close>

lemma sendRequest_started [simp]:
  "sendRequest (Some c) u uri tls b h t w =
    (Ok (), w\<lparr>posted := posted w @ [\<lparr>rq_url = u, rq_endpoint = uri, rq_tls = tls, rq_body = b,
       rq_handler = h, rq_timeout = t, rq_auth = m_basicAuth c\<rparr>]\<rparr>)"
  by (simp add: sendRequest_def)

lemma sendRequest_null [simp]: "sendRequest None u uri tls b h t w = (Stuck NullDeref, w)"
  by (simp add: sendRequest_def)

context logging
begin

lemma follows_validated [follows_intros]: "follows R (validated V n body)"
  by (auto simp: validated_def intro!: follows_intros split: outcome.split exn.split)

lemma follows_run_request:
  "(\<And>a. follows R (handle (rq_handler rq) a)) \<Longrightarrow> follows R (run_request V handle rq rep)"
  unfolding run_request_def by (intro follows_intros)

end

lemma grows_sendRequest: "grows (sendRequest c u uri tls b h t)"
  unfolding sendRequest_def by (intro follows_intros grows_post)

lemma takeWhile_sep: "c \<notin> set u \<Longrightarrow> takeWhile (\<lambda>x. x \<noteq> c) (u @ c # p) = u"
  by (induction u) auto

lemma dropWhile_sep: "c \<notin> set u \<Longrightarrow> dropWhile (\<lambda>x. x \<noteq> c) (u @ c # p) = c # p"
  by (induction u) auto

lemma split_secret_append: "CHR '':'' \<notin> set u \<Longrightarrow> split_secret (u @ CHR '':'' # p) = Some (u, p)"
  by (simp add: split_secret_def takeWhile_sep dropWhile_sep)

text \<open>The documented order of the enumerators of \<^verbatim>\<open>httplib::Error\<close>.\<close>

definition httplib_order :: "httplib_error list" where
  "httplib_order = [HL_Success, HL_Unknown, HL_Connection, HL_BindIPAddress, HL_Read, HL_Write,
     HL_ExceedRedirectCount, HL_Canceled, HL_SSLConnection, HL_SSLLoadingCerts, HL_SSLServerVerification,
     HL_UnsupportedMultipartBoundaryChars, HL_Compression, HL_ConnectionTimeout, HL_ProxyConnection]"

definition sample_request :: "'e \<Rightarrow> handler \<Rightarrow> 'e request" where
  "sample_request b h = \<lparr>rq_url = std_url ''http://switch'', rq_endpoint = ''/ins'', rq_tls = False,
     rq_body = b, rq_handler = h, rq_timeout = default_timeout, rq_auth = Some \<lparr>auth_secret = ''admin:a:b''\<rparr>\<rparr>"

section \<open>Properties\<close>

text \<open>Every error the HTTP library reports under a name the code knows survives the translation to
  the client's own error and the numeric cast back, provided the library numbers its errors in the
  documented order; any other error becomes the unknown one.\<close>

theorem error_names_roundtrip:
  assumes "\<And>i. i < length httplib_order \<Longrightarrow> httplib_enum V i = httplib_order ! i"
  shows "ResponseErrorToString V (HttplibErrorToNXOSHttpClientMapper e) =
    httplib_to_string V (case e of HL_Other n \<Rightarrow> HL_Unknown | _ \<Rightarrow> e)"
  by (cases e) (simp_all add: ResponseErrorToString_def assms httplib_order_def)

lemma error_names_roundtrip_witness:
  "ResponseErrorToString (std_env (std_json True (\<lambda>s. None))) (HttplibErrorToNXOSHttpClientMapper HL_Read) =
    httplib_to_string (std_env (std_json True (\<lambda>s. None))) HL_Read"
  using error_names_roundtrip [of "std_env (std_json True (\<lambda>s. None))" HL_Read]
  by (simp add: httplib_order_def std_env_def)

text \<open>C29: with an authentication object whose secret is the user name, a colon and the password, and a
  user name without a colon, a request carries exactly that name and password, whatever colons the
  password holds.\<close>

theorem credentials_roundtrip:
  assumes "rq_auth rq = Some a" and "auth_secret a = login @ CHR '':'' # password" and "CHR '':'' \<notin> set login"
  shows "call_basic_auth (http_call_of V rq) = Some (login, password)"
  using assms by (simp add: http_call_of_def split_secret_append)

lemma credentials_roundtrip_witness:
  "call_basic_auth (http_call_of (std_env (std_json True (\<lambda>s. None)))
     (sample_request (KText ''x'') HeartbeatResponse)) = Some (''admin'', ''a:b'')"
  by (rule credentials_roundtrip [where a = "\<lparr>auth_secret = ''admin:a:b''\<rparr>"]) (simp_all add: sample_request_def)

text \<open>C21: over HTTP, a reply whose body is a JSON-RPC document is always passed to the response handler,
  exactly once and with the status the switch sent: with the decoded responses and no exception when
  the document is valid, and, after an error message, with no response and the exception when it is
  not.\<close>

theorem reply_reaches_handler:
  assumes "url_scheme (rq_url rq) = HTTP" and "body \<noteq> []"
    and "handleResponse (nl V) body = Ok rs \<or> handleResponse (nl V) body = Throw (JsonRpcExn x)"
  shows "run_request V handle rq (Reply status body) w =
    (if handleResponse (nl V) body = Ok rs
     then handle (rq_handler rq) \<lparr>ra_response = Some rs, ra_error = SUCCESS, ra_status = status, ra_exn = None\<rparr> w
     else handle (rq_handler rq) \<lparr>ra_response = Some [], ra_error = SUCCESS, ra_status = status, ra_exn = Some x\<rparr>
       (w\<lparr>logged := logged w @ [Log JSON_RPC_VALIDATE_ERROR [url_text (rq_url rq), m_err x]]\<rparr>))"
  using assms
  by (auto simp: run_request_def validated_def validateResponse_def mbind_def mseq_def
      HttplibStatusCodeToNXOSHttpClientMapper_def)

lemma reply_reaches_handler_witness:
  "run_request (std_env (std_json True (\<lambda>s. Some (JArr [])))) (\<lambda>h a. ret ()) (sample_request (KText ''x'') HeartbeatResponse)
      (Reply 200 ''[]'') \<lparr>posted = [], logged = []\<rparr> = (Ok (), \<lparr>posted = [], logged = []\<rparr>)"
  using reply_reaches_handler [of "sample_request (KText ''x'') HeartbeatResponse" "''[]''"
      "std_env (std_json True (\<lambda>s. Some (JArr [])))" "[]" undefined "\<lambda>h a. ret ()" 200 "\<lparr>posted = [], logged = []\<rparr>"]
  by (simp add: sample_request_def std_url_def handleResponse_def handle_parsed_def jval_ops)

text \<open>C38: a reply with an empty body (or one whose decoding throws anything but a JSON-RPC exception) is
  never passed to the response handler: the exception leaves the posted work, nothing is logged and
  nothing else happens.\<close>

theorem empty_body_never_handled:
  assumes "url_scheme (rq_url rq) = HTTP"
    and "body = [] \<or> handleResponse (nl V) body = Throw (JsonTypeError m)"
  shows "\<exists>e. run_request V handle rq (Reply status body) w = (Throw e, w)"
  using assms
  by (auto simp: run_request_def validated_def validateResponse_def mbind_def)

lemma empty_body_never_handled_witness:
  "\<exists>e. run_request (std_env (std_json True (\<lambda>s. None))) (\<lambda>h a. log_msg LOAD []) (sample_request (KText ''x'') HeartbeatResponse)
      (Reply 200 []) \<lparr>posted = [], logged = []\<rparr> = (Throw e, \<lparr>posted = [], logged = []\<rparr>)"
  by (rule empty_body_never_handled) (simp_all add: sample_request_def std_url_def)

text \<open>No request to an HTTPS URL is ever sent: without a TLS context, which is what every caller
  passes, the work throws, and with one it does nothing; the response handler is called in neither
  case.\<close>

theorem https_never_handled:
  assumes "url_scheme (rq_url rq) = HTTPS"
  shows "run_request V handle rq rep w = ((if rq_tls rq then Ok ()
    else Throw (NotImplemented ''https tls context not implemented for requests'')), w)"
  using assms by (simp add: run_request_def)

lemma https_never_handled_witness:
  "run_request (std_env (std_json True (\<lambda>s. None))) (\<lambda>h a. log_msg LOAD [])
     ((sample_request (KText ''x'') HeartbeatResponse)\<lparr>rq_url := std_url ''https://switch''\<rparr>) (Reply 200 ''{}'')
     \<lparr>posted = [], logged = []\<rparr> =
   (Throw (NotImplemented ''https tls context not implemented for requests''), \<lparr>posted = [], logged = []\<rparr>)"
  using https_never_handled [of "(sample_request (KText ''x'') HeartbeatResponse)\<lparr>rq_url := std_url ''https://switch''\<rparr>"
      "std_env (std_json True (\<lambda>s. None))" "\<lambda>h a. log_msg LOAD []" "Reply 200 ''{}''" "\<lparr>posted = [], logged = []\<rparr>"]
  by (simp add: sample_request_def std_url_def)

end
