(* ===== verification/Nxos_Structs.thy ===== *)
theory Nxos_Structs
  imports Json_Lib
begin

text \<open>
  The structures of \<^verbatim>\<open>include/nxos/nxos_structs.hpp\<close> with their \<^verbatim>\<open>from_json\<close> and
  \<^verbatim>\<open>to_json\<close> functions.  A \<^verbatim>\<open>from_json\<close> fills a default constructed structure and
  throws on the way; the model returns the structure or the exception.  A table of the
  switch's output is one object or an array of objects, and the code reads most of them
  through \<^verbatim>\<open>auto t{inner.at(key)}\<close>, so \<open>j_brace\<close> appears where the code has it.

  Lemmas: which structures survive \<^verbatim>\<open>to_json\<close> followed by \<^verbatim>\<open>from_json\<close>, which do
  not, and what the parsers make of the shapes the switch sends.
\<close>

section \<open>Optional strings\<close>

text \<open>\<^verbatim>\<open>adl_serializer<optional<T>>\<close>, with the two branches as they are written.\<close>

definition optional_to_json ::
    "'j json_lib \<Rightarrow> ('a \<Rightarrow> ('j, 'j) outcome) \<Rightarrow> 'a option \<Rightarrow> ('j, 'j) outcome" where
  "optional_to_json J f opt = (case opt of Some x \<Rightarrow> Ok (j_null J) | None \<Rightarrow> Stuck OptionalDeref)"

definition optional_from_json ::
    "'j json_lib \<Rightarrow> ('j \<Rightarrow> ('j, 'a) outcome) \<Rightarrow> 'j \<Rightarrow> ('j, 'a option) outcome" where
  "optional_from_json J f j = (if j_type J j = Null then Ok None else rmap Some (f j))"

abbreviation optional_string_to_json :: "'j json_lib \<Rightarrow> string option \<Rightarrow> ('j, 'j) outcome" where
  "optional_string_to_json J \<equiv> optional_to_json J (\<lambda>s. Ok (j_str J s))"

section \<open>One object or an array of objects\<close>

text \<open>
  The reading of a table value: an object is the single row, an array the rows, anything
  else leaves the member as it was (\<open>None\<close>).
\<close>

definition one_or_many ::
    "'j json_lib \<Rightarrow> ('j \<Rightarrow> ('j, 'a) outcome) \<Rightarrow> 'j \<Rightarrow> ('j, 'a list option) outcome" where
  "one_or_many J f t =
     (if j_type J t = Object then rmap (\<lambda>r. Some [r]) (f t)
      else if j_type J t = Array then rmap Some (get_vector J f t)
      else Ok None)"

text \<open>
  \<^verbatim>\<open>switch (size)\<close> of the writers: an empty table writes nothing, a table of one row
  the row, a longer one the array, under the keys given.
\<close>

definition put_table ::
    "'j json_lib \<Rightarrow> ('a \<Rightarrow> ('j, 'j) outcome) \<Rightarrow> string \<Rightarrow> string \<Rightarrow> 'j \<Rightarrow> 'a list \<Rightarrow> ('j, 'j) outcome" where
  "put_table J f key1 keyN inner rows = (case rows of
       [] \<Rightarrow> Ok inner
     | [row] \<Rightarrow> rbind (f row) (j_put J inner key1)
     | _ \<Rightarrow> rbind (mapR f rows) (\<lambda>js. j_put J inner keyN (j_array J js)))"

section \<open>Route lookup\<close>

subsection \<open>RowPath\<close>

record row_path =
  ipnexthop :: "string option list"
  ifname :: "string option list"

definition path_entry :: "'j json_lib \<Rightarrow> string option \<Rightarrow> string option \<Rightarrow> ('j, 'j) outcome" where
  "path_entry J ifn nexthop =
     rbind (case ifn of Some s \<Rightarrow> rmap (\<lambda>v. [(''ifname'', v)]) (optional_string_to_json J (Some s))
                      | None \<Rightarrow> Ok []) (\<lambda>a.
     rbind (case nexthop of Some s \<Rightarrow> rmap (\<lambda>v. [(''ipnexthop'', v)]) (optional_string_to_json J (Some s))
                          | None \<Rightarrow> Ok []) (\<lambda>b.
     Ok (j_object J (a @ b))))"

definition RowPath_to_json :: "'j json_lib \<Rightarrow> row_path \<Rightarrow> ('j, 'j) outcome" where
  "RowPath_to_json J row =
     rbind
       (if length (ifname row) \<noteq> length (ipnexthop row) \<or> length (ifname row) = 0 then Ok (j_null J)
        else if length (ifname row) = 1 then
          rbind (optional_string_to_json J (ipnexthop row ! 0)) (\<lambda>a.
          rbind (optional_string_to_json J (ifname row ! 0)) (\<lambda>b.
          Ok (j_object J [(''ipnexthop'', a), (''ifname'', b)])))
        else rmap (\<lambda>entries. j_array J [j_array J entries])
               (mapR (\<lambda>i. path_entry J (ifname row ! i) (ipnexthop row ! i)) [0..<length (ipnexthop row)]))
       (\<lambda>inner. Ok (j_object J [(''ROW_path'', inner)]))"

text \<open>
  One iteration of the loop over an array of paths.  The local \<^verbatim>\<open>tmp\<close> is moved into
  \<^verbatim>\<open>row.ifname\<close>; a moved-from optional stays engaged, so without an \<^verbatim>\<open>ipnexthop\<close>
  member the second push moves what the first left in it.
\<close>

definition path_step :: "'j json_lib \<Rightarrow> 'j \<Rightarrow> ('j, string option \<times> string option) outcome" where
  "path_step J path =
     rbind (if j_contains J path ''ifname'' then rmap Some (at_string J path ''ifname'') else Ok None) (\<lambda>tmp.
     let pushed = tmp; tmp = map_option (moved_string J) tmp in
     rbind (if j_contains J path ''ipnexthop'' then rmap Some (at_string J path ''ipnexthop'') else Ok tmp) (\<lambda>tmp.
     Ok (pushed, tmp)))"

definition optional_member :: "'j json_lib \<Rightarrow> 'j \<Rightarrow> string \<Rightarrow> ('j, string option) outcome" where
  "optional_member J inner key =
     (if j_contains J inner key
      then rbind (j_at J inner key) (optional_from_json J (j_get_string J)) else Ok None)"

definition RowPath_from_json :: "'j json_lib \<Rightarrow> 'j \<Rightarrow> ('j, row_path) outcome" where
  "RowPath_from_json J j =
     rbind (j_at J j ''ROW_path'') (\<lambda>inner.
     if j_type J inner = Array then
       rmap (\<lambda>ps. \<lparr>ipnexthop = map snd ps, ifname = map fst ps\<rparr>) (mapR (path_step J) (j_elems J inner))
     else if j_type J inner = Object then
       rbind (optional_member J inner ''ipnexthop'') (\<lambda>a.
       rbind (optional_member J inner ''ifname'') (\<lambda>b.
       Ok \<lparr>ipnexthop = [a], ifname = [b]\<rparr>))
     else Ok \<lparr>ipnexthop = [], ifname = []\<rparr>)"

subsection \<open>RowPrefix\<close>

record row_prefix =
  ipprefix :: string
  attached :: bool
  table_path :: "row_path list"

definition RowPrefix_to_json :: "'j json_lib \<Rightarrow> row_prefix \<Rightarrow> ('j, 'j) outcome" where
  "RowPrefix_to_json J row =
     (let inner = j_object J [(''ipprefix'', j_str J (ipprefix row)),
                              (''attached'', j_str J (if attached row then ''true'' else ''false''))] in
     rbind (if length (table_path row) = 1 then RowPath_to_json J (table_path row ! 0)
            else rmap (j_array J) (mapR (RowPath_to_json J) (table_path row))) (\<lambda>t.
     rbind (j_put J inner ''TABLE_path'' t) (\<lambda>inner.
     Ok (j_object J [(''ROW_prefix'', inner)]))))"

definition RowPrefix_from_json :: "'j json_lib \<Rightarrow> 'j \<Rightarrow> ('j, row_prefix) outcome" where
  "RowPrefix_from_json J j =
     rbind (j_at J j ''ROW_prefix'') (\<lambda>inner.
     rbind (at_string J inner ''ipprefix'') (\<lambda>p.
     rbind (at_string J inner ''attached'') (\<lambda>tmp.
     rbind (j_at J inner ''TABLE_path'') (\<lambda>t.
     rbind (if j_type J t = Object then rmap (\<lambda>r. [r]) (RowPath_from_json J t)
            else get_vector J (RowPath_from_json J) t) (\<lambda>paths.
     Ok \<lparr>ipprefix = p, attached = \<not> (tmp = ''false'' \<or> tmp = ''FALSE''), table_path = paths\<rparr>)))))"

subsection \<open>RowAddr\<close>

record row_addr =
  addrf :: string
  table_prefix :: "row_prefix list option"

definition RowAddr_to_json :: "'j json_lib \<Rightarrow> row_addr \<Rightarrow> ('j, 'j) outcome" where
  "RowAddr_to_json J row =
     (let inner = j_object J [(''addrf'', j_str J (addrf row))] in
     rbind (case table_prefix row of
         None \<Rightarrow> Ok inner
       | Some rows \<Rightarrow>
           (if length rows = 0 then Ok inner
            else if length rows = 1 then rbind (RowPrefix_to_json J (rows ! 0)) (j_put J inner ''TABLE_prefix'')
            else rbind (optional_to_json J (\<lambda>rs. rmap (j_array J) (mapR (RowPrefix_to_json J) rs)) (table_prefix row))
                   (j_put J inner ''TABLE_prefix''))) (\<lambda>inner.
     Ok (j_object J [(''ROW_addrf'', inner)])))"

definition RowAddr_from_json :: "'j json_lib \<Rightarrow> 'j \<Rightarrow> ('j, row_addr) outcome" where
  "RowAddr_from_json J j =
     rbind (j_at J j ''ROW_addrf'') (\<lambda>inner.
     rbind (at_string J inner ''addrf'') (\<lambda>a.
     rbind (if j_contains J inner ''TABLE_prefix''
            then rbind (j_at J inner ''TABLE_prefix'') (\<lambda>t. one_or_many J (RowPrefix_from_json J) (j_brace J t))
            else Ok None) (\<lambda>rows.
     Ok \<lparr>addrf = a, table_prefix = rows\<rparr>)))"

subsection \<open>RowVrf\<close>

record row_vrf =
  vrf_name_out :: string
  table_addrf :: "row_addr list"

definition RowVrf_to_json :: "'j json_lib \<Rightarrow> row_vrf \<Rightarrow> ('j, 'j) outcome" where
  "RowVrf_to_json J row =
     rbind (put_table J (RowAddr_to_json J) ''TABLE_addrf'' ''TABLE_addf''
              (j_object J [(''vrf-name-out'', j_str J (vrf_name_out row))]) (table_addrf row)) (\<lambda>inner.
     Ok (j_object J [(''ROW_vrf'', inner)]))"

text \<open>\<^verbatim>\<open>inner.contains(key)\<close>, \<^verbatim>\<open>auto t{inner.at(key)}\<close> and the case split that follows.\<close>

definition table_member ::
    "'j json_lib \<Rightarrow> ('j \<Rightarrow> ('j, 'a) outcome) \<Rightarrow> 'j \<Rightarrow> string \<Rightarrow> ('j, 'a list) outcome" where
  "table_member J f inner key =
     (if j_contains J inner key
      then rbind (j_at J inner key) (\<lambda>t. rmap (case_option [] (\<lambda>rs. rs)) (one_or_many J f (j_brace J t)))
      else Ok [])"

definition RowVrf_from_json :: "'j json_lib \<Rightarrow> 'j \<Rightarrow> ('j, row_vrf) outcome" where
  "RowVrf_from_json J j =
     rbind (j_at J j ''ROW_vrf'') (\<lambda>inner.
     rbind (at_string J inner ''vrf-name-out'') (\<lambda>v.
     rbind (table_member J (RowAddr_from_json J) inner ''TABLE_addrf'') (\<lambda>rows.
     Ok \<lparr>vrf_name_out = v, table_addrf = rows\<rparr>)))"

subsection \<open>RouteLookupResponse\<close>

record route_lookup =
  table_vrf :: "row_vrf list"

definition RouteLookupResponse_to_json :: "'j json_lib \<Rightarrow> route_lookup \<Rightarrow> ('j, 'j) outcome" where
  "RouteLookupResponse_to_json J row =
     put_table J (RowVrf_to_json J) ''TABLE_vrf'' ''TABLE_vrf'' (j_null J) (table_vrf row)"

definition RouteLookupResponse_from_json :: "'j json_lib \<Rightarrow> 'j \<Rightarrow> ('j, route_lookup) outcome" where
  "RouteLookupResponse_from_json J j =
     rmap (\<lambda>rows. \<lparr>table_vrf = rows\<rparr>) (table_member J (RowVrf_from_json J) j ''TABLE_vrf'')"

section \<open>Interfaces\<close>

record row_interface =
  intf_name :: string
  proto_state :: string
  link_state :: string
  admin_state :: string
  if_prefix :: string
  linklocal_addr :: string

definition RowInterface_to_json :: "'j json_lib \<Rightarrow> row_interface \<Rightarrow> ('j, 'j) outcome" where
  "RowInterface_to_json J row = Ok (j_object J
     [(''intf-name'', j_str J (intf_name row)), (''proto-state'', j_str J (proto_state row)),
      (''link-state'', j_str J (link_state row)), (''admin-state'', j_str J (admin_state row)),
      (''prefix'', j_str J (if_prefix row)), (''linklocal_addr'', j_str J (linklocal_addr row))])"

definition RowInterface_from_json :: "'j json_lib \<Rightarrow> 'j \<Rightarrow> ('j, row_interface) outcome" where
  "RowInterface_from_json J j =
     rbind (at_string J j ''intf-name'') (\<lambda>a.
     rbind (at_string J j ''proto-state'') (\<lambda>b.
     rbind (at_string J j ''link-state'') (\<lambda>c.
     rbind (at_string J j ''link-state'') (\<lambda>c.
     rbind (at_string J j ''admin-state'') (\<lambda>d.
     rbind (at_string J j ''prefix'') (\<lambda>e.
     rbind (at_string J j ''linklocal-addr'') (\<lambda>f.
     Ok \<lparr>intf_name = a, proto_state = b, link_state = c, admin_state = d, if_prefix = e,
         linklocal_addr = f\<rparr>)))))))"

record interfaces_response =
  ir_table_vrf :: "row_vrf list"
  ir_table_intf :: "row_interface list"

definition InterfacesResponse_to_json :: "'j json_lib \<Rightarrow> interfaces_response \<Rightarrow> ('j, 'j) outcome" where
  "InterfacesResponse_to_json J row =
     rbind (mapR (RowVrf_to_json J) (ir_table_vrf row)) (\<lambda>vs.
     rbind (mapR (RowInterface_to_json J) (ir_table_intf row)) (\<lambda>is.
     Ok (j_object J [(''TABLE_vrf'', j_array J vs), (''TABLE_intf'', j_array J is)])))"

definition InterfacesResponse_from_json :: "'j json_lib \<Rightarrow> 'j \<Rightarrow> ('j, interfaces_response) outcome" where
  "InterfacesResponse_from_json J j =
     rbind (rbind (j_at J j ''TABLE_vrf'') (get_vector J (RowVrf_from_json J))) (\<lambda>vs.
     rbind (rbind (j_at J j ''TABLE_intf'') (get_vector J (RowInterface_from_json J))) (\<lambda>is.
     Ok \<lparr>ir_table_vrf = vs, ir_table_intf = is\<rparr>))"

section \<open>Uptime\<close>

record uptime_response =
  kern_uptm_days :: int32
  kern_uptm_hrs :: int32
  kern_uptm_mins :: int32
  kern_uptm_secs :: int32

definition UptimeResponse_to_json :: "'j json_lib \<Rightarrow> uptime_response \<Rightarrow> ('j, 'j) outcome" where
  "UptimeResponse_to_json J row = Ok (j_object J
     [(''kern_uptm_days'', j_int J (kern_uptm_days row)), (''kern_uptm_hrs'', j_int J (kern_uptm_hrs row)),
      (''kern_uptm_mins'', j_int J (kern_uptm_mins row)), (''kern_uptm_secs'', j_int J (kern_uptm_secs row))])"

definition UptimeResponse_from_json :: "'j json_lib \<Rightarrow> 'j \<Rightarrow> ('j, uptime_response) outcome" where
  "UptimeResponse_from_json J j =
     rbind (at_int J j ''kern_uptm_days'') (\<lambda>d.
     rbind (at_int J j ''kern_uptm_hrs'') (\<lambda>h.
     rbind (at_int J j ''kern_uptm_mins'') (\<lambda>m.
     rbind (at_int J j ''kern_uptm_secs'') (\<lambda>s.
     Ok \<lparr>kern_uptm_days = d, kern_uptm_hrs = h, kern_uptm_mins = m, kern_uptm_secs = s\<rparr>))))"

section \<open>Neighbor lookup\<close>

record adj_object =
  intf_out :: string
  ipv6_addr :: string
  mac :: string

definition AdjObject_to_json :: "'j json_lib \<Rightarrow> adj_object \<Rightarrow> ('j, 'j) outcome" where
  "AdjObject_to_json J row = Ok (j_object J
     [(''intf-out'', j_str J (intf_out row)), (''ipv6-addr'', j_str J (ipv6_addr row)),
      (''mac'', j_str J (mac row))])"

definition AdjObject_from_json :: "'j json_lib \<Rightarrow> 'j \<Rightarrow> ('j, adj_object) outcome" where
  "AdjObject_from_json J j =
     rbind (at_string J j ''intf-out'') (\<lambda>a.
     rbind (at_string J j ''ipv6-addr'') (\<lambda>b.
     rbind (at_string J j ''mac'') (\<lambda>c.
     Ok \<lparr>intf_out = a, ipv6_addr = b, mac = c\<rparr>)))"

record row_adj =
  table_object :: "adj_object list"

definition RowAdj_to_json :: "'j json_lib \<Rightarrow> row_adj \<Rightarrow> ('j, 'j) outcome" where
  "RowAdj_to_json J row =
     put_table J (AdjObject_to_json J) ''ROW_adj'' ''ROW_adj'' (j_null J) (table_object row)"

definition RowAdj_from_json :: "'j json_lib \<Rightarrow> 'j \<Rightarrow> ('j, row_adj) outcome" where
  "RowAdj_from_json J j =
     rbind (j_at J j ''ROW_adj'') (\<lambda>inner.
     rbind (table_member J (AdjObject_from_json J) inner ''ROW_adj'') (\<lambda>rows.
     Ok \<lparr>table_object = rows\<rparr>))"

record row_afi =
  afi :: string
  table_adj :: "row_adj list"

definition RowAfi_to_json :: "'j json_lib \<Rightarrow> row_afi \<Rightarrow> ('j, 'j) outcome" where
  "RowAfi_to_json J row =
     rbind (put_table J (RowAdj_to_json J) ''TABLE_adj'' ''TABLE_adj''
              (j_object J [(''afi'', j_str J (afi row))]) (table_adj row)) (\<lambda>inner.
     Ok (j_object J [(''ROW_afi'', inner)]))"

definition RowAfi_from_json :: "'j json_lib \<Rightarrow> 'j \<Rightarrow> ('j, row_afi) outcome" where
  "RowAfi_from_json J j =
     rbind (j_at J j ''ROW_afi'') (\<lambda>inner.
     rbind (at_string J inner ''afi'') (\<lambda>a.
     rbind (table_member J (RowAdj_from_json J) inner ''TABLE_adj'') (\<lambda>rows.
     Ok \<lparr>afi = a, table_adj = rows\<rparr>)))"

record row_vrf_neighbor =
  nb_vrf_name_out :: string
  table_afi :: "row_afi list"

definition RowVrfNeighborLookup_to_json :: "'j json_lib \<Rightarrow> row_vrf_neighbor \<Rightarrow> ('j, 'j) outcome" where
  "RowVrfNeighborLookup_to_json J row =
     rbind (put_table J (RowAfi_to_json J) ''TABLE_afi'' ''TABLE_afi''
              (j_object J [(''vrf-name-out'', j_str J (nb_vrf_name_out row))]) (table_afi row)) (\<lambda>inner.
     Ok (j_object J [(''ROW_vrf'', inner)]))"

definition RowVrfNeighborLookup_from_json :: "'j json_lib \<Rightarrow> 'j \<Rightarrow> ('j, row_vrf_neighbor) outcome" where
  "RowVrfNeighborLookup_from_json J j =
     rbind (j_at J j ''ROW_vrf'') (\<lambda>inner.
     rbind (at_string J inner ''vrf-name-out'') (\<lambda>v.
     rbind (table_member J (RowAfi_from_json J) inner ''TABLE_afi'') (\<lambda>rows.
     Ok \<lparr>nb_vrf_name_out = v, table_afi = rows\<rparr>)))"

record neighbor_lookup =
  nb_table_vrf :: "row_vrf_neighbor list"

definition NeighborLookupResponse_to_json :: "'j json_lib \<Rightarrow> neighbor_lookup \<Rightarrow> ('j, 'j) outcome" where
  "NeighborLookupResponse_to_json J row =
     rbind (case nb_table_vrf row of
         [] \<Rightarrow> Ok (j_null J)
       | [r] \<Rightarrow> RowVrfNeighborLookup_to_json J r
       | rs \<Rightarrow> rmap (j_array J) (mapR (RowVrfNeighborLookup_to_json J) rs)) (\<lambda>inner.
     Ok (j_object J [(''TABLE_vrf'', inner)]))"

definition NeighborLookupResponse_from_json :: "'j json_lib \<Rightarrow> 'j \<Rightarrow> ('j, neighbor_lookup) outcome" where
  "NeighborLookupResponse_from_json J j =
     rbind (j_at J j ''TABLE_vrf'') (\<lambda>t.
     if j_type J t = Array
     then rmap (\<lambda>rs. \<lparr>nb_table_vrf = rs\<rparr>) (get_vector J (RowVrfNeighborLookup_from_json J) t)
     else if j_type J t = Object
     then rmap (\<lambda>r. \<lparr>nb_table_vrf = [r]\<rparr>) (RowVrfNeighborLookup_from_json J t)
     else Ok \<lparr>nb_table_vrf = []\<rparr>)"

section \<open>Lemmas on tables\<close>

context json_api
begin

lemma brace_object_row:
  assumes "j_type J t = Object"
  shows "one_or_many J f (j_brace J t) = rmap (\<lambda>r. Some [r]) (f t)"
proof (cases rule: brace_cases [of t])
  case copies
  with assms show ?thesis by (simp add: one_or_many_def)
next
  case wraps
  then show ?thesis by (cases "f t") (simp_all add: one_or_many_def)
qed

lemma table_member_object:
  assumes "map_of kvs k = Some t" and "j_type J t = Object"
  shows "table_member J f (j_object J kvs) k = rmap (\<lambda>r. [r]) (f t)"
proof -
  have "k \<in> fst ` set kvs" using map_of_SomeD [OF assms(1)] by force
  then show ?thesis
    by (cases "f t") (simp_all add: table_member_def at_object [OF assms(1)] brace_object_row [OF assms(2)])
qed

lemma table_member_absent:
  "k \<notin> fst ` set kvs \<Longrightarrow> table_member J f (j_object J kvs) k = Ok []"
  by (simp add: table_member_def)

lemma table_member_no_object: "j_type J j \<noteq> Object \<Longrightarrow> table_member J f j k = Ok []"
  by (simp add: table_member_def contains_type)

end

section \<open>Writers and readers as codecs\<close>

text \<open>
  The contract of a pair \<^verbatim>\<open>to_json\<close>, \<^verbatim>\<open>from_json\<close>: on the structures that \<open>ok\<close>
  admits, the writer yields an object that the reader turns into the structure without what
  writing loses, \<open>keep\<close>.  The lemmas lift the contract to vectors and to tables of one row.
\<close>

locale codec = json_api J for J :: "'j json_lib" +
  fixes enc :: "'a \<Rightarrow> ('j, 'j) outcome"
    and dec :: "'j \<Rightarrow> ('j, 'a) outcome"
    and ok :: "'a \<Rightarrow> bool"
    and keep :: "'a \<Rightarrow> 'a"
  assumes enc_dec: "ok x \<Longrightarrow> \<exists>j. enc x = Ok j \<and> j_type J j = Object \<and> dec j = Ok (keep x)"
begin

lemma roundtrip: "ok x \<Longrightarrow> rbind (enc x) dec = Ok (keep x)"
  using enc_dec [of x] by auto

lemma vector_roundtrip:
  "(\<And>x. x \<in> set xs \<Longrightarrow> ok x) \<Longrightarrow> \<exists>js. mapR enc xs = Ok js \<and> mapR dec js = Ok (map keep xs)"
proof (induction xs)
  case Nil
  show ?case by simp
next
  case (Cons x xs)
  obtain j where "enc x = Ok j" "dec j = Ok (keep x)" using enc_dec [of x] Cons.prems by auto
  moreover obtain js where "mapR enc xs = Ok js" "mapR dec js = Ok (map keep xs)" using Cons by auto
  ultimately show ?case by simp
qed

text \<open>A table of at most one row under a key that the object does not hold yet.\<close>

lemma table_roundtrip:
  assumes "length xs \<le> 1" and "\<And>x. x \<in> set xs \<Longrightarrow> ok x" and "k \<notin> fst ` set kvs"
  shows "\<exists>kvs'. put_table J enc k kN (j_object J kvs) xs = Ok (j_object J (kvs @ kvs')) \<and>
    fst ` set kvs' \<subseteq> {k} \<and> table_member J dec (j_object J (kvs @ kvs')) k = Ok (map keep xs)"
proof (cases xs)
  case Nil
  then show ?thesis
    using assms(3) by (auto simp: put_table_def table_member_absent intro!: exI [of _ "[]"])
next
  case (Cons x ys)
  with assms(1) have xs: "xs = [x]" by simp
  obtain j where j: "enc x = Ok j" "j_type J j = Object" "dec j = Ok (keep x)"
    using enc_dec [of x] assms(2) xs by auto
  have "map_of kvs k = None" using assms(3) by (simp add: map_of_eq_None_iff)
  then have "map_of (kvs @ [(k, j)]) k = Some j" by (simp add: map_add_def)
  from table_member_object [OF this j(2), of dec] j
  have "table_member J dec (j_object J (kvs @ [(k, j)])) k = Ok [keep x]" by simp
  with j assms(3) xs show ?thesis
    by (auto simp: put_table_def intro!: exI [of _ "[(k, j)]"])
qed

end

sublocale json_api \<subseteq> uptime: codec J "UptimeResponse_to_json J" "UptimeResponse_from_json J" "\<lambda>_. True" "\<lambda>x. x"
  by unfold_locales (simp add: UptimeResponse_to_json_def UptimeResponse_from_json_def)

sublocale json_api \<subseteq> adj: codec J "AdjObject_to_json J" "AdjObject_from_json J" "\<lambda>_. True" "\<lambda>x. x"
  by unfold_locales (simp add: AdjObject_to_json_def AdjObject_from_json_def)

text \<open>
  The hops of a path are lost: the serializer of optionals writes a null for each of them, and an
  array of hops is written inside another array.  A path is written unless its only hop lacks a
  member, which the serializer dereferences.
\<close>

definition row_path_ok :: "row_path \<Rightarrow> bool" where
  "row_path_ok r \<longleftrightarrow> (length (ifname r) = 1 \<and> length (ipnexthop r) = 1 \<longrightarrow> ipnexthop r ! 0 \<noteq> None \<and> ifname r ! 0 \<noteq> None)"

definition kept_path :: "row_path \<Rightarrow> row_path" where
  "kept_path r = (if length (ifname r) \<noteq> length (ipnexthop r) \<or> ifname r = [] then \<lparr>ipnexthop = [], ifname = []\<rparr>
     else \<lparr>ipnexthop = [None], ifname = [None]\<rparr>)"

context json_api
begin

lemma path_entries: "\<exists>js. mapR (\<lambda>i. path_entry J (f i) (g i)) is = Ok js"
proof (induction "is")
  case (Cons i "is")
  have "\<exists>j. path_entry J (f i) (g i) = Ok j"
    by (cases "f i"; cases "g i") (simp_all add: path_entry_def optional_to_json_def)
  with Cons show ?case by auto
qed simp

lemma path_written:
  assumes "row_path_ok r"
  shows "\<exists>j. RowPath_to_json J r = Ok j \<and> j_type J j = Object \<and> RowPath_from_json J j = Ok (kept_path r)"
proof -
  consider (none) "length (ifname r) \<noteq> length (ipnexthop r) \<or> length (ifname r) = 0"
    | (one) h i where "ipnexthop r = [Some h]" "ifname r = [Some i]"
    | (many) "length (ifname r) = length (ipnexthop r)" "1 < length (ifname r)"
  proof (cases "length (ifname r) = 1 \<and> length (ipnexthop r) = 1")
    case True
    then obtain a b where "ifname r = [a]" "ipnexthop r = [b]" by (auto simp: length_Suc_conv)
    with assms one show ?thesis by (auto simp: row_path_ok_def)
  next
    case False
    then show ?thesis
      by (cases "length (ifname r)"; cases "length (ifname r) = length (ipnexthop r)") (use none many in auto)
  qed
  then show ?thesis
  proof cases
    case none
    then show ?thesis by (auto simp: RowPath_to_json_def RowPath_from_json_def kept_path_def)
  next
    case one
    then show ?thesis
      by (simp add: RowPath_to_json_def RowPath_from_json_def kept_path_def optional_to_json_def optional_member_def
          optional_from_json_def)
  next
    case many
    obtain js where "mapR (\<lambda>i. path_entry J (ifname r ! i) (ipnexthop r ! i)) [0..<length (ipnexthop r)] = Ok js"
      using path_entries by blast
    with many show ?thesis
      by (auto simp: RowPath_to_json_def RowPath_from_json_def kept_path_def path_step_def contains_type)
  qed
qed

end

sublocale json_api \<subseteq> path: codec J "RowPath_to_json J" "RowPath_from_json J" row_path_ok kept_path
  by unfold_locales (rule path_written)

definition row_prefix_ok :: "row_prefix \<Rightarrow> bool" where
  "row_prefix_ok r \<longleftrightarrow> (\<forall>p \<in> set (table_path r). row_path_ok p)"

definition kept_prefix :: "row_prefix \<Rightarrow> row_prefix" where
  "kept_prefix r = r\<lparr>table_path := map kept_path (table_path r)\<rparr>"

sublocale json_api \<subseteq> prefix: codec J "RowPrefix_to_json J" "RowPrefix_from_json J" row_prefix_ok kept_prefix
proof unfold_locales
  fix r assume ok: "row_prefix_ok r"
  show "\<exists>j. RowPrefix_to_json J r = Ok j \<and> j_type J j = Object \<and> RowPrefix_from_json J j = Ok (kept_prefix r)"
  proof (cases "length (table_path r) = 1")
    case True
    then obtain p where p: "table_path r = [p]" by (auto simp: length_Suc_conv)
    obtain j where "RowPath_to_json J p = Ok j" "j_type J j = Object" "RowPath_from_json J j = Ok (kept_path p)"
      using path.enc_dec [of p] ok p by (auto simp: row_prefix_ok_def)
    with p show ?thesis
      by (simp add: RowPrefix_to_json_def RowPrefix_from_json_def kept_prefix_def)
  next
    case False
    obtain js where "mapR (RowPath_to_json J) (table_path r) = Ok js"
        "mapR (RowPath_from_json J) js = Ok (map kept_path (table_path r))"
      using path.vector_roundtrip [of "table_path r"] ok by (auto simp: row_prefix_ok_def)
    with False show ?thesis
      by (simp add: RowPrefix_to_json_def RowPrefix_from_json_def kept_prefix_def)
  qed
qed

text \<open>A prefix table that is present and empty is written like an absent one.\<close>

definition row_addr_ok :: "row_addr \<Rightarrow> bool" where
  "row_addr_ok r \<longleftrightarrow> (case table_prefix r of None \<Rightarrow> True
     | Some ps \<Rightarrow> length ps \<le> 1 \<and> (\<forall>p \<in> set ps. row_prefix_ok p))"

definition kept_addr :: "row_addr \<Rightarrow> row_addr" where
  "kept_addr r = r\<lparr>table_prefix := (case table_prefix r of
     Some (p # ps) \<Rightarrow> Some (map kept_prefix (p # ps)) | _ \<Rightarrow> None)\<rparr>"

sublocale json_api \<subseteq> addr: codec J "RowAddr_to_json J" "RowAddr_from_json J" row_addr_ok kept_addr
proof unfold_locales
  fix r assume ok: "row_addr_ok r"
  show "\<exists>j. RowAddr_to_json J r = Ok j \<and> j_type J j = Object \<and> RowAddr_from_json J j = Ok (kept_addr r)"
  proof (cases "table_prefix r = None \<or> table_prefix r = Some []")
    case True
    then show ?thesis by (auto simp: RowAddr_to_json_def RowAddr_from_json_def kept_addr_def)
  next
    case False
    with ok obtain p where p: "table_prefix r = Some [p]" "row_prefix_ok p"
      by (auto simp: row_addr_ok_def le_Suc_eq length_Suc_conv split: option.splits)
    obtain j where "RowPrefix_to_json J p = Ok j" "j_type J j = Object" "RowPrefix_from_json J j = Ok (kept_prefix p)"
      using prefix.enc_dec [OF p(2)] by auto
    with p show ?thesis
      by (simp add: RowAddr_to_json_def RowAddr_from_json_def brace_object_row kept_addr_def)
  qed
qed

definition row_vrf_ok :: "row_vrf \<Rightarrow> bool" where
  "row_vrf_ok r \<longleftrightarrow> length (table_addrf r) \<le> 1 \<and> (\<forall>a \<in> set (table_addrf r). row_addr_ok a)"

definition kept_vrf :: "row_vrf \<Rightarrow> row_vrf" where
  "kept_vrf r = r\<lparr>table_addrf := map kept_addr (table_addrf r)\<rparr>"

sublocale json_api \<subseteq> vrf: codec J "RowVrf_to_json J" "RowVrf_from_json J" row_vrf_ok kept_vrf
proof unfold_locales
  fix r assume ok: "row_vrf_ok r"
  obtain kvs where "put_table J (RowAddr_to_json J) ''TABLE_addrf'' ''TABLE_addf''
        (j_object J [(''vrf-name-out'', j_str J (vrf_name_out r))]) (table_addrf r)
        = Ok (j_object J ([(''vrf-name-out'', j_str J (vrf_name_out r))] @ kvs))"
      "table_member J (RowAddr_from_json J)
        (j_object J ([(''vrf-name-out'', j_str J (vrf_name_out r))] @ kvs)) ''TABLE_addrf'' = Ok (map kept_addr (table_addrf r))"
    using addr.table_roundtrip [of "table_addrf r" "''TABLE_addrf''" "[(''vrf-name-out'', j_str J (vrf_name_out r))]"
        "''TABLE_addf''"] ok
    by (auto simp: row_vrf_ok_def)
  then show "\<exists>j. RowVrf_to_json J r = Ok j \<and> j_type J j = Object \<and> RowVrf_from_json J j = Ok (kept_vrf r)"
    by (simp add: RowVrf_to_json_def RowVrf_from_json_def kept_vrf_def)
qed

text \<open>
  The adjacency writer and reader disagree about the nesting, so a \<^verbatim>\<open>RowAfi\<close> agrees with
  itself only without adjacencies.
\<close>

definition row_afi_ok :: "row_afi \<Rightarrow> bool" where
  "row_afi_ok r \<longleftrightarrow> table_adj r = []"

sublocale json_api \<subseteq> afi: codec J "RowAfi_to_json J" "RowAfi_from_json J" row_afi_ok "\<lambda>x. x"
  by unfold_locales
    (simp add: RowAfi_to_json_def RowAfi_from_json_def row_afi_ok_def put_table_def table_member_absent)

definition row_vrf_neighbor_ok :: "row_vrf_neighbor \<Rightarrow> bool" where
  "row_vrf_neighbor_ok r \<longleftrightarrow> length (table_afi r) \<le> 1 \<and> (\<forall>a \<in> set (table_afi r). row_afi_ok a)"

sublocale json_api \<subseteq> nb_vrf:
  codec J "RowVrfNeighborLookup_to_json J" "RowVrfNeighborLookup_from_json J" row_vrf_neighbor_ok "\<lambda>x. x"
proof unfold_locales
  fix r assume ok: "row_vrf_neighbor_ok r"
  obtain kvs where "put_table J (RowAfi_to_json J) ''TABLE_afi'' ''TABLE_afi''
        (j_object J [(''vrf-name-out'', j_str J (nb_vrf_name_out r))]) (table_afi r)
        = Ok (j_object J ([(''vrf-name-out'', j_str J (nb_vrf_name_out r))] @ kvs))"
      "table_member J (RowAfi_from_json J)
        (j_object J ([(''vrf-name-out'', j_str J (nb_vrf_name_out r))] @ kvs)) ''TABLE_afi'' = Ok (table_afi r)"
    using afi.table_roundtrip [of "table_afi r" "''TABLE_afi''" "[(''vrf-name-out'', j_str J (nb_vrf_name_out r))]"
        "''TABLE_afi''"] ok
    by (auto simp: row_vrf_neighbor_ok_def)
  then show "\<exists>j. RowVrfNeighborLookup_to_json J r = Ok j \<and> j_type J j = Object \<and>
      RowVrfNeighborLookup_from_json J j = Ok r"
    by (simp add: RowVrfNeighborLookup_to_json_def RowVrfNeighborLookup_from_json_def)
qed

section \<open>The documents the switch sends\<close>

text \<open>A next hop inside \<^verbatim>\<open>ROW_path\<close>: any of its two members may be absent.\<close>

definition hop_members :: "'j json_lib \<Rightarrow> string option \<times> string option \<Rightarrow> (string \<times> 'j) list" where
  "hop_members J hop =
     (case fst hop of Some h \<Rightarrow> [(''ipnexthop'', j_str J h)] | None \<Rightarrow> []) @
     (case snd hop of Some i \<Rightarrow> [(''ifname'', j_str J i)] | None \<Rightarrow> [])"

definition hop_object :: "'j json_lib \<Rightarrow> string option \<times> string option \<Rightarrow> 'j" where
  "hop_object J hop = j_object J (hop_members J hop)"

text \<open>A route lookup with one VRF, one address family, one prefix and one path.\<close>

definition lookup_doc :: "'j json_lib \<Rightarrow> string \<Rightarrow> string \<Rightarrow> string \<Rightarrow> string \<Rightarrow> 'j \<Rightarrow> 'j" where
  "lookup_doc J vrf af pfx att path =
     j_object J [(''TABLE_vrf'', j_object J [(''ROW_vrf'', j_object J
       [(''vrf-name-out'', j_str J vrf),
        (''TABLE_addrf'', j_object J [(''ROW_addrf'', j_object J
          [(''addrf'', j_str J af),
           (''TABLE_prefix'', j_object J [(''ROW_prefix'', j_object J
             [(''ipprefix'', j_str J pfx), (''attached'', j_str J att),
              (''TABLE_path'', j_object J [(''ROW_path'', path)])])])])])])])]"

definition lookup_of :: "string \<Rightarrow> string \<Rightarrow> string \<Rightarrow> string \<Rightarrow> row_path \<Rightarrow> route_lookup" where
  "lookup_of vrf af pfx att p =
     \<lparr>table_vrf = [\<lparr>vrf_name_out = vrf, table_addrf = [\<lparr>addrf = af, table_prefix =
       Some [\<lparr>ipprefix = pfx, attached = \<not> (att = ''false'' \<or> att = ''FALSE''), table_path = [p]\<rparr>]\<rparr>]\<rparr>]\<rparr>"

definition kept_lookup :: "route_lookup \<Rightarrow> route_lookup" where
  "kept_lookup r = r\<lparr>table_vrf := map kept_vrf (table_vrf r)\<rparr>"

text \<open>The next hop that the loop over an array of hops stores for a hop.\<close>

definition stored_nexthop :: "'j json_lib \<Rightarrow> string option \<times> string option \<Rightarrow> string option" where
  "stored_nexthop J hop = (case fst hop of Some h \<Rightarrow> Some h | None \<Rightarrow> map_option (moved_string J) (snd hop))"

context json_api
begin

lemma hop_object_object [simp]: "j_type J (hop_object J hop) = Object"
  by (simp add: hop_object_def)

lemma path_step_hop: "path_step J (hop_object J hop) = Ok (snd hop, stored_nexthop J hop)"
  by (cases "fst hop"; cases "snd hop")
    (simp_all add: path_step_def hop_object_def hop_members_def stored_nexthop_def)

lemma mapR_path_step_hops:
  "mapR (path_step J) (map (hop_object J) hops) = Ok (map (\<lambda>h. (snd h, stored_nexthop J h)) hops)"
  by (induction hops) (simp_all add: path_step_hop)

lemma RowPath_array:
  "RowPath_from_json J (j_object J [(''ROW_path'', j_array J (map (hop_object J) hops))]) =
    Ok \<lparr>ipnexthop = map (stored_nexthop J) hops, ifname = map snd hops\<rparr>"
  by (simp add: RowPath_from_json_def mapR_path_step_hops comp_def)

lemma RowPath_object:
  "RowPath_from_json J (j_object J [(''ROW_path'', hop_object J hop)]) =
    Ok \<lparr>ipnexthop = [fst hop], ifname = [snd hop]\<rparr>"
  by (cases "fst hop"; cases "snd hop")
    (simp_all add: RowPath_from_json_def hop_object_def hop_members_def optional_member_def
      optional_from_json_def)

lemma lookup_doc_read:
  assumes "RowPath_from_json J (j_object J [(''ROW_path'', path)]) = Ok p"
  shows "RouteLookupResponse_from_json J (lookup_doc J v af pfx att path) = Ok (lookup_of v af pfx att p)"
  by (simp add: lookup_doc_def lookup_of_def RouteLookupResponse_from_json_def table_member_object
      RowVrf_from_json_def RowAddr_from_json_def brace_object_row RowPrefix_from_json_def assms)

lemma lookup_doc_array:
  "RouteLookupResponse_from_json J (lookup_doc J v af pfx att (j_array J (map (hop_object J) hops))) =
    Ok (lookup_of v af pfx att \<lparr>ipnexthop = map (stored_nexthop J) hops, ifname = map snd hops\<rparr>)"
  by (rule lookup_doc_read) (rule RowPath_array)

lemma lookup_doc_object:
  "RouteLookupResponse_from_json J (lookup_doc J v af pfx att (hop_object J hop)) =
    Ok (lookup_of v af pfx att \<lparr>ipnexthop = [fst hop], ifname = [snd hop]\<rparr>)"
  by (rule lookup_doc_read) (rule RowPath_object)

lemma uptime_ok_roundtrip: "rbind (UptimeResponse_to_json J u) (UptimeResponse_from_json J) = Ok u"
  by (rule uptime.roundtrip) simp

lemma interface_read_fails:
  "\<exists>m. rbind (RowInterface_to_json J r) (RowInterface_from_json J) = Throw (JsonOutOfRange m)"
proof -
  obtain m where "at_string J (j_object J
     [(''intf-name'', j_str J (intf_name r)), (''proto-state'', j_str J (proto_state r)),
      (''link-state'', j_str J (link_state r)), (''admin-state'', j_str J (admin_state r)),
      (''prefix'', j_str J (if_prefix r)), (''linklocal_addr'', j_str J (linklocal_addr r))])
      ''linklocal-addr'' = Throw (JsonOutOfRange m)"
    using at_string_object_missing by fastforce
  then show ?thesis by (simp add: RowInterface_to_json_def RowInterface_from_json_def)
qed

lemma vrf_families_lost:
  assumes "length (table_addrf r) \<ge> 2" and "\<And>a. a \<in> set (table_addrf r) \<Longrightarrow> row_addr_ok a"
  shows "rbind (RowVrf_to_json J r) (RowVrf_from_json J) = Ok \<lparr>vrf_name_out = vrf_name_out r, table_addrf = []\<rparr>"
proof -
  obtain a b rest where r: "table_addrf r = a # b # rest"
    using assms(1) by (cases "table_addrf r"; cases "tl (table_addrf r)") auto
  obtain js where "mapR (RowAddr_to_json J) (a # b # rest) = Ok js"
    using addr.vector_roundtrip [of "table_addrf r"] assms(2) r by auto
  then have "put_table J (RowAddr_to_json J) ''TABLE_addrf'' ''TABLE_addf''
      (j_object J [(''vrf-name-out'', j_str J (vrf_name_out r))]) (table_addrf r)
    = Ok (j_object J [(''vrf-name-out'', j_str J (vrf_name_out r)), (''TABLE_addf'', j_array J js)])"
    unfolding put_table_def r by (simp del: mapR.simps)
  then show ?thesis
    by (simp add: RowVrf_to_json_def RowVrf_from_json_def table_member_absent)
qed

lemma route_lookup_written:
  assumes "length (table_vrf r) \<le> 1" and "\<And>v. v \<in> set (table_vrf r) \<Longrightarrow> row_vrf_ok v"
  shows "rbind (RouteLookupResponse_to_json J r) (RouteLookupResponse_from_json J) = Ok (kept_lookup r)"
proof (cases "table_vrf r")
  case Nil
  then show ?thesis
    by (simp add: RouteLookupResponse_to_json_def RouteLookupResponse_from_json_def put_table_def
        table_member_no_object kept_lookup_def)
next
  case (Cons v vs)
  with assms(1) have r: "table_vrf r = [v]" by simp
  obtain j where "RowVrf_to_json J v = Ok j" "j_type J j = Object" "RowVrf_from_json J j = Ok (kept_vrf v)"
    using vrf.enc_dec [of v] assms(2) r by auto
  with r show ?thesis
    by (simp add: RouteLookupResponse_to_json_def RouteLookupResponse_from_json_def put_table_def
        table_member_object kept_lookup_def)
qed

end

text \<open>The neighbor table of the switch: adjacency objects in an array under one \<^verbatim>\<open>ROW_adj\<close>.\<close>

definition adj_json :: "'j json_lib \<Rightarrow> adj_object \<Rightarrow> 'j" where
  "adj_json J a = j_object J [(''intf-out'', j_str J (intf_out a)), (''ipv6-addr'', j_str J (ipv6_addr a)),
     (''mac'', j_str J (mac a))]"

definition neighbor_doc :: "'j json_lib \<Rightarrow> string \<Rightarrow> string \<Rightarrow> 'j \<Rightarrow> 'j" where
  "neighbor_doc J vrf af adj =
     j_object J [(''TABLE_vrf'', j_object J [(''ROW_vrf'', j_object J
       [(''vrf-name-out'', j_str J vrf),
        (''TABLE_afi'', j_object J [(''ROW_afi'', j_object J
          [(''afi'', j_str J af), (''TABLE_adj'', j_object J [(''ROW_adj'', adj)])])])])])]"

definition neighbor_of :: "string \<Rightarrow> string \<Rightarrow> adj_object list \<Rightarrow> neighbor_lookup" where
  "neighbor_of vrf af objs =
     \<lparr>nb_table_vrf = [\<lparr>nb_vrf_name_out = vrf, table_afi = [\<lparr>afi = af, table_adj = [\<lparr>table_object = objs\<rparr>]\<rparr>]\<rparr>]\<rparr>"

context json_api
begin

lemma neighbor_doc_read:
  assumes "RowAdj_from_json J (j_object J [(''ROW_adj'', a)]) = Ok \<lparr>table_object = objs\<rparr>"
  shows "NeighborLookupResponse_from_json J (neighbor_doc J v af a) = Ok (neighbor_of v af objs)"
  by (simp add: neighbor_doc_def neighbor_of_def NeighborLookupResponse_from_json_def
      RowVrfNeighborLookup_from_json_def table_member_object RowAfi_from_json_def assms)

lemma RowAdj_switch_array: "RowAdj_from_json J (j_object J [(''ROW_adj'', j_array J xs)]) = Ok \<lparr>table_object = []\<rparr>"
  by (simp add: RowAdj_from_json_def table_member_no_object)

lemma RowAdj_switch_object:
  "RowAdj_from_json J (j_object J [(''ROW_adj'', adj_json J a)]) = Ok \<lparr>table_object = []\<rparr>"
  by (simp add: RowAdj_from_json_def adj_json_def table_member_absent)

end

section \<open>Properties\<close>

text \<open>Writing an uptime and reading it back returns the same four signed 32-bit fields.\<close>

theorem uptime_roundtrip:
  assumes "json_api J"
  shows "rbind (UptimeResponse_to_json J u) (UptimeResponse_from_json J) = Ok u"
  using json_api.uptime_ok_roundtrip [OF assms] .

lemma uptime_roundtrip_witness:
  "rbind (UptimeResponse_to_json (std_json True (\<lambda>s. None)) \<lparr>kern_uptm_days = 1, kern_uptm_hrs = 2,
       kern_uptm_mins = 3, kern_uptm_secs = -4\<rparr>) (UptimeResponse_from_json (std_json True (\<lambda>s. None)))
    = Ok \<lparr>kern_uptm_days = 1, kern_uptm_hrs = 2, kern_uptm_mins = 3, kern_uptm_secs = -4\<rparr>"
  by (rule uptime_roundtrip [OF std_json_api])



text \<open>C26: the switch's lookup answer with one VRF, one address family and one prefix is read, whichever
  way brace initialisation goes, with its names, prefix and flag.  A single hop sent as an object is
  read as it is.  Of hops sent in an array the interface names are read as they are and in order, and
  so are the next hops exactly when no hop has an interface name and no next hop: such a hop is
  stored with a present next hop, the moved-from string.\<close>

theorem lookup_document_read:
  assumes "json_api J"
  shows "RouteLookupResponse_from_json J (lookup_doc J v af pfx att (hop_object J hop)) =
      Ok (lookup_of v af pfx att \<lparr>ipnexthop = [fst hop], ifname = [snd hop]\<rparr>)
    \<and> RouteLookupResponse_from_json J (lookup_doc J v af pfx att (j_array J (map (hop_object J) hops))) =
      Ok (lookup_of v af pfx att \<lparr>ipnexthop = map (stored_nexthop J) hops, ifname = map snd hops\<rparr>)
    \<and> (map (stored_nexthop J) hops = map fst hops \<longleftrightarrow> filter (\<lambda>h. fst h = None \<and> snd h \<noteq> None) hops = [])"
proof (intro conjI)
  have "stored_nexthop J h = fst h \<longleftrightarrow> \<not> (fst h = None \<and> snd h \<noteq> None)" for h
    by (cases "fst h"; cases "snd h") (simp_all add: stored_nexthop_def)
  then show "map (stored_nexthop J) hops = map fst hops \<longleftrightarrow> filter (\<lambda>h. fst h = None \<and> snd h \<noteq> None) hops = []"
    by (auto simp: filter_empty_conv map_eq_conv simp del: not_None_eq)
qed (rule json_api.lookup_doc_object [OF assms] json_api.lookup_doc_array [OF assms])+

lemma lookup_document_read_witness:
  "RouteLookupResponse_from_json (std_json True (\<lambda>s. None))
     (lookup_doc (std_json True (\<lambda>s. None)) ''default'' ''ipv6'' ''2001:db8::/64'' ''true''
       (j_array (std_json True (\<lambda>s. None))
         (map (hop_object (std_json True (\<lambda>s. None))) [(Some ''fe80::1'', Some ''Vlan10''), (None, Some ''Vlan20'')])))
    = Ok (lookup_of ''default'' ''ipv6'' ''2001:db8::/64'' ''true''
        \<lparr>ipnexthop = [Some ''fe80::1'', Some []], ifname = [Some ''Vlan10'', Some ''Vlan20'']\<rparr>)"
  using lookup_document_read [OF std_json_api, of True "\<lambda>s. None" "''default''" "''ipv6''" "''2001:db8::/64''"
      "''true''" "(None, None)" "[(Some ''fe80::1'', Some ''Vlan10''), (None, Some ''Vlan20'')]"]
  by (simp add: stored_nexthop_def)

text \<open>A directly attached hop (an interface name, no next hop) has no next hop when the switch
  sends it as an object, and a present next hop when it sends the same hop in an array.\<close>

theorem attached_hop_presence:
  assumes "json_api J"
  shows "rmap ipnexthop (RowPath_from_json J (j_object J [(''ROW_path'', hop_object J (None, Some ifn))])) = Ok [None]
    \<and> rmap ipnexthop (RowPath_from_json J (j_object J [(''ROW_path'', j_array J [hop_object J (None, Some ifn)])]))
      = Ok [Some (moved_string J ifn)]"
  using json_api.RowPath_object [OF assms, of "(None, Some ifn)"]
    json_api.RowPath_array [OF assms, of "[(None, Some ifn)]"]
  by (simp add: stored_nexthop_def)

lemma attached_hop_presence_witness:
  "rmap ipnexthop (RowPath_from_json (std_json True (\<lambda>s. None)) (j_object (std_json True (\<lambda>s. None))
      [(''ROW_path'', hop_object (std_json True (\<lambda>s. None)) (None, Some ''Vlan10''))])) = Ok [None]
    \<and> rmap ipnexthop (RowPath_from_json (std_json True (\<lambda>s. None)) (j_object (std_json True (\<lambda>s. None))
      [(''ROW_path'', j_array (std_json True (\<lambda>s. None))
        [hop_object (std_json True (\<lambda>s. None)) (None, Some ''Vlan10'')])]))
      = Ok [Some (moved_string (std_json True (\<lambda>s. None)) ''Vlan10'')]"
  by (rule attached_hop_presence [OF std_json_api])

text \<open>The neighbor table the switch sends, any number of adjacencies under one \<open>ROW_adj\<close>, is read
  without an error and without a single adjacency: the reader looks for a second \<open>ROW_adj\<close> inside
  the first.\<close>

theorem neighbor_document_read_empty:
  assumes "json_api J"
  shows "NeighborLookupResponse_from_json J (neighbor_doc J v af (j_array J (map (adj_json J) objs)))
    = Ok (neighbor_of v af [])"
  using json_api.neighbor_doc_read [OF assms json_api.RowAdj_switch_array [OF assms]] .

lemma neighbor_document_read_empty_witness:
  "NeighborLookupResponse_from_json (std_json True (\<lambda>s. None))
     (neighbor_doc (std_json True (\<lambda>s. None)) ''default'' ''ipv6'' (j_array (std_json True (\<lambda>s. None))
       (map (adj_json (std_json True (\<lambda>s. None)))
          [\<lparr>intf_out = ''Vlan10'', ipv6_addr = ''2001::1'', mac = ''f6a5.486e.8aad''\<rparr>])))
    = Ok (neighbor_of ''default'' ''ipv6'' [])"
  by (rule neighbor_document_read_empty [OF std_json_api])

text \<open>What the interface writer produces is never readable again: the reader asks for the
  link-local address under another key and throws an out-of-range error.\<close>

theorem interface_not_readable:
  assumes "json_api J"
  shows "\<exists>m. rbind (RowInterface_to_json J r) (RowInterface_from_json J) = Throw (JsonOutOfRange m)"
  using json_api.interface_read_fails [OF assms] .

lemma interface_not_readable_witness:
  "\<exists>m. rbind (RowInterface_to_json (std_json True (\<lambda>s. None)) \<lparr>intf_name = ''Vlan10'', proto_state = ''up'',
      link_state = ''up'', admin_state = ''up'', if_prefix = ''2001::/64'', linklocal_addr = ''fe80::1''\<rparr>)
      (RowInterface_from_json (std_json True (\<lambda>s. None))) = Throw (JsonOutOfRange m)"
  by (rule interface_not_readable [OF std_json_api])

text \<open>A VRF row with two or more address families that all can be written loses every one of
  them on reading back, because the writer files the array under a misspelt key.\<close>

theorem vrf_many_families_lost:
  assumes "json_api J" and "length (table_addrf r) \<ge> 2" and "\<And>a. a \<in> set (table_addrf r) \<Longrightarrow> row_addr_ok a"
  shows "rbind (RowVrf_to_json J r) (RowVrf_from_json J) = Ok \<lparr>vrf_name_out = vrf_name_out r, table_addrf = []\<rparr>"
  using json_api.vrf_families_lost [OF assms] .

lemma vrf_many_families_lost_witness:
  "rbind (RowVrf_to_json (std_json True (\<lambda>s. None)) \<lparr>vrf_name_out = ''default'', table_addrf =
      [\<lparr>addrf = ''ipv4'', table_prefix = None\<rparr>, \<lparr>addrf = ''ipv6'', table_prefix = None\<rparr>]\<rparr>)
      (RowVrf_from_json (std_json True (\<lambda>s. None))) = Ok \<lparr>vrf_name_out = ''default'', table_addrf = []\<rparr>"
proof -
  let ?r = "\<lparr>vrf_name_out = ''default'', table_addrf =
      [\<lparr>addrf = ''ipv4'', table_prefix = None\<rparr>, \<lparr>addrf = ''ipv6'', table_prefix = None\<rparr>]\<rparr>"
  have "length (table_addrf ?r) \<ge> 2" and "\<And>a. a \<in> set (table_addrf ?r) \<Longrightarrow> row_addr_ok a"
    by (auto simp: row_addr_ok_def)
  from vrf_many_families_lost [OF std_json_api this] show ?thesis by simp
qed

text \<open>The serializer of optionals is inverted: a path with one hop, both members present, is
  written with two nulls and read back with both absent; with a member absent the writer
  dereferences a disengaged optional.\<close>

theorem path_hop_lost:
  assumes "json_api J"
  shows "rbind (RowPath_to_json J \<lparr>ipnexthop = [Some h], ifname = [Some i]\<rparr>) (RowPath_from_json J)
      = Ok \<lparr>ipnexthop = [None], ifname = [None]\<rparr>
    \<and> RowPath_to_json J \<lparr>ipnexthop = [None], ifname = [Some i]\<rparr> = Stuck OptionalDeref"
  by (simp add: RowPath_to_json_def optional_to_json_def RowPath_from_json_def optional_member_def
      optional_from_json_def json_api.at_object [OF assms] json_api.type_object [OF assms]
      json_api.contains_object [OF assms] json_api.type_null [OF assms])

lemma path_hop_lost_witness:
  "rbind (RowPath_to_json (std_json True (\<lambda>s. None)) \<lparr>ipnexthop = [Some ''fe80::1''], ifname = [Some ''Vlan10'']\<rparr>)
        (RowPath_from_json (std_json True (\<lambda>s. None))) = Ok \<lparr>ipnexthop = [None], ifname = [None]\<rparr>
    \<and> RowPath_to_json (std_json True (\<lambda>s. None)) \<lparr>ipnexthop = [None], ifname = [Some ''Vlan10'']\<rparr> = Stuck OptionalDeref"
  by (rule path_hop_lost [OF std_json_api])

end
