(* ===== verification/Lease_Utils.thy ===== *)
theory Lease_Utils
  imports Kea_Lib
begin

text \<open>
  \<^verbatim>\<open>LeaseUtils\<close> of \<^verbatim>\<open>src/lease_utils.cpp\<close>: the lookup of the active IA_NA lease of a
  client and the count of its leases.  The lease database is the parameter \<open>M\<close>.
  \<^verbatim>\<open>getAllLeases\<close> is declared in the header and never defined, so it is not modelled.
\<close>

text \<open>The loop: skip reclaimed and declined leases, stop at the first other one.\<close>

fun first_active :: "lease list \<Rightarrow> lease option" where
  "first_active [] = None"
| "first_active (l # ls) =
     (if l_stateExpiredReclaimed l \<or> l_stateDeclined l then first_active ls else Some l)"

definition findIA_NALeaseByDUID_IAID ::
    "'j lease_mgr \<Rightarrow> duid option \<Rightarrow> uint32 \<Rightarrow> ('j, lease option) outcome" where
  "findIA_NALeaseByDUID_IAID M duid iaid =
     (case duid of
        None \<Rightarrow> Ok None
      | Some leaseDUID \<Rightarrow> rmap first_active (getLeases6 M TYPE_NA leaseDUID iaid))"

definition getActiveAndExpiredLeasesSize ::
    "'j lease_mgr \<Rightarrow> lease_type \<Rightarrow> duid option \<Rightarrow> uint32 \<Rightarrow> ('j, nat) outcome" where
  "getActiveAndExpiredLeasesSize M type duidPtr iaid =
     (case duidPtr of None \<Rightarrow> Ok 0 | Some duid \<Rightarrow> rmap length (getLeases6 M type duid iaid))"

definition active :: "lease \<Rightarrow> bool" where
  "active l \<longleftrightarrow> \<not> l_stateExpiredReclaimed l \<and> \<not> l_stateDeclined l"

lemma first_active_find: "first_active ls = List.find active ls"
  by (induction ls) (auto simp: active_def)

lemma first_active_Some:
  "first_active ls = Some l \<longleftrightarrow> (\<exists>i < length ls. ls ! i = l \<and> active l \<and> (\<forall>k < i. \<not> active (ls ! k)))"
  unfolding first_active_find find_Some_iff by auto

lemma first_active_None: "first_active ls = None \<longleftrightarrow> (\<forall>l \<in> set ls. \<not> active l)"
  by (auto simp: first_active_find find_None_iff)

lemma find_null_duid [simp]: "findIA_NALeaseByDUID_IAID M None iaid = Ok None"
  by (simp add: findIA_NALeaseByDUID_IAID_def)

text \<open>
  What the callers rely on: the documented behaviour of the database (only leases of the
  type, client and identifier asked for come back) carries over to the lease found.
\<close>

locale lease_db =
  fixes M :: "'j lease_mgr"
  assumes lookup_matches: "getLeases6 M t d i = Ok ls \<Longrightarrow> l \<in> set ls \<Longrightarrow>
    l_type l = t \<and> l_duid l = Some d \<and> l_iaid l = i"
begin

lemma found_lease:
  assumes "findIA_NALeaseByDUID_IAID M d i = Ok (Some l)"
  shows "l_type l = TYPE_NA \<and> l_duid l = d \<and> l_iaid l = i \<and> active l"
proof -
  from assms obtain k ls where k: "d = Some k" "getLeases6 M TYPE_NA k i = Ok ls" "first_active ls = Some l"
    by (auto simp: findIA_NALeaseByDUID_IAID_def rmap_eq_Ok split: option.splits)
  then have "l \<in> set ls" and "active l" by (auto simp: first_active_Some)
  with lookup_matches [OF k(2)] k(1) show ?thesis by simp
qed

end

text \<open>A database held as a list of leases with their subnets, for the witnesses.\<close>

definition list_db :: "(subnet_id \<times> lease) list \<Rightarrow> 'j lease_mgr" where
  "list_db ls = \<lparr>
     getLeases6 = (\<lambda>t d i. Ok (filter (\<lambda>l. l_type l = t \<and> l_duid l = Some d \<and> l_iaid l = i) (map snd ls))),
     getLeases6_subnet = (\<lambda>s. Ok (map snd (filter (\<lambda>(s', l). s' = s) ls)))\<rparr>"

lemma list_db_sel [simp]:
  "getLeases6 (list_db ls) t d i = Ok (filter (\<lambda>l. l_type l = t \<and> l_duid l = Some d \<and> l_iaid l = i) (map snd ls))"
  "getLeases6_subnet (list_db ls) s = Ok (map snd (filter (\<lambda>(s', l). s' = s) ls))"
  by (simp_all add: list_db_def)

interpretation listdb: lease_db "list_db ls"
  by unfold_locales auto

section \<open>Properties\<close>

text \<open>C28: on a database that answers a query only with leases of the type, client and identifier
  asked for, the lease found for a client is an IA_NA lease of that client and identifier that is
  neither reclaimed nor declined, and nothing is found exactly when the client has no DUID or all
  the leases the database returns are reclaimed or declined.\<close>

theorem find_lease_correct:
  assumes "lease_db M"
  shows "(findIA_NALeaseByDUID_IAID M d i = Ok (Some l) \<longrightarrow>
      l_type l = TYPE_NA \<and> l_duid l = d \<and> l_iaid l = i \<and> active l) \<and>
    (findIA_NALeaseByDUID_IAID M d i = Ok None \<longleftrightarrow>
      d = None \<or> (\<exists>k ls. d = Some k \<and> getLeases6 M TYPE_NA k i = Ok ls \<and> (\<forall>l \<in> set ls. \<not> active l)))"
  using lease_db.found_lease [OF assms, of d i l]
  by (auto simp: findIA_NALeaseByDUID_IAID_def rmap_eq_Ok first_active_None eq_commute [of None]
      split: option.splits)

definition sample_lease :: "lease_type \<Rightarrow> ioaddr \<Rightarrow> bool \<Rightarrow> lease" where
  "sample_lease t a reclaimed = \<lparr>l_addr = a, l_prefixlen = (if t = TYPE_PD then 56 else 128), l_iaid = 7,
     l_duid = Some [0, 1, 2], l_hwaddr = Some \<lparr>hw_bytes = [1, 2, 3, 4, 5, 6], hw_type = 1, hw_source = 0\<rparr>,
     l_type = t, l_stateExpiredReclaimed = reclaimed, l_stateDeclined = False\<rparr>"

lemma sample_lease_sel [simp]:
  "l_addr (sample_lease t a r) = a" "l_iaid (sample_lease t a r) = 7"
  "l_prefixlen (sample_lease t a r) = (if t = TYPE_PD then 56 else 128)"
  "l_duid (sample_lease t a r) = Some [0, 1, 2]" "l_type (sample_lease t a r) = t"
  "l_hwaddr (sample_lease t a r) = Some \<lparr>hw_bytes = [1, 2, 3, 4, 5, 6], hw_type = 1, hw_source = 0\<rparr>"
  "l_stateExpiredReclaimed (sample_lease t a r) = r" "l_stateDeclined (sample_lease t a r) = False"
  by (simp_all add: sample_lease_def)

lemma find_lease_correct_witness:
  "findIA_NALeaseByDUID_IAID (list_db [(1, sample_lease TYPE_NA 5 True), (1, sample_lease TYPE_NA 6 False)])
      (Some [0, 1, 2]) 7 = Ok (Some (sample_lease TYPE_NA 6 False)) \<and>
    l_type (sample_lease TYPE_NA 6 False) = TYPE_NA \<and> l_iaid (sample_lease TYPE_NA 6 False) = 7"
proof -
  let ?M = "list_db [(1, sample_lease TYPE_NA 5 True), (1, sample_lease TYPE_NA 6 False)]"
  have f: "findIA_NALeaseByDUID_IAID ?M (Some [0, 1, 2]) 7 = Ok (Some (sample_lease TYPE_NA 6 False))"
    by (simp add: findIA_NALeaseByDUID_IAID_def)
  with find_lease_correct [OF listdb.lease_db_axioms,
      of "[(1, sample_lease TYPE_NA 5 True), (1, sample_lease TYPE_NA 6 False)]" "Some [0, 1, 2]" 7
        "sample_lease TYPE_NA 6 False"]
  show ?thesis by blast
qed

end
