(* ===== verification/Conn_Params.thy ===== *)
theory Conn_Params
  imports Kea_Lib
begin

text \<open>
  \<^verbatim>\<open>NXOSConnectionConfigParams::parseConfig\<close> of \<^verbatim>\<open>src/nxos_connection_params.cpp\<close>: every
  check of the configuration map in the order of the code, each with the error it throws.
  Lemmas: what an accepted configuration guarantees, which configurations are accepted, and
  the inputs on which the code does not do what its own messages say.
\<close>

record conn_params =
  cp_url :: url
  cp_auth :: auth
  cp_cert_file :: "string option"
  cp_key_file :: "string option"
  heartbeatIntervalSecs :: uint64

definition field_error :: "string \<Rightarrow> string \<Rightarrow> ('j, 'a) outcome" where
  "field_error field_name msg =
     Throw (ConfigError (''Field \"'' @ field_name @ ''\" in \"connection-params\" '' @ msg))"

text \<open>The lookup of a string member of the credentials map, as it is repeated for each of them.\<close>

definition credential_string ::
    "('j, 'e) env \<Rightarrow> (string \<Rightarrow> 'e option) \<Rightarrow> string \<Rightarrow> ('j, string) outcome" where
  "credential_string V creds key =
     (case creds key of
        None \<Rightarrow> field_error key ''must not be null''
      | Some x \<Rightarrow> if e_type (el V) x \<noteq> E_string then field_error key ''must be a string''
                  else e_stringValue (el V) x)"

definition parse_host :: "('j, 'e) env \<Rightarrow> 'e \<Rightarrow> ('j, url) outcome" where
  "parse_host V params =
     rbind (e_find (el V) params ''host'') (\<lambda>hostElement. case hostElement of
       None \<Rightarrow> field_error ''host'' ''must not be null''
     | Some h \<Rightarrow>
         if e_type (el V) h \<noteq> E_string then field_error ''host'' ''must be a string''
         else rbind (e_stringValue (el V) h) (\<lambda>hostStr.
           let url = parse_url V hostStr in
           if \<not> url_valid url
           then field_error ''host'' (''must be a valid URL'' @ '': '' @ url_error url)
           else Ok url))"

text \<open>
  The check of the type is guarded by the presence of the element, the read of its value
  is not.  The signed value is stored in an unsigned variable, which is then compared with 0.
\<close>

definition parse_interval :: "('j, 'e) env \<Rightarrow> 'e \<Rightarrow> ('j, uint64) outcome" where
  "parse_interval V params =
     rbind (e_find (el V) params ''heartbeat-interval'') (\<lambda>heartbeatIntervalElement.
     case heartbeatIntervalElement of
       Some h \<Rightarrow>
         if e_type (el V) h \<noteq> E_integer then field_error ''heartbeat-interval'' ''must be a integer''
         else rbind (e_intValue (el V) h) (\<lambda>intervalTimer.
           if intervalTimer \<le> 0
           then field_error ''heartbeat-interval'' ''must be a non-zero non-negative integer''
           else Ok intervalTimer)
     | None \<Rightarrow> Stuck NullDeref)"

definition parse_credentials :: "('j, 'e) env \<Rightarrow> 'e \<Rightarrow> ('j, string \<Rightarrow> 'e option) outcome" where
  "parse_credentials V params =
     rbind (e_find (el V) params ''credentials'') (\<lambda>c. case c of
       None \<Rightarrow> field_error ''credentials'' ''must not be null''
     | Some c \<Rightarrow> if e_type (el V) c \<noteq> E_map then field_error ''credentials'' ''must be a map''
                  else e_mapValue (el V) c)"

text \<open>
  The certificate block.  The key file is looked up, but the element whose type is then
  checked is the certificate's; neither value is stored.
\<close>

definition check_certificate :: "('j, 'e) env \<Rightarrow> (string \<Rightarrow> 'e option) \<Rightarrow> ('j, unit) outcome" where
  "check_certificate V creds =
     (case creds ''certificate'' of
        None \<Rightarrow> field_error ''certificate'' ''must not be null''
      | Some cert \<Rightarrow>
          if e_type (el V) cert \<noteq> E_string then field_error ''certificate'' ''must be a string''
          else case creds ''keyfile'' of
            None \<Rightarrow> field_error ''keyfile'' ''must not be null''
          | Some _ \<Rightarrow>
              if e_type (el V) cert \<noteq> E_string then field_error ''keyfile'' ''must be a string''
              else Ok ())"

definition parseConfig :: "('j, 'e) env \<Rightarrow> 'e option \<Rightarrow> ('j, conn_params) outcome" where
  "parseConfig V mgmtConnParams =
     (case mgmtConnParams of
        None \<Rightarrow> Throw (ConfigError ''NXOS DHCP6 Exporter configuration must not be null'')
      | Some params \<Rightarrow>
          rbind (parse_host V params) (\<lambda>url.
          rbind (parse_interval V params) (\<lambda>intervalTimer.
          rbind (parse_credentials V params) (\<lambda>creds.
          rbind (credential_string V creds ''login'') (\<lambda>login.
          rbind (credential_string V creds ''password'') (\<lambda>password.
          rbind (make_auth V login password) (\<lambda>auth.
          rbind (if url_scheme url = HTTPS then check_certificate V creds else Ok ()) (\<lambda>_.
          Ok \<lparr>cp_url = url, cp_auth = auth, cp_cert_file = None, cp_key_file = None,
              heartbeatIntervalSecs = intervalTimer\<rparr>))))))))"

section \<open>Lemmas\<close>

text \<open>The members a configuration needs, as the library's accessors show them.\<close>

definition has_host :: "('j, 'e) env \<Rightarrow> 'e \<Rightarrow> string \<Rightarrow> bool" where
  "has_host V p s \<longleftrightarrow> (\<exists>h. e_find (el V) p ''host'' = Ok (Some h) \<and> e_type (el V) h = E_string \<and>
     e_stringValue (el V) h = Ok s)"

definition has_interval :: "('j, 'e) env \<Rightarrow> 'e \<Rightarrow> uint64 \<Rightarrow> bool" where
  "has_interval V p v \<longleftrightarrow> (\<exists>h. e_find (el V) p ''heartbeat-interval'' = Ok (Some h) \<and>
     e_type (el V) h = E_integer \<and> e_intValue (el V) h = Ok v)"

definition has_credentials :: "('j, 'e) env \<Rightarrow> 'e \<Rightarrow> (string \<Rightarrow> 'e option) \<Rightarrow> bool" where
  "has_credentials V p creds \<longleftrightarrow> (\<exists>c. e_find (el V) p ''credentials'' = Ok (Some c) \<and>
     e_type (el V) c = E_map \<and> e_mapValue (el V) c = Ok creds)"

definition string_entry :: "('j, 'e) env \<Rightarrow> (string \<Rightarrow> 'e option) \<Rightarrow> string \<Rightarrow> string \<Rightarrow> bool" where
  "string_entry V creds k s \<longleftrightarrow>
     (\<exists>x. creds k = Some x \<and> e_type (el V) x = E_string \<and> e_stringValue (el V) x = Ok s)"

lemma parse_host_ok: "has_host V p s \<Longrightarrow> url_valid (parse_url V s) \<Longrightarrow> parse_host V p = Ok (parse_url V s)"
  by (auto simp: has_host_def parse_host_def Let_def)

lemma parse_host_OkD: "parse_host V p = Ok u \<Longrightarrow> \<exists>s. has_host V p s \<and> u = parse_url V s \<and> url_valid u"
  by (auto simp: has_host_def parse_host_def Let_def rbind_eq_Ok field_error_def
      split: option.splits if_splits)

lemma parse_interval_eq:
  "has_interval V p v \<Longrightarrow> parse_interval V p =
    (if v = 0 then field_error ''heartbeat-interval'' ''must be a non-zero non-negative integer'' else Ok v)"
  by (auto simp: has_interval_def parse_interval_def)

lemma parse_interval_OkD: "parse_interval V p = Ok v \<Longrightarrow> has_interval V p v \<and> v \<noteq> 0"
  by (auto simp: has_interval_def parse_interval_def rbind_eq_Ok field_error_def
      split: option.splits if_splits)

lemma parse_credentials_ok: "has_credentials V p creds \<Longrightarrow> parse_credentials V p = Ok creds"
  by (auto simp: has_credentials_def parse_credentials_def)

lemma parse_credentials_OkD: "parse_credentials V p = Ok creds \<Longrightarrow> has_credentials V p creds"
  by (auto simp: has_credentials_def parse_credentials_def rbind_eq_Ok field_error_def
      split: option.splits if_splits)

lemma credential_string_iff: "credential_string V creds k = Ok s \<longleftrightarrow> string_entry V creds k s"
  by (auto simp: credential_string_def string_entry_def field_error_def split: option.splits)

lemma check_certificate_iff:
  "check_certificate V creds = Ok () \<longleftrightarrow>
    (\<exists>x. creds ''certificate'' = Some x \<and> e_type (el V) x = E_string) \<and> creds ''keyfile'' \<noteq> None"
  by (auto simp: check_certificate_def field_error_def split: option.splits)

text \<open>Everything an acceptable configuration holds.\<close>

definition config_accepted ::
    "('j, 'e) env \<Rightarrow> 'e \<Rightarrow> url \<Rightarrow> uint64 \<Rightarrow> auth \<Rightarrow> bool" where
  "config_accepted V p u v a \<longleftrightarrow>
     (\<exists>s. has_host V p s \<and> u = parse_url V s) \<and> url_valid u \<and> has_interval V p v \<and> v \<noteq> 0 \<and>
     (\<exists>creds. has_credentials V p creds \<and>
       (\<exists>login password. string_entry V creds ''login'' login \<and> string_entry V creds ''password'' password \<and>
          make_auth V login password = Ok a) \<and>
       (url_scheme u = HTTPS \<longrightarrow>
          (\<exists>x. creds ''certificate'' = Some x \<and> e_type (el V) x = E_string) \<and> creds ''keyfile'' \<noteq> None))"

definition parsed_params :: "url \<Rightarrow> uint64 \<Rightarrow> auth \<Rightarrow> conn_params" where
  "parsed_params u v a = \<lparr>cp_url = u, cp_auth = a, cp_cert_file = None, cp_key_file = None,
     heartbeatIntervalSecs = v\<rparr>"

lemma parseConfig_acceptedI:
  assumes "config_accepted V p u v a"
  shows "parseConfig V (Some p) = Ok (parsed_params u v a)"
proof -
  obtain s creds login password where
    r: "has_host V p s" "u = parse_url V s" "url_valid (parse_url V s)" "has_interval V p v" "v \<noteq> 0"
      "has_credentials V p creds" "credential_string V creds ''login'' = Ok login"
      "credential_string V creds ''password'' = Ok password" "make_auth V login password = Ok a"
      "url_scheme u = HTTPS \<longrightarrow> check_certificate V creds = Ok ()"
    using assms unfolding config_accepted_def by (auto simp: credential_string_iff check_certificate_iff)
  show ?thesis
    unfolding parseConfig_def parsed_params_def
    using r(10) by (simp add: parse_host_ok [OF r(1,3)] parse_interval_eq [OF r(4)]
        parse_credentials_ok [OF r(6)] r(2,5,7,8,9))
qed

lemma parseConfig_acceptedD:
  assumes "parseConfig V (Some p) = Ok c"
  shows "\<exists>u v a. config_accepted V p u v a \<and> c = parsed_params u v a"
proof -
  from assms obtain u v creds login password a where
    r: "parse_host V p = Ok u" "parse_interval V p = Ok v" "parse_credentials V p = Ok creds"
      "string_entry V creds ''login'' login" "string_entry V creds ''password'' password"
      "make_auth V login password = Ok a"
      "(if url_scheme u = HTTPS then check_certificate V creds else Ok ()) = Ok ()"
      "c = parsed_params u v a"
    by (auto simp: parseConfig_def rbind_eq_Ok credential_string_iff parsed_params_def)
  have "url_scheme u = HTTPS \<longrightarrow>
      (\<exists>x. creds ''certificate'' = Some x \<and> e_type (el V) x = E_string) \<and> creds ''keyfile'' \<noteq> None"
    using r(7) by (cases "url_scheme u = HTTPS") (simp_all add: check_certificate_iff)
  then have "config_accepted V p u v a"
    unfolding config_accepted_def
    using parse_host_OkD [OF r(1)] parse_interval_OkD [OF r(2)] parse_credentials_OkD [OF r(3)] r(4,5,6)
    by blast
  with r(8) show ?thesis by blast
qed

section \<open>Properties\<close>

text \<open>C17: parsing accepts a configuration exactly when the host is a string that is a valid URL, the
  heartbeat interval an integer other than 0, the credentials a map with a string login and a string
  password that the authentication object admits, and, for HTTPS, a string certificate and a key file
  entry are present; the parsed parameters are those values, with no certificate and no key file.\<close>

theorem parseConfig_accepts_iff:
  "parseConfig V (Some p) = Ok c \<longleftrightarrow> (\<exists>u v a. config_accepted V p u v a \<and> c = parsed_params u v a)"
  by (auto simp: parseConfig_acceptedI dest: parseConfig_acceptedD)

text \<open>A configuration with a valid host and no heartbeat interval makes the parser read the value
  of a null element: the default of 5 seconds is never used.\<close>

theorem interval_missing_undefined:
  assumes "has_host V p s" and "url_valid (parse_url V s)" and "e_find (el V) p ''heartbeat-interval'' = Ok None"
  shows "parseConfig V (Some p) = Stuck NullDeref"
  by (simp add: parseConfig_def parse_host_ok [OF assms(1,2)] parse_interval_def assms(3))

definition sample_config :: "string \<Rightarrow> uint64 option \<Rightarrow> (string \<times> kelem) list \<Rightarrow> kelem" where
  "sample_config host interval creds = KMap
     ([(''host'', KStr host)] @ (case interval of Some v \<Rightarrow> [(''heartbeat-interval'', KInt v)] | None \<Rightarrow> []) @
      [(''credentials'', KMap ([(''login'', KStr ''admin''), (''password'', KStr ''secret'')] @ creds))])"

lemma interval_missing_undefined_witness:
  "parseConfig (std_env (std_json True (\<lambda>s. None))) (Some (sample_config ''http://switch'' None [])) = Stuck NullDeref"
  by (rule interval_missing_undefined [where s = "''http://switch''"])
    (simp_all add: has_host_def sample_config_def std_url_def)

text \<open>Over HTTPS a key file entry of any type is accepted as long as the certificate is a string,
  and both are dropped: the parsed parameters carry neither.\<close>

theorem keyfile_type_unchecked:
  assumes "has_host V p s" and "url_valid (parse_url V s)" and "url_scheme (parse_url V s) = HTTPS"
    and "has_interval V p v" and "v \<noteq> 0" and "has_credentials V p creds"
    and "string_entry V creds ''login'' login" and "string_entry V creds ''password'' password"
    and "make_auth V login password = Ok a"
    and "string_entry V creds ''certificate'' cert" and "creds ''keyfile'' = Some anything"
  shows "\<exists>c. parseConfig V (Some p) = Ok c \<and> cp_cert_file c = None \<and> cp_key_file c = None"
proof -
  have "config_accepted V p (parse_url V s) v a"
    using assms unfolding config_accepted_def string_entry_def by blast
  then show ?thesis by (auto simp: parsed_params_def dest!: parseConfig_acceptedI)
qed

lemma keyfile_type_unchecked_witness:
  "\<exists>c. parseConfig (std_env (std_json True (\<lambda>s. None)))
     (Some (sample_config ''https://switch'' (Some 5) [(''certificate'', KStr ''c.pem''), (''keyfile'', KInt 1)])) = Ok c
    \<and> cp_cert_file c = None \<and> cp_key_file c = None"
  by (rule keyfile_type_unchecked [where s = "''https://switch''" and v = 5 and login = "''admin''"
        and creds = "map_of [(''login'', KStr ''admin''), (''password'', KStr ''secret''),
           (''certificate'', KStr ''c.pem''), (''keyfile'', KInt 1)]"
        and password = "''secret''" and cert = "''c.pem''" and anything = "KInt 1"
        and a = "\<lparr>auth_secret = ''admin:secret''\<rparr>"])
    (simp_all add: has_host_def has_interval_def has_credentials_def string_entry_def sample_config_def std_url_def)

end
