(* ===== verification/Mgmt_Client.thy ===== *)
theory Mgmt_Client
  imports Http_Client Nxos_Structs Lease_Utils Conn_Params
begin

text \<open>
  \<^verbatim>\<open>NXOSManagementClient\<close> of \<^verbatim>\<open>src/nxos_management_client.cpp\<close>, with \<^verbatim>\<open>ManagementClient\<close> of
  \<^verbatim>\<open>src/management_client.cpp\<close>: the commands it writes, the requests it posts for a route, and
  one definition for every lambda that handles a response.  Lemmas: what each operation posts and
  logs on every branch, which requests follow from the switch's answers, and when a route is
  reported as applied or removed.
\<close>

section \<open>Names of VLAN interfaces\<close>

definition to_lower_ascii :: "char \<Rightarrow> char" where
  "to_lower_ascii c = (let n = (of_char c :: nat) in if 65 \<le> n \<and> n \<le> 90 then char_of (n + 32) else c)"

text \<open>The whole name matches \<^verbatim>\<open>(vlan)(\d+)\<close>, letter case ignored.\<close>

definition isValidVlanName :: "string \<Rightarrow> bool" where
  "isValidVlanName ifName \<longleftrightarrow> map to_lower_ascii (take 4 ifName) = ''vlan'' \<and>
     drop 4 ifName \<noteq> [] \<and> list_all is_digit (drop 4 ifName)"

section \<open>Commands\<close>

definition EndpointName :: string where
  "EndpointName = ''/ins''"

definition createApplyRouteIpv6Command :: "string \<Rightarrow> string \<Rightarrow> string" where
  "createApplyRouteIpv6Command srcSubnet dstAddr = ''ipv6 route '' @ srcSubnet @ '' '' @ dstAddr"

definition createMappingVlanAddrToVlanIdCommand :: "string \<Rightarrow> string" where
  "createMappingVlanAddrToVlanIdCommand vlanAddr = ''show ipv6 route '' @ vlanAddr"

definition createShowIPv6NeighbourCommand :: string where
  "createShowIPv6NeighbourCommand = ''show ipv6 neighbor''"

definition createRemoveRouteIpv6Command :: "string \<Rightarrow> string \<Rightarrow> string" where
  "createRemoveRouteIpv6Command srcSubnet dstAddr = ''no ipv6 route '' @ srcSubnet @ '' '' @ dstAddr"

definition createRemoveNDCacheEntryIpv6Command :: "string \<Rightarrow> string" where
  "createRemoveNDCacheEntryIpv6Command vlanIfName = ''clear ipv6 neighbor '' @ vlanIfName @ '' force-delete''"

section \<open>The client\<close>

record mgmt_client =
  mc_params :: conn_params
  mc_httpClient :: "http_client option" \<comment> \<open>\<open>None\<close> before \<^verbatim>\<open>startClient\<close>\<close>

definition new_mgmt_client :: "('j, 'e) env \<Rightarrow> 'e option \<Rightarrow> ('j, mgmt_client) outcome" where
  "new_mgmt_client V mgmtConnParams =
     rmap (\<lambda>p. \<lparr>mc_params = p, mc_httpClient = None\<rparr>) (parseConfig V mgmtConnParams)"

definition ManagementClient_init :: "('j, 'e) env \<Rightarrow> string \<Rightarrow> 'e option \<Rightarrow> ('j, mgmt_client) outcome" where
  "ManagementClient_init V mgmtName mgmtConnParams =
     (if mgmtName = ''nxos'' then new_mgmt_client V mgmtConnParams
      else Throw (InvalidParameter (''Failed to find management client with name \"'' @ mgmtName @ ''\"'')))"

definition startClient :: "mgmt_client \<Rightarrow> ('j, mgmt_client) outcome" where
  "startClient c =
     (if url_scheme (cp_url (mc_params c)) = HTTPS
      then Throw (NotImplemented ''https tls context init not implemented'')
      else Ok (c\<lparr>mc_httpClient := Some (start_threads (addBasicAuth (Some (cp_auth (mc_params c))) new_http_client))\<rparr>))"

definition connectionName :: "mgmt_client \<Rightarrow> string" where
  "connectionName c = url_text (cp_url (mc_params c))"

definition clientConnectHandler :: "'ec \<Rightarrow> int32 \<Rightarrow> bool" where
  "clientConnectHandler ec tcpNativeFd = True"

text \<open>The hash of a hardware address: a hash of its bytes only.\<close>

definition HWAddrHashHelper :: "(uint8 list \<Rightarrow> uint64) \<Rightarrow> hwaddr \<Rightarrow> uint64" where
  "HWAddrHashHelper hash hwAddr = hash (hw_bytes hwAddr)"

text \<open>
  A request of numbered commands, posted to the endpoint without a TLS context.  The pointer
  to the HTTP client is followed before the body is built.
\<close>

definition post_commands ::
    "('j, 'e) env \<Rightarrow> mgmt_client \<Rightarrow> (int32 \<times> string) list \<Rightarrow> handler \<Rightarrow> ('j, ('e, 'z) world_scheme, unit) prog" where
  "post_commands V c commands h =
     (if mc_httpClient c = None then lift (Stuck NullDeref)
      else mbind (lift (createRequestFromCommands V commands)) (\<lambda>body.
        sendRequest (mc_httpClient c) (cp_url (mc_params c)) EndpointName False body h default_timeout))"

section \<open>Installing a route\<close>

definition asyncLookupAddressInternal ::
    "('j, 'e) env \<Rightarrow> mgmt_client \<Rightarrow> string \<Rightarrow> string \<Rightarrow> lookup_handler
      \<Rightarrow> ('j, ('e, 'z) world_scheme, unit) prog" where
  "asyncLookupAddressInternal V c lookupAddrStr lookupAddrType responseHandler =
     post_commands V c [(1, createMappingVlanAddrToVlanIdCommand lookupAddrStr)]
       (AddressLookup lookupAddrStr lookupAddrType responseHandler)"

definition relay_address :: string where
  "relay_address = ''RELAY_ADDRESS''"

definition send_route ::
    "('j, 'e) env \<Rightarrow> mgmt_client \<Rightarrow> route_export \<Rightarrow> ('j, ('e, 'z) world_scheme, unit) prog" where
  "send_route V c route = (let ty = toDHCPv6IATypeString route in
     case routeInfo route of
       IA_NAInfo vlan na \<Rightarrow>
         asyncLookupAddressInternal V c (host_text V vlan) relay_address
           (ApplyVlan (host_text V na) (host_text V vlan) ty)
     | IA_NAFast vlanIfName na \<Rightarrow>
         post_commands V c [(1, createApplyRouteIpv6Command (host_text V na) vlanIfName)]
           (RouteApply ty (host_text V na) vlanIfName)
     | IA_PDInfo na pd len \<Rightarrow>
         post_commands V c [(1, createApplyRouteIpv6Command (subnet_text V pd len) (toText V na))]
           (RouteApply ty (subnet_text V pd len) (toText V na))
     | _ \<Rightarrow> throw (NotImplemented ''not implemented IA route info''))"

definition sendRoutesToSwitch ::
    "('j, 'e) env \<Rightarrow> mgmt_client \<Rightarrow> route_export \<Rightarrow> ('j, ('e, 'z) world_scheme, unit) prog" where
  "sendRoutesToSwitch V c route =
     catching (send_route V c route) (\<lambda>ex. log_msg ROUTE_APPLY_UNKNOWN_ERROR [connectionName c, what ex])"

section \<open>Removing a route\<close>

text \<open>A prefix whose route is removed without its next hop: the address lease of the client, if there is
  one, or a lookup on the switch.\<close>

definition remove_prefix_fuzzy ::
    "('j, 'e) env \<Rightarrow> 'j lease_mgr \<Rightarrow> mgmt_client \<Rightarrow> string \<Rightarrow> duid option \<Rightarrow> uint32 \<Rightarrow> string
      \<Rightarrow> ('j, ('e, 'z) world_scheme, unit) prog" where
  "remove_prefix_fuzzy V M c dhcpv6TypeStr duid iaid srcIA_PDSubnetStr =
     mbind (lift (findIA_NALeaseByDUID_IAID M duid iaid)) (\<lambda>leaseIA_NA.
     case leaseIA_NA of
       Some l \<Rightarrow>
         post_commands V c [(1, createRemoveRouteIpv6Command srcIA_PDSubnetStr (host_text V (l_addr l)))]
           (RouteRemove dhcpv6TypeStr srcIA_PDSubnetStr (host_text V (l_addr l)))
     | None \<Rightarrow>
         asyncLookupAddressInternal V c srcIA_PDSubnetStr dhcpv6TypeStr (FuzzyHop srcIA_PDSubnetStr dhcpv6TypeStr))"

definition removeRoutesFromSwitch ::
    "('j, 'e) env \<Rightarrow> 'j lease_mgr \<Rightarrow> mgmt_client \<Rightarrow> route_export \<Rightarrow> ('j, ('e, 'z) world_scheme, unit) prog" where
  "removeRoutesFromSwitch V M c route = (let ty = toDHCPv6IATypeString route in
     case routeInfo route of
       IA_NAInfo vlan na \<Rightarrow>
         asyncLookupAddressInternal V c (host_text V vlan) relay_address
           (RemoveVlan (host_text V na) (host_text V vlan) ty)
     | IA_PDInfo na pd len \<Rightarrow>
         post_commands V c [(1, createRemoveRouteIpv6Command (subnet_text V pd len) (toText V na))]
           (RouteRemove ty (subnet_text V pd len) (toText V na))
     | IA_NAInfoFuzzyRemove na \<Rightarrow>
         asyncLookupAddressInternal V c (host_text V na) ty (FuzzyVlan (host_text V na) ty)
     | IA_PDInfoFuzzyRemove pd len \<Rightarrow>
         remove_prefix_fuzzy V M c ty (re_duid route) (re_iaid route) (subnet_text V pd len)
     | IA_NAFast _ _ \<Rightarrow> throw (NotImplemented ''not implemented IA route info''))"

section \<open>Reading a lookup\<close>

definition not_exactly_one :: "string \<Rightarrow> ('j, 'a) outcome" where
  "not_exactly_one field =
     Throw (BadValue (''field \"'' @ field @ ''\" of response does not contain exactly 1 item''))"

text \<open>
  The checks of \<open>TABLE_vrf\<close> and \<open>TABLE_addrf\<close>.  The check of \<open>TABLE_prefix\<close>,
  \<^verbatim>\<open>!has_value() && size() != 1\<close>, dereferences the optional exactly when it is disengaged and
  lets every engaged one pass.
\<close>

definition lookup_addr :: "route_lookup \<Rightarrow> ('j, row_addr) outcome" where
  "lookup_addr routeLookup = (case table_vrf routeLookup of
     [vrfRow] \<Rightarrow> (case table_addrf vrfRow of
         [addrfRow] \<Rightarrow> Ok addrfRow
       | _ \<Rightarrow> not_exactly_one ''TABLE_addrf'')
   | _ \<Rightarrow> not_exactly_one ''TABLE_vrf'')"

definition addr_prefix :: "row_addr \<Rightarrow> ('j, row_prefix) outcome" where
  "addr_prefix addrfRow = (case table_prefix addrfRow of
     None \<Rightarrow> Stuck OptionalDeref
   | Some [] \<Rightarrow> Stuck OutOfBounds
   | Some (prefixRow # _) \<Rightarrow> Ok prefixRow)"

definition prefix_path :: "row_prefix \<Rightarrow> ('j, row_path) outcome" where
  "prefix_path prefixRow = (case table_path prefixRow of
     [path] \<Rightarrow> Ok path
   | _ \<Rightarrow> Throw (BadValue ''field \"TABLE_path\" does not contain exactly 1 item''))"

definition lookup_path :: "route_lookup \<Rightarrow> ('j, row_path) outcome" where
  "lookup_path routeLookup =
     rbind (rbind (lookup_addr routeLookup) addr_prefix) prefix_path"

definition find_or_throw :: "('a \<Rightarrow> bool) \<Rightarrow> 'a option list \<Rightarrow> string \<Rightarrow> ('j, 'a) outcome" where
  "find_or_throw p xs msg = (case find_some p xs of Some x \<Rightarrow> Ok x | None \<Rightarrow> Throw (BadValue msg))"

definition vlan_of_lookup :: "route_lookup \<Rightarrow> ('j, string) outcome" where
  "vlan_of_lookup routeLookup = rbind (lookup_path routeLookup) (\<lambda>path.
     find_or_throw (\<lambda>_. True) (ifname path) ''vlan interface id is empty'')"

definition fuzzy_vlan_of_lookup :: "route_lookup \<Rightarrow> ('j, string) outcome" where
  "fuzzy_vlan_of_lookup response = rbind (lookup_path response) (\<lambda>path.
     find_or_throw isValidVlanName (ifname path) ''can't find vlan interface id'')"

definition hop_of_lookup :: "route_lookup \<Rightarrow> ('j, string) outcome" where
  "hop_of_lookup response = rbind (lookup_path response) (\<lambda>path.
     find_or_throw (\<lambda>_. True) (ipnexthop path) ''can't find IA_NA address'')"

section \<open>Handling a lookup\<close>

text \<open>The two \<^verbatim>\<open>catch\<close> clauses around the extraction of the interface name.\<close>

definition mapping_errors ::
    "mgmt_client \<Rightarrow> ('j, string) outcome \<Rightarrow> (string \<Rightarrow> ('j, ('e, 'z) world_scheme, unit) prog)
      \<Rightarrow> ('j, ('e, 'z) world_scheme, unit) prog" where
  "mapping_errors c r continue = (case r of
     Ok vlanIfName \<Rightarrow> continue vlanIfName
   | Throw (BadValue m) \<Rightarrow> log_msg RESPONSE_VLAN_ADDR_MAPPING_ERROR [connectionName c, m]
   | Throw e \<Rightarrow> log_msg RESPONSE_PARSE_ERROR [connectionName c, ''RouteLookupResponse'', what e]
   | Stuck u \<Rightarrow> lift (Stuck u))"

definition apply_vlan ::
    "('j, 'e) env \<Rightarrow> mgmt_client \<Rightarrow> string \<Rightarrow> string \<Rightarrow> route_lookup \<Rightarrow> ('j, ('e, 'z) world_scheme, unit) prog" where
  "apply_vlan V c iaNAAddrStr dhcpv6TypeStr routeLookup =
     mapping_errors c (vlan_of_lookup routeLookup) (\<lambda>vlanIfName.
       post_commands V c [(1, createApplyRouteIpv6Command iaNAAddrStr vlanIfName)]
         (RouteApply dhcpv6TypeStr iaNAAddrStr vlanIfName))"

text \<open>The two commands that remove a route to an interface.\<close>

definition post_removal ::
    "('j, 'e) env \<Rightarrow> mgmt_client \<Rightarrow> string \<Rightarrow> string \<Rightarrow> string \<Rightarrow> ('j, ('e, 'z) world_scheme, unit) prog" where
  "post_removal V c iaNAAddrStr dhcpv6TypeStr vlanIfName =
     post_commands V c [(1, createRemoveRouteIpv6Command iaNAAddrStr vlanIfName),
                        (2, createRemoveNDCacheEntryIpv6Command vlanIfName)]
       (RouteRemove dhcpv6TypeStr iaNAAddrStr vlanIfName)"

definition remove_vlan ::
    "('j, 'e) env \<Rightarrow> mgmt_client \<Rightarrow> string \<Rightarrow> string \<Rightarrow> route_lookup \<Rightarrow> ('j, ('e, 'z) world_scheme, unit) prog" where
  "remove_vlan V c iaNAAddrStr dhcpv6TypeStr routeLookup =
     mapping_errors c (vlan_of_lookup routeLookup) (post_removal V c iaNAAddrStr dhcpv6TypeStr)"

definition fuzzy_vlan ::
    "('j, 'e) env \<Rightarrow> mgmt_client \<Rightarrow> string \<Rightarrow> string \<Rightarrow> route_lookup \<Rightarrow> ('j, ('e, 'z) world_scheme, unit) prog" where
  "fuzzy_vlan V c iaNAAddrStr dhcpv6TypeStr response =
     mbind (lift (fuzzy_vlan_of_lookup response)) (post_removal V c iaNAAddrStr dhcpv6TypeStr)"

definition fuzzy_hop ::
    "('j, 'e) env \<Rightarrow> mgmt_client \<Rightarrow> string \<Rightarrow> string \<Rightarrow> route_lookup \<Rightarrow> ('j, ('e, 'z) world_scheme, unit) prog" where
  "fuzzy_hop V c srcIA_PDSubnetStr dhcpv6TypeStr response =
     mbind (lift (hop_of_lookup response)) (\<lambda>iaNAAddrStr.
       post_commands V c [(1, createRemoveRouteIpv6Command srcIA_PDSubnetStr iaNAAddrStr)]
         (RouteRemove dhcpv6TypeStr srcIA_PDSubnetStr iaNAAddrStr))"

fun run_lookup_handler ::
    "('j, 'e) env \<Rightarrow> mgmt_client \<Rightarrow> lookup_handler \<Rightarrow> route_lookup \<Rightarrow> ('j, ('e, 'z) world_scheme, unit) prog" where
  "run_lookup_handler V c (ApplyVlan na link ty) lookup = apply_vlan V c na ty lookup"
| "run_lookup_handler V c (RemoveVlan na link ty) lookup = remove_vlan V c na ty lookup"
| "run_lookup_handler V c (FuzzyVlan na ty) lookup = fuzzy_vlan V c na ty lookup"
| "run_lookup_handler V c (FuzzyHop pd ty) lookup = fuzzy_hop V c pd ty lookup"

text \<open>The first response's \<open>body\<close>; an empty vector is an error.\<close>

definition first_body :: "'j json_lib \<Rightarrow> string \<Rightarrow> 'j response_args \<Rightarrow> ('j, 'j) outcome" where
  "first_body J emptyMsg a = (case ra_response a of
     None \<Rightarrow> Throw (Unexpected emptyMsg)
   | Some [] \<Rightarrow> Throw (Unexpected emptyMsg)
   | Some (r # _) \<Rightarrow> j_sub J (resp_result r) ''body'')"

definition handleAddressLookup ::
    "('j, 'e) env \<Rightarrow> mgmt_client \<Rightarrow> lookup_handler \<Rightarrow> 'j response_args \<Rightarrow> ('j, ('e, 'z) world_scheme, unit) prog" where
  "handleAddressLookup V c h a =
     (case rbind (first_body (nl V) ''received empty response'' a) (RouteLookupResponse_from_json (nl V)) of
        Ok routeLookup \<Rightarrow> run_lookup_handler V c h routeLookup
      | Throw e \<Rightarrow> log_msg RESPONSE_PARSE_ERROR [connectionName c, ''RouteLookupResponse'', what e]
      | Stuck u \<Rightarrow> lift (Stuck u))"

section \<open>The neighbor table\<close>

text \<open>The loop of \<^verbatim>\<open>fromRawCiscoString\<close>; \<open>cnt\<close> counts the characters kept so far.\<close>

fun mac_chars :: "nat \<Rightarrow> string \<Rightarrow> string" where
  "mac_chars cnt [] = []"
| "mac_chars cnt (ch # rawMac) =
     (if ch = CHR ''.'' then mac_chars cnt rawMac
      else (if cnt > 0 \<and> cnt mod 2 = 0 then '':'' else []) @ ch # mac_chars (cnt + 1) rawMac)"

definition fromRawCiscoString :: "('j, 'e) env \<Rightarrow> string \<Rightarrow> ('j, hwaddr) outcome" where
  "fromRawCiscoString V rawMac = hwaddr_fromText V (mac_chars 0 rawMac)"

text \<open>\<^verbatim>\<open>unordered_map\<close>: assignment through \<^verbatim>\<open>operator[]\<close> and \<^verbatim>\<open>find\<close>.\<close>

type_synonym hwaddr_map = "(hwaddr \<times> string) list"

fun hw_put :: "(hwaddr \<Rightarrow> hwaddr \<Rightarrow> bool) \<Rightarrow> hwaddr \<Rightarrow> string \<Rightarrow> hwaddr_map \<Rightarrow> hwaddr_map" where
  "hw_put eq k v [] = [(k, v)]"
| "hw_put eq k v ((k', v') # m) = (if eq k' k then (k', v) # m else (k', v') # hw_put eq k v m)"

fun hw_find :: "(hwaddr \<Rightarrow> hwaddr \<Rightarrow> bool) \<Rightarrow> hwaddr \<Rightarrow> hwaddr_map \<Rightarrow> string option" where
  "hw_find eq k [] = None"
| "hw_find eq k ((k', v') # m) = (if eq k' k then Some v' else hw_find eq k m)"

text \<open>The four nested loops visit the adjacency objects in this order.\<close>

definition adj_objects :: "neighbor_lookup \<Rightarrow> adj_object list" where
  "adj_objects neighborLookup =
     concat (map (\<lambda>vrf. concat (map (\<lambda>afi. concat (map table_object (table_adj afi))) (table_afi vrf)))
       (nb_table_vrf neighborLookup))"

fun collect_mapping :: "('j, 'e) env \<Rightarrow> hwaddr_map \<Rightarrow> adj_object list \<Rightarrow> ('j, hwaddr_map) outcome" where
  "collect_mapping V m [] = Ok m"
| "collect_mapping V m (obj # objs) =
     (if isValidVlanName (intf_out obj)
      then rbind (fromRawCiscoString V (mac obj)) (\<lambda>k.
        collect_mapping V (hw_put (hwaddr_eq V) k (intf_out obj) m) objs)
      else collect_mapping V m objs)"

definition asyncGetHWAddrToInterfaceNameMapping ::
    "('j, 'e) env \<Rightarrow> mgmt_client \<Rightarrow> ('j, ('e, 'z) world_scheme, unit) prog" where
  "asyncGetHWAddrToInterfaceNameMapping V c =
     post_commands V c [(1, createShowIPv6NeighbourCommand)] NeighborMapping"

text \<open>
  The table in the response, and whether it could not be read.  \<^verbatim>\<open>front()\<close> of an empty vector
  is undefined.
\<close>

definition read_neighbors ::
    "('j, 'e) env \<Rightarrow> mgmt_client \<Rightarrow> 'j response_args
      \<Rightarrow> ('j, ('e, 'z) world_scheme, neighbor_lookup \<times> bool) prog" where
  "read_neighbors V c a =
     (case (case ra_exn a of
              Some x \<Rightarrow> Throw (JsonRpcExn x)
            | None \<Rightarrow> (case ra_response a of
                None \<Rightarrow> Stuck NullDeref
              | Some [] \<Rightarrow> Stuck OutOfBounds
              | Some (r # _) \<Rightarrow> rbind (j_sub (nl V) (resp_result r) ''body'')
                                  (NeighborLookupResponse_from_json (nl V)))) of
        Ok nb \<Rightarrow> ret (nb, False)
      | Throw e \<Rightarrow> mseq (log_msg RESPONSE_PARSE_ERROR [connectionName c, ''NeighborLookupResponse'', what e])
                     (ret (\<lparr>nb_table_vrf = []\<rparr>, True))
      | Stuck u \<Rightarrow> lift (Stuck u))"

definition handleNeighborLookup ::
    "('j, 'e) env \<Rightarrow> mgmt_client \<Rightarrow> (hwaddr_map option \<Rightarrow> bool \<Rightarrow> ('j, ('e, 'z) world_scheme, unit) prog)
      \<Rightarrow> 'j response_args \<Rightarrow> ('j, ('e, 'z) world_scheme, unit) prog" where
  "handleNeighborLookup V c handler a =
     (if ra_error a = SUCCESS \<and> ra_status a = 200 then
        mbind (read_neighbors V c a) (\<lambda>(nb, failed).
        mbind (lift (collect_mapping V [] (adj_objects nb))) (\<lambda>m. handler (Some m) failed))
      else handler (Some []) True)"

section \<open>The result of a change\<close>

definition check_route_response :: "('j, 'e) env \<Rightarrow> 'j response_args \<Rightarrow> ('j, unit) outcome" where
  "check_route_response V a =
     (if ra_error a \<noteq> SUCCESS then
        Throw (Unexpected (''error while sending response to the switch: {'' @
          ResponseErrorToString V (ra_error a) @ ''}''))
      else
        rbind (if ra_status a = 200 then Ok ()
               else if ra_status a = 401 then
                 (case ra_exn a of
                    Some x \<Rightarrow> Throw (JsonRpcExn x)
                  | None \<Rightarrow> Throw (Unexpected ''unauthorized request''))
               else (case ra_exn a of Some x \<Rightarrow> Throw (JsonRpcExn x) | None \<Rightarrow> Ok ()))
          (\<lambda>_. if ra_response a = None \<or> ra_response a = Some []
               then Throw (Unexpected ''response must be not empty'') else Ok ()))"

definition handleRouteApply ::
    "('j, 'e) env \<Rightarrow> mgmt_client \<Rightarrow> string \<Rightarrow> string \<Rightarrow> string \<Rightarrow> 'j response_args
      \<Rightarrow> ('j, ('e, 'z) world_scheme, unit) prog" where
  "handleRouteApply V c ty src dst a = (case check_route_response V a of
     Ok _ \<Rightarrow> log_msg ROUTE_APPLY_SUCCESS [connectionName c, ty, src, dst]
   | Throw ex \<Rightarrow> log_msg ROUTE_APPLY_FAILED [connectionName c, ty, src, dst, what ex]
   | Stuck u \<Rightarrow> lift (Stuck u))"

definition handleRouteRemove ::
    "('j, 'e) env \<Rightarrow> mgmt_client \<Rightarrow> string \<Rightarrow> string \<Rightarrow> string \<Rightarrow> 'j response_args
      \<Rightarrow> ('j, ('e, 'z) world_scheme, unit) prog" where
  "handleRouteRemove V c ty src dst a = (case check_route_response V a of
     Ok _ \<Rightarrow> log_msg ROUTE_REMOVE_SUCCESS [connectionName c, ty, src, dst]
   | Throw ex \<Rightarrow> log_msg ROUTE_REMOVE_FAILED [connectionName c, ty, src, dst, what ex]
   | Stuck u \<Rightarrow> lift (Stuck u))"

section \<open>Lemmas on requests\<close>

text \<open>The request a started client posts.\<close>

definition command_request :: "mgmt_client \<Rightarrow> 'e \<Rightarrow> handler \<Rightarrow> 'e request" where
  "command_request c body h = \<lparr>rq_url = cp_url (mc_params c), rq_endpoint = EndpointName, rq_tls = False,
     rq_body = body, rq_handler = h, rq_timeout = default_timeout,
     rq_auth = Option.bind (mc_httpClient c) m_basicAuth\<rparr>"

definition started :: "mgmt_client \<Rightarrow> bool" where
  "started c \<longleftrightarrow> mc_httpClient c \<noteq> None"

lemma startClient_Ok_iff:
  "startClient c = Ok c' \<longleftrightarrow> url_scheme (cp_url (mc_params c)) = HTTP \<and>
     c' = c\<lparr>mc_httpClient := Some (started_client (cp_auth (mc_params c)))\<rparr>"
  by (cases "url_scheme (cp_url (mc_params c))")
    (auto simp: startClient_def)

lemma startClient_started: "startClient c = Ok c' \<Longrightarrow> started c' \<and> mc_params c' = mc_params c"
  by (auto simp: startClient_Ok_iff started_def)

lemma post_commands_started:
  "started c \<Longrightarrow> createRequestFromCommands V cmds = Ok body \<Longrightarrow>
    post_commands V c cmds h w = (Ok (), w\<lparr>posted := posted w @ [command_request c body h]\<rparr>)"
  by (auto simp: post_commands_def started_def command_request_def mbind_def)

lemma post_commands_null: "\<not> started c \<Longrightarrow> post_commands V c cmds h w = (Stuck NullDeref, w)"
  by (simp add: post_commands_def started_def)

lemma post_commands_throws:
  "started c \<Longrightarrow> createRequestFromCommands V cmds = Throw e \<Longrightarrow> post_commands V c cmds h w = (Throw e, w)"
  by (auto simp: post_commands_def started_def mbind_def)

context logging
begin

lemma follows_mapping_errors [follows_intros]:
  "(\<And>x. follows R (k x)) \<Longrightarrow> follows R (mapping_errors c r k)"
  unfolding mapping_errors_def by (cases r) (auto intro: follows_intros split: exn.split)

lemma follows_handleNeighborLookup [follows_intros]:
  "(\<And>m b. follows R (k m b)) \<Longrightarrow> follows R (handleNeighborLookup V c k a)"
  unfolding handleNeighborLookup_def read_neighbors_def by (intro follows_intros)

lemma follows_handleRouteApply [follows_intros]: "follows R (handleRouteApply V c ty src dst a)"
  unfolding handleRouteApply_def by (intro follows_intros)

lemma follows_handleRouteRemove [follows_intros]: "follows R (handleRouteRemove V c ty src dst a)"
  unfolding handleRouteRemove_def by (intro follows_intros)

end

text \<open>The commands of the request that is posted with a response handler.\<close>

fun expects :: "handler \<Rightarrow> (int32 \<times> string) list \<Rightarrow> bool" where
  "expects (RouteApply ty src dst) cmds \<longleftrightarrow> cmds = [(1, createApplyRouteIpv6Command src dst)]"
| "expects (RouteRemove ty src dst) cmds \<longleftrightarrow>
     cmds = [(1, createRemoveRouteIpv6Command src dst)] \<or>
     cmds = [(1, createRemoveRouteIpv6Command src dst), (2, createRemoveNDCacheEntryIpv6Command dst)]"
| "expects (AddressLookup a ty h) cmds \<longleftrightarrow> cmds = [(1, createMappingVlanAddrToVlanIdCommand a)]"
| "expects NeighborMapping cmds \<longleftrightarrow> cmds = [(1, createShowIPv6NeighbourCommand)]"
| "expects HeartbeatResponse cmds \<longleftrightarrow> cmds = [(1, ''show version'')]"

text \<open>
  Relations the operations of a client stay in: messages may be written, and requests posted
  whose commands are the ones their handler is for.
\<close>

locale client_effects = logging R for R :: "('e, 'z) world_scheme \<Rightarrow> ('e, 'z) world_scheme \<Rightarrow> bool" +
  fixes V :: "('j, 'e) env" and c :: mgmt_client
  assumes follows_post_commands: "expects h cmds \<Longrightarrow> h \<noteq> HeartbeatResponse \<Longrightarrow> follows R (post_commands V c cmds h)"
begin

lemma follows_lookup [follows_intros]: "follows R (asyncLookupAddressInternal V c a t h)"
  unfolding asyncLookupAddressInternal_def by (intro follows_post_commands) simp_all

lemma follows_send [follows_intros]: "follows R (sendRoutesToSwitch V c route)"
  unfolding sendRoutesToSwitch_def send_route_def
  by (intro follows_intros follows_post_commands) simp_all

lemma follows_remove [follows_intros]: "follows R (removeRoutesFromSwitch V M c route)"
  unfolding removeRoutesFromSwitch_def remove_prefix_fuzzy_def
  by (intro follows_intros follows_post_commands) simp_all

lemma follows_mapping [follows_intros]: "follows R (asyncGetHWAddrToInterfaceNameMapping V c)"
  unfolding asyncGetHWAddrToInterfaceNameMapping_def by (intro follows_post_commands) simp_all

lemma follows_post_removal [follows_intros]: "follows R (post_removal V c na ty vlan)"
  unfolding post_removal_def by (intro follows_post_commands) simp_all

lemma follows_run_lookup_handler [follows_intros]: "follows R (run_lookup_handler V c h lookup)"
  by (cases h) (auto simp: apply_vlan_def remove_vlan_def fuzzy_vlan_def fuzzy_hop_def
      intro!: follows_intros follows_post_commands)

lemma follows_handleAddressLookup [follows_intros]: "follows R (handleAddressLookup V c h a)"
  unfolding handleAddressLookup_def by (intro follows_intros)

end

lemma grows_post_commands: "grows (post_commands V c cmds h)"
  unfolding post_commands_def by (intro follows_intros grows_sendRequest)

interpretation grows: client_effects world_le V c for c
  by unfold_locales (rule grows_post_commands)

lemma sendRoutesToSwitch_no_throw: "fst (sendRoutesToSwitch V c route w) \<noteq> Throw e"
  unfolding sendRoutesToSwitch_def by (rule catching_never_throws) simp

lemma fuzzy_apply_refused:
  "routeInfo route = IA_NAInfoFuzzyRemove na \<or> routeInfo route = IA_PDInfoFuzzyRemove pd len \<Longrightarrow>
    sendRoutesToSwitch V c route w =
      (Ok (), w\<lparr>logged := logged w @
        [Log ROUTE_APPLY_UNKNOWN_ERROR [connectionName c, ''not implemented IA route info'']]\<rparr>)"
  by (auto simp: sendRoutesToSwitch_def send_route_def catching_def)

section \<open>Lemmas on commands\<close>

lemma remove_command: "createRemoveRouteIpv6Command s d = ''no '' @ createApplyRouteIpv6Command s d"
  by (simp add: createRemoveRouteIpv6Command_def createApplyRouteIpv6Command_def)

lemma apply_command_inject:
  "blank_free s \<Longrightarrow> blank_free s' \<Longrightarrow>
    createApplyRouteIpv6Command s d = createApplyRouteIpv6Command s' d' \<longleftrightarrow> s = s' \<and> d = d'"
  by (simp add: createApplyRouteIpv6Command_def blank_free_def sep_inject)

section \<open>Lemmas on lookups\<close>

lemma lookup_addr_Ok_iff:
  "lookup_addr r = Ok a \<longleftrightarrow> (\<exists>vrf. table_vrf r = [vrf] \<and> table_addrf vrf = [a])"
  by (auto simp: lookup_addr_def not_exactly_one_def split: list.splits)

lemma lookup_addr_not_Stuck [simp]: "lookup_addr r \<noteq> Stuck u"
  by (auto simp: lookup_addr_def not_exactly_one_def split: list.split)

lemma lookup_addr_Throw: "lookup_addr r = Throw e \<Longrightarrow> \<exists>m. e = BadValue m"
  by (auto simp: lookup_addr_def not_exactly_one_def split: list.splits)

lemma addr_prefix_Ok_iff: "addr_prefix a = Ok x \<longleftrightarrow> (\<exists>xs. table_prefix a = Some (x # xs))"
  by (auto simp: addr_prefix_def split: list.splits option.splits)

lemma addr_prefix_not_Throw [simp]: "addr_prefix a \<noteq> Throw e"
  by (auto simp: addr_prefix_def split: list.split option.split)

lemma addr_prefix_Stuck_iff:
  "(\<exists>u. addr_prefix a = Stuck u) \<longleftrightarrow> table_prefix a = None \<or> table_prefix a = Some []"
  by (auto simp: addr_prefix_def split: list.split option.split)

lemma prefix_path_Ok_iff: "prefix_path x = Ok p \<longleftrightarrow> table_path x = [p]"
  by (auto simp: prefix_path_def split: list.splits)

lemma prefix_path_not_Stuck [simp]: "prefix_path x \<noteq> Stuck u"
  by (auto simp: prefix_path_def split: list.split)

lemma prefix_path_Throw: "prefix_path x = Throw e \<Longrightarrow> \<exists>m. e = BadValue m"
  by (auto simp: prefix_path_def split: list.splits)

lemma rbind_eq_Stuck:
  "rbind r f = Stuck u \<longleftrightarrow> r = Stuck u \<or> (\<exists>a. r = Ok a \<and> f a = Stuck u)"
  by (cases r) simp_all

lemma rbind_eq_Throw:
  "rbind r f = Throw e \<longleftrightarrow> r = Throw e \<or> (\<exists>a. r = Ok a \<and> f a = Throw e)"
  by (cases r) simp_all

lemma lookup_path_Ok_iff:
  "lookup_path r = Ok p \<longleftrightarrow> (\<exists>vrf a x xs. table_vrf r = [vrf] \<and> table_addrf vrf = [a] \<and>
     table_prefix a = Some (x # xs) \<and> table_path x = [p])"
  by (auto simp: lookup_path_def rbind_eq_Ok lookup_addr_Ok_iff addr_prefix_Ok_iff prefix_path_Ok_iff)

lemma lookup_path_Stuck_iff:
  "(\<exists>u. lookup_path r = (Stuck u :: ('j, row_path) outcome)) \<longleftrightarrow>
    (\<exists>vrf a. table_vrf r = [vrf] \<and> table_addrf vrf = [a] \<and>
      (table_prefix a = None \<or> table_prefix a = Some []))"
proof -
  have "(\<exists>u. lookup_path r = (Stuck u :: ('j, row_path) outcome)) \<longleftrightarrow>
    (\<exists>a. lookup_addr r = (Ok a :: ('j, row_addr) outcome) \<and>
      (\<exists>u. addr_prefix a = (Stuck u :: ('j, row_prefix) outcome)))"
    by (auto simp: lookup_path_def rbind_eq_Stuck)
  then show ?thesis unfolding lookup_addr_Ok_iff addr_prefix_Stuck_iff by blast
qed

lemma lookup_path_Throw: "lookup_path r = Throw e \<Longrightarrow> \<exists>m. e = BadValue m"
  by (auto simp: lookup_path_def rbind_eq_Throw dest: lookup_addr_Throw prefix_path_Throw)

lemma lookup_path_of: "lookup_path (lookup_of v af pfx att p) = Ok p"
  by (simp add: lookup_of_def lookup_path_Ok_iff)

lemma vlan_of_lookup_Throw: "vlan_of_lookup r = Throw e \<Longrightarrow> \<exists>m. e = BadValue m"
  by (auto simp: vlan_of_lookup_def find_or_throw_def rbind_eq_Throw dest: lookup_path_Throw
      split: option.splits)

lemma mapping_errors_no_throw:
  assumes "\<And>x. fst (k x w) \<noteq> Throw e"
  shows "fst (mapping_errors c r k w) \<noteq> Throw e"
  using assms by (auto simp: mapping_errors_def split: outcome.splits exn.splits)

text \<open>A response with one result whose body is a JSON value.\<close>

definition body_args :: "'j json_lib \<Rightarrow> int32 \<Rightarrow> id_type \<Rightarrow> 'j \<Rightarrow> 'j response_args" where
  "body_args J status i body = \<lparr>ra_response = Some [\<lparr>resp_id = i, resp_result = j_object J [(''body'', body)]\<rparr>],
     ra_error = SUCCESS, ra_status = status, ra_exn = None\<rparr>"

lemma first_body_args: "json_api J \<Longrightarrow> first_body J m (body_args J st i body) = Ok body"
  by (simp add: first_body_def body_args_def json_api.sub_present json_api.at_object
      json_api.contains_object)

lemma handleAddressLookup_body:
  "json_api (nl V) \<Longrightarrow> RouteLookupResponse_from_json (nl V) body = Ok r \<Longrightarrow>
    handleAddressLookup V c h (body_args (nl V) st i body) w = run_lookup_handler V c h r w"
  by (simp add: handleAddressLookup_def first_body_args)

section \<open>Lemmas on the neighbor table\<close>

text \<open>A map with a user-supplied equality, as its client sees it.\<close>

locale keyed_map =
  fixes eq :: "'k \<Rightarrow> 'k \<Rightarrow> bool"
    and put :: "'k \<Rightarrow> 'v \<Rightarrow> 'm \<Rightarrow> 'm"
    and find :: "'k \<Rightarrow> 'm \<Rightarrow> 'v option"
    and empty :: 'm
  assumes find_empty: "find k empty = None"
    and find_put: "find k' (put k v m) = (if eq k k' then Some v else find k' m)"
begin

fun puts :: "('k \<times> 'v) list \<Rightarrow> 'm \<Rightarrow> 'm" where
  "puts [] m = m"
| "puts ((k, v) # kvs) m = puts kvs (put k v m)"

lemma puts_append: "puts (xs @ ys) m = puts ys (puts xs m)"
  by (induction xs arbitrary: m) auto

lemma find_puts:
  "find k (puts kvs m) =
    (case List.find (\<lambda>(k', v). eq k' k) (rev kvs) of Some (k', v) \<Rightarrow> Some v | None \<Rightarrow> find k m)"
proof (induction kvs rule: rev_induct)
  case Nil
  show ?case by simp
next
  case (snoc kv kvs)
  then show ?case by (cases kv) (auto simp: puts_append find_put)
qed

lemma find_puts_empty:
  "find k (puts kvs empty) = map_option snd (List.find (\<lambda>(k', v). eq k' k) (rev kvs))"
  by (auto simp: find_puts find_empty split: option.split)

end

text \<open>Kea's equality of hardware addresses: the type and the bytes, not the source.\<close>

definition kea_hwaddr_eq :: "hwaddr \<Rightarrow> hwaddr \<Rightarrow> bool" where
  "kea_hwaddr_eq a b \<longleftrightarrow> hw_type a = hw_type b \<and> hw_bytes a = hw_bytes b"

lemma kea_hwaddr_eq_trans: "kea_hwaddr_eq a b \<Longrightarrow> kea_hwaddr_eq a c \<longleftrightarrow> kea_hwaddr_eq b c"
  by (auto simp: kea_hwaddr_eq_def)

lemma hash_respects_eq: "kea_hwaddr_eq a b \<Longrightarrow> HWAddrHashHelper hash a = HWAddrHashHelper hash b"
  by (simp add: kea_hwaddr_eq_def HWAddrHashHelper_def)

lemma hw_find_put:
  "hw_find kea_hwaddr_eq k' (hw_put kea_hwaddr_eq k v m) =
    (if kea_hwaddr_eq k k' then Some v else hw_find kea_hwaddr_eq k' m)"
  by (induction kea_hwaddr_eq k v m rule: hw_put.induct) (auto simp: kea_hwaddr_eq_def)

interpretation hwmap: keyed_map kea_hwaddr_eq "hw_put kea_hwaddr_eq" "hw_find kea_hwaddr_eq" "[]"
  by unfold_locales (simp_all add: hw_find_put)

text \<open>The entries a neighbor table contributes, each address parsed.\<close>

definition neighbor_entries :: "('j, 'e) env \<Rightarrow> adj_object list \<Rightarrow> ('j, (hwaddr \<times> string) list) outcome" where
  "neighbor_entries V objs =
     mapR (\<lambda>obj. rmap (\<lambda>k. (k, intf_out obj)) (fromRawCiscoString V (mac obj)))
       (filter (\<lambda>obj. isValidVlanName (intf_out obj)) objs)"

lemma collect_mapping_puts:
  assumes "hwaddr_eq V = kea_hwaddr_eq"
  shows "collect_mapping V m objs = rmap (\<lambda>kvs. hwmap.puts kvs m) (neighbor_entries V objs)"
proof (induction objs arbitrary: m)
  case Nil
  show ?case by (simp add: neighbor_entries_def)
next
  case (Cons obj objs)
  show ?case
  proof (cases "isValidVlanName (intf_out obj)")
    case True
    then show ?thesis
      by (cases "fromRawCiscoString V (mac obj)"; cases "neighbor_entries V objs")
        (simp_all add: Cons.IH assms neighbor_entries_def)
  next
    case False
    then show ?thesis by (simp add: Cons.IH neighbor_entries_def)
  qed
qed

text \<open>The hexadecimal digits of a raw address, in pairs.\<close>

fun pairs :: "string \<Rightarrow> string list" where
  "pairs [] = []"
| "pairs [a] = [[a]]"
| "pairs (a # b # cs) = [a, b] # pairs cs"

lemma mac_chars_filter: "mac_chars n raw = mac_chars n (filter (\<lambda>c. c \<noteq> CHR ''.'') raw)"
  by (induction n raw rule: mac_chars.induct) auto

lemma join_with_Cons: "join_with sep (x # xs) = x @ (if xs = [] then [] else sep @ join_with sep xs)"
  by (cases xs) simp_all

lemma pairs_Nil_iff: "pairs cs = [] \<longleftrightarrow> cs = []"
  by (induction cs rule: pairs.induct) simp_all

lemma mac_chars_pairs:
  assumes "CHR ''.'' \<notin> set cs" and "even n"
  shows "mac_chars n cs = (if n > 0 \<and> cs \<noteq> [] then '':'' else []) @ join_with '':'' (pairs cs)"
  using assms
proof (induction cs arbitrary: n rule: pairs.induct)
  case (3 a b cs)
  have rest: "mac_chars (Suc (Suc n)) cs = (if cs \<noteq> [] then '':'' else []) @ join_with '':'' (pairs cs)"
    using 3 by simp
  from 3(3) have "odd (Suc n)" by simp
  then have "Suc n mod 2 \<noteq> 0" by presburger
  then show ?case using 3(2,3) rest by (auto simp: join_with_Cons pairs_Nil_iff even_iff_mod_2_eq_zero)
qed auto

section \<open>Lemmas on the result of a change\<close>

text \<open>The switch accepted the change: what the code takes for success.\<close>

definition accepted :: "'j response_args \<Rightarrow> bool" where
  "accepted a \<longleftrightarrow> ra_error a = SUCCESS \<and> ra_status a \<noteq> 401 \<and> (ra_status a = 200 \<or> ra_exn a = None) \<and>
     ra_response a \<noteq> None \<and> ra_response a \<noteq> Some []"

lemma check_route_response_cases:
  "if accepted a then check_route_response V a = Ok () else \<exists>e. check_route_response V a = Throw e"
  by (cases "ra_exn a") (auto simp: accepted_def check_route_response_def)

definition sample_client :: mgmt_client where
  "sample_client = \<lparr>mc_params = \<lparr>cp_url = std_url ''http://switch'', cp_auth = \<lparr>auth_secret = ''admin:secret''\<rparr>,
      cp_cert_file = None, cp_key_file = None, heartbeatIntervalSecs = 5\<rparr>,
    mc_httpClient = Some (started_client \<lparr>auth_secret = ''admin:secret''\<rparr>)\<rparr>"

section \<open>Properties\<close>

text \<open>C22: the interface name is taken from a lookup exactly when there is one VRF, one address family
  and, for the first prefix, one path with a present interface name, of which the first one is
  taken.  A lookup whose address family has no prefix table, or an empty one, passes the check
  meant for it and is undefined; every other lookup is a bad-value error.\<close>

theorem vlan_lookup_outcomes:
  "(vlan_of_lookup r = (Ok v :: ('j, string) outcome) \<longleftrightarrow>
      (\<exists>vrf a x xs p. table_vrf r = [vrf] \<and> table_addrf vrf = [a] \<and> table_prefix a = Some (x # xs) \<and>
        table_path x = [p] \<and> find_some (\<lambda>_. True) (ifname p) = Some v)) \<and>
   ((\<exists>u. vlan_of_lookup r = (Stuck u :: ('j, string) outcome)) \<longleftrightarrow>
      (\<exists>vrf a. table_vrf r = [vrf] \<and> table_addrf vrf = [a] \<and> (table_prefix a = None \<or> table_prefix a = Some []))) \<and>
   ((\<exists>e. vlan_of_lookup r = (Throw e :: ('j, string) outcome)) \<longleftrightarrow>
      (\<exists>m. vlan_of_lookup r = (Throw (BadValue m) :: ('j, string) outcome)))"
proof (intro conjI)
  show "vlan_of_lookup r = (Ok v :: ('j, string) outcome) \<longleftrightarrow>
      (\<exists>vrf a x xs p. table_vrf r = [vrf] \<and> table_addrf vrf = [a] \<and> table_prefix a = Some (x # xs) \<and>
        table_path x = [p] \<and> find_some (\<lambda>_. True) (ifname p) = Some v)"
    by (auto simp: vlan_of_lookup_def rbind_eq_Ok lookup_path_Ok_iff find_or_throw_def split: option.splits)
  show "(\<exists>u. vlan_of_lookup r = (Stuck u :: ('j, string) outcome)) \<longleftrightarrow>
      (\<exists>vrf a. table_vrf r = [vrf] \<and> table_addrf vrf = [a] \<and> (table_prefix a = None \<or> table_prefix a = Some []))"
    unfolding lookup_path_Stuck_iff [symmetric, where 'j = 'j]
    by (auto simp: vlan_of_lookup_def rbind_eq_Stuck find_or_throw_def split: option.splits)
qed (auto dest: vlan_of_lookup_Throw)

text \<open>C23: a lookup that does not have the expected shape is handled differently by the route's
  origin: installing a route, or removing one on release, logs exactly one error and returns;
  removing the route of an expired lease lets the same error escape from the response handler,
  without a message.\<close>

theorem bad_lookup_handling:
  assumes "lookup_path r = (Throw e :: ('j, row_path) outcome)"
  shows "\<exists>m. apply_vlan V c na ty r w =
        (Ok () :: ('j, unit) outcome, w\<lparr>logged := logged w @ [Log RESPONSE_VLAN_ADDR_MAPPING_ERROR [connectionName c, m]]\<rparr>)
    \<and> remove_vlan V c na ty r w =
        (Ok (), w\<lparr>logged := logged w @ [Log RESPONSE_VLAN_ADDR_MAPPING_ERROR [connectionName c, m]]\<rparr>)
    \<and> fuzzy_vlan V c na ty r w = (Throw (BadValue m), w)
    \<and> fuzzy_hop V c pd ty r w = (Throw (BadValue m), w)"
proof -
  obtain m where "lookup_path r = (Throw (BadValue m) :: ('j, row_path) outcome)"
    using assms lookup_path_Throw by blast
  then show ?thesis
    by (auto simp: apply_vlan_def remove_vlan_def fuzzy_vlan_def fuzzy_hop_def vlan_of_lookup_def
        fuzzy_vlan_of_lookup_def hop_of_lookup_def mapping_errors_def)
qed

lemma bad_lookup_handling_witness:
  "\<exists>m. fuzzy_vlan (std_env (std_json True (\<lambda>s. None))) sample_client ''::7/128'' ''IA_NA'' \<lparr>table_vrf = []\<rparr>
      \<lparr>posted = [], logged = []\<rparr> = (Throw (BadValue m), \<lparr>posted = [], logged = []\<rparr>)"
proof -
  have "lookup_path \<lparr>table_vrf = []\<rparr> =
      (Throw (BadValue (''field \"'' @ ''TABLE_vrf'' @ ''\" of response does not contain exactly 1 item'')) :: (jval, row_path) outcome)"
    by (simp add: lookup_path_def lookup_addr_def not_exactly_one_def)
  from bad_lookup_handling [OF this, of "std_env (std_json True (\<lambda>s. None))" sample_client "''::7/128''" "''IA_NA''"
      "\<lparr>posted = [], logged = []\<rparr>" "''::/56''"]
  show ?thesis by blast
qed

text \<open>C25: a raw hardware address is handed to the library as its characters without the dots, in
  pairs separated by colons, whatever grouping the switch prints.\<close>

theorem mac_rewritten:
  "fromRawCiscoString V raw =
    hwaddr_fromText V (join_with '':'' (pairs (filter (\<lambda>c. c \<noteq> CHR ''.'') raw)))"
proof -
  have "mac_chars 0 raw = mac_chars 0 (filter (\<lambda>c. c \<noteq> CHR ''.'') raw)" by (rule mac_chars_filter)
  also have "\<dots> = join_with '':'' (pairs (filter (\<lambda>c. c \<noteq> CHR ''.'') raw))"
    by (subst mac_chars_pairs) simp_all
  finally show ?thesis by (simp add: fromRawCiscoString_def)
qed

text \<open>C24: the map built from a neighbor table whose VLAN entries all have readable addresses gives a
  hardware address the interface of the last VLAN entry with an equal address, and nothing when
  there is none; entries of other interfaces never appear.\<close>

theorem neighbor_map_last_entry:
  assumes "hwaddr_eq V = kea_hwaddr_eq" and "neighbor_entries V objs = Ok kvs"
  shows "\<exists>m. collect_mapping V [] objs = Ok m \<and>
    (\<forall>k. hw_find (hwaddr_eq V) k m = map_option snd (List.find (\<lambda>(k', v). kea_hwaddr_eq k' k) (rev kvs)))"
  using hwmap.find_puts_empty by (auto simp: collect_mapping_puts [OF assms(1)] assms)

lemma neighbor_map_last_entry_witness:
  "\<exists>m. collect_mapping (std_env (std_json True (\<lambda>s. None))) []
      [\<lparr>intf_out = ''Vlan10'', ipv6_addr = ''::1'', mac = ''f6a5.486e.8aad''\<rparr>,
       \<lparr>intf_out = ''mgmt0'', ipv6_addr = ''::2'', mac = ''x''\<rparr>] = Ok m \<and>
    hw_find kea_hwaddr_eq \<lparr>hw_bytes = [0xf6, 0xa5, 0x48, 0x6e, 0x8a, 0xad], hw_type = 1, hw_source = 9\<rparr> m = Some ''Vlan10''"
proof -
  let ?V = "std_env (std_json True (\<lambda>s. None))"
  have V: "hwaddr_eq ?V = kea_hwaddr_eq"
    by (simp add: kea_hwaddr_eq_def fun_eq_iff)
  have "neighbor_entries ?V [\<lparr>intf_out = ''Vlan10'', ipv6_addr = ''::1'', mac = ''f6a5.486e.8aad''\<rparr>,
       \<lparr>intf_out = ''mgmt0'', ipv6_addr = ''::2'', mac = ''x''\<rparr>]
     = Ok [(\<lparr>hw_bytes = [0xf6, 0xa5, 0x48, 0x6e, 0x8a, 0xad], hw_type = 1, hw_source = 0\<rparr>, ''Vlan10'')]"
    by (simp add: neighbor_entries_def isValidVlanName_def to_lower_ascii_def char_of_eq_iff is_digit_def fromRawCiscoString_def
        std_fromText_def hex_digit_def Let_def)
  from neighbor_map_last_entry [OF V this] obtain m where
    m: "collect_mapping ?V [] [\<lparr>intf_out = ''Vlan10'', ipv6_addr = ''::1'', mac = ''f6a5.486e.8aad''\<rparr>,
       \<lparr>intf_out = ''mgmt0'', ipv6_addr = ''::2'', mac = ''x''\<rparr>] = Ok m"
    and f: "\<And>k. hw_find kea_hwaddr_eq k m = map_option snd (List.find (\<lambda>(k', v). kea_hwaddr_eq k' k)
      (rev [(\<lparr>hw_bytes = [0xf6, 0xa5, 0x48, 0x6e, 0x8a, 0xad], hw_type = 1, hw_source = 0\<rparr>, ''Vlan10'')]))"
    unfolding V by blast
  have "hw_find kea_hwaddr_eq \<lparr>hw_bytes = [0xf6, 0xa5, 0x48, 0x6e, 0x8a, 0xad], hw_type = 1, hw_source = 9\<rparr> m = Some ''Vlan10''"
    unfolding f by (simp add: kea_hwaddr_eq_def)
  with m show ?thesis by blast
qed

text \<open>C9: the answer to a change produces exactly one message and nothing else: success when the
  library reports no error, the status is not 401, the status is 200 or no JSON-RPC exception
  came with it, and there is at least one response; failure with the reason in every other case.  A status of 500
  with a JSON-RPC exception is such a failure: its case in the sources, which a comment says can just
  be ignored, falls through to the one that throws the exception.\<close>

theorem route_result_reported:
  "if accepted a then
     handleRouteApply V c ty src dst a w =
       (Ok (), w\<lparr>logged := logged w @ [Log ROUTE_APPLY_SUCCESS [connectionName c, ty, src, dst]]\<rparr>) \<and>
     handleRouteRemove V c ty src dst a w =
       (Ok (), w\<lparr>logged := logged w @ [Log ROUTE_REMOVE_SUCCESS [connectionName c, ty, src, dst]]\<rparr>)
   else \<exists>reason.
     handleRouteApply V c ty src dst a w =
       (Ok (), w\<lparr>logged := logged w @ [Log ROUTE_APPLY_FAILED [connectionName c, ty, src, dst, reason]]\<rparr>) \<and>
     handleRouteRemove V c ty src dst a w =
       (Ok (), w\<lparr>logged := logged w @ [Log ROUTE_REMOVE_FAILED [connectionName c, ty, src, dst, reason]]\<rparr>)"
  using check_route_response_cases [of a V]
  by (auto simp: handleRouteApply_def handleRouteRemove_def split: if_splits)

end
