(* ===== verification/Heartbeat.thy ===== *)
theory Heartbeat
  imports Mgmt_Client
begin

text \<open>
  \<^verbatim>\<open>NXOSHeartbeatService\<close> of \<^verbatim>\<open>src/nxos_heartbeat_service.cpp\<close> with its base class of
  \<^verbatim>\<open>src/heartbeat_service.cpp\<close>: the uptime query the timer posts, the handler of its answer,
  and the callback that marks the connection as lost.
  Lemmas: what the handler does on each kind of answer, and when the uptime is computed exactly.
\<close>

section \<open>State\<close>

datatype timer_state = Cancelled | Running uint64 \<comment> \<open>interval in milliseconds\<close>

record heartbeat =
  hb_params :: conn_params
  hb_httpClient :: "http_client option"
  hb_timer :: "timer_state option"
  m_prevUptimeSecs :: uint64
  m_prevLostConnection :: bool
  connectionRestoredHandler :: bool \<comment> \<open>whether the handler is set\<close>
  connectionFailedHandler :: bool

record 'e hb_world = "'e world" +
  hb :: heartbeat

definition new_heartbeat :: "('j, 'e) env \<Rightarrow> 'e option \<Rightarrow> ('j, heartbeat) outcome" where
  "new_heartbeat V mgmtConnParams =
     rmap (\<lambda>p. \<lparr>hb_params = p, hb_httpClient = None, hb_timer = None, m_prevUptimeSecs = 0,
       m_prevLostConnection = True, connectionRestoredHandler = False, connectionFailedHandler = False\<rparr>)
       (parseConfig V mgmtConnParams)"

definition HeartbeatService_init :: "('j, 'e) env \<Rightarrow> string \<Rightarrow> 'e option \<Rightarrow> ('j, heartbeat) outcome" where
  "HeartbeatService_init V mgmtName mgmtConnParams =
     (if mgmtName = ''nxos'' then new_heartbeat V mgmtConnParams
      else Throw (InvalidParameter
        (''Failed to find heartbeat service for management client with name \"'' @ mgmtName @ ''\"'')))"

definition setConnectionRestoredHandler :: "heartbeat \<Rightarrow> heartbeat" where
  "setConnectionRestoredHandler h = h\<lparr>connectionRestoredHandler := True\<rparr>"

definition getConnectionRestoredHandler :: "heartbeat \<Rightarrow> bool" where
  "getConnectionRestoredHandler h = connectionRestoredHandler h"

definition setConnectionFailedHandler :: "heartbeat \<Rightarrow> heartbeat" where
  "setConnectionFailedHandler h = h\<lparr>connectionFailedHandler := True\<rparr>"

definition getConnectionFailedHandler :: "heartbeat \<Rightarrow> bool" where
  "getConnectionFailedHandler h = connectionFailedHandler h"

definition hb_connectionName :: "heartbeat \<Rightarrow> string" where
  "hb_connectionName h = url_text (cp_url (hb_params h))"

section \<open>Operations\<close>

definition modify_hb :: "(heartbeat \<Rightarrow> heartbeat) \<Rightarrow> ('j, ('e, 'z) hb_world_scheme, unit) prog" where
  "modify_hb f s = (Ok (), s\<lparr>hb := f (hb s)\<rparr>)"

definition interval_ms :: "heartbeat \<Rightarrow> uint64" where
  "interval_ms h = heartbeatIntervalSecs (hb_params h) * 1000"

text \<open>\<^verbatim>\<open>m_timer->setup\<close> and \<^verbatim>\<open>m_timer->cancel\<close>.\<close>

definition setup_timer :: "('j, 'e) env \<Rightarrow> ('j, ('e, 'z) hb_world_scheme, unit) prog" where
  "setup_timer V s = (case hb_timer (hb s) of
     None \<Rightarrow> (Stuck NullDeref, s)
   | Some _ \<Rightarrow> mseq (lift (timer_setup V (interval_ms (hb s))))
                 (modify_hb (\<lambda>h. h\<lparr>hb_timer := Some (Running (interval_ms h))\<rparr>)) s)"

definition cancel_timer :: "('j, ('e, 'z) hb_world_scheme, unit) prog" where
  "cancel_timer s = (case hb_timer (hb s) of
     None \<Rightarrow> (Stuck NullDeref, s)
   | Some _ \<Rightarrow> modify_hb (\<lambda>h. h\<lparr>hb_timer := Some Cancelled\<rparr>) s)"

definition hb_startService :: "('j, 'e) env \<Rightarrow> ('j, ('e, 'z) hb_world_scheme, unit) prog" where
  "hb_startService V =
     mseq (modify_hb (\<lambda>h. h\<lparr>hb_httpClient := Some (start_threads (addBasicAuth (Some (cp_auth (hb_params h))) new_http_client)),
             hb_timer := Some Cancelled, m_prevLostConnection := True, m_prevUptimeSecs := 0\<rparr>))
       (setup_timer V)"

definition createUptimeCommand :: string where
  "createUptimeCommand = ''show version''"

text \<open>Each signed 32-bit field is converted to \<^verbatim>\<open>size_t\<close> before it is multiplied and added.\<close>

definition getUptimeSecondsFromResponse :: "uptime_response \<Rightarrow> uint64" where
  "getUptimeSecondsFromResponse r =
     scast (kern_uptm_secs r) + scast (kern_uptm_mins r) * 60 + scast (kern_uptm_hrs r) * 3600 +
     scast (kern_uptm_days r) * 86400"

text \<open>The uptime in the answer, or nothing when the check fails.\<close>

definition checkForFailedConnectionOrRPCResponse ::
    "('j, 'e) env \<Rightarrow> 'j response_args \<Rightarrow> ('j, uptime_response option) outcome" where
  "checkForFailedConnectionOrRPCResponse V a =
     (if ra_error a \<noteq> SUCCESS then Ok None
      else if ra_status a \<noteq> 200 then Ok None
      else case (case ra_exn a of
                   Some x \<Rightarrow> Throw (JsonRpcExn x)
                 | None \<Rightarrow> rbind (first_body (nl V) ''response must be not empty'' a)
                             (UptimeResponse_from_json (nl V))) of
             Ok u \<Rightarrow> Ok (Some u)
           | Throw e \<Rightarrow> Ok None
           | Stuck u \<Rightarrow> Stuck u)"

definition handlerFailedCallback :: "('j, ('e, 'z) hb_world_scheme, unit) prog" where
  "handlerFailedCallback = modify_hb (\<lambda>h. h\<lparr>m_prevLostConnection := True\<rparr>)"

text \<open>What the timer does when it fires.\<close>

definition heartbeatLoop :: "('j, 'e) env \<Rightarrow> ('j, ('e, 'z) hb_world_scheme, unit) prog" where
  "heartbeatLoop V s =
     (if hb_httpClient (hb s) = None then (Stuck NullDeref, s)
      else mbind (lift (createRequestFromCommands V [(1, createUptimeCommand)])) (\<lambda>body.
        sendRequest (hb_httpClient (hb s)) (cp_url (hb_params (hb s))) EndpointName False body
          HeartbeatResponse (ucast (heartbeatIntervalSecs (hb_params (hb s))))) s)"

text \<open>
  The response handler.  \<open>failed\<close> and \<open>restored\<close> are the two connection handlers; they run only
  when they are set.
\<close>

definition handleHeartbeat ::
    "('j, 'e) env \<Rightarrow> ('j, ('e, 'z) hb_world_scheme, unit) prog \<Rightarrow> ('j, ('e, 'z) hb_world_scheme, unit) prog
      \<Rightarrow> 'j response_args \<Rightarrow> ('j, ('e, 'z) hb_world_scheme, unit) prog" where
  "handleHeartbeat V failed restored a s =
     mbind (lift (checkForFailedConnectionOrRPCResponse V a)) (\<lambda>uptime. case uptime of
       None \<Rightarrow>
         mseq (log_msg HEARTBEAT_FAILED [hb_connectionName (hb s)])
         (mseq (if connectionFailedHandler (hb s) then failed else ret ())
           (modify_hb (\<lambda>h. h\<lparr>m_prevLostConnection := True\<rparr>)))
     | Some u \<Rightarrow>
         (let uptimeSecondsNew = getUptimeSecondsFromResponse u in
          if m_prevLostConnection (hb s) \<or> uptimeSecondsNew < m_prevUptimeSecs (hb s) then
            mseq cancel_timer
            (mseq (if connectionRestoredHandler (hb s)
                   then mseq (log_msg HEARTBEAT_RESTORED_CONNECTION [hb_connectionName (hb s)]) restored
                   else ret ())
            (mseq (modify_hb (\<lambda>h. h\<lparr>m_prevUptimeSecs := 0, m_prevLostConnection := False\<rparr>))
              (setup_timer V)))
          else modify_hb (\<lambda>h. h\<lparr>m_prevUptimeSecs := uptimeSecondsNew, m_prevLostConnection := False\<rparr>))) s"

section \<open>Lemmas on operations\<close>

lemma modify_hb_simps [simp, outcome_simps]: "modify_hb f s = (Ok (), s\<lparr>hb := f (hb s)\<rparr>)"
  by (simp add: modify_hb_def)

text \<open>The operations that read the state, as programs that do not.\<close>

lemma setup_timer_eq:
  "setup_timer V = (\<lambda>s. (case hb_timer (hb s) of None \<Rightarrow> lift (Stuck NullDeref)
   | Some _ \<Rightarrow> mseq (lift (timer_setup V (interval_ms (hb s))))
                 (modify_hb (\<lambda>h. h\<lparr>hb_timer := Some (Running (interval_ms h))\<rparr>))) s)"
  by (auto simp: setup_timer_def fun_eq_iff split: option.split)

lemma cancel_timer_eq:
  "cancel_timer = (\<lambda>s. (case hb_timer (hb s) of None \<Rightarrow> lift (Stuck NullDeref)
   | Some _ \<Rightarrow> modify_hb (\<lambda>h. h\<lparr>hb_timer := Some Cancelled\<rparr>)) s)"
  by (auto simp: cancel_timer_def fun_eq_iff split: option.split)

lemma heartbeatLoop_eq:
  "heartbeatLoop V = (\<lambda>s. (if hb_httpClient (hb s) = None then lift (Stuck NullDeref)
      else mbind (lift (createRequestFromCommands V [(1, createUptimeCommand)])) (\<lambda>body.
        sendRequest (hb_httpClient (hb s)) (cp_url (hb_params (hb s))) EndpointName False body
          HeartbeatResponse (ucast (heartbeatIntervalSecs (hb_params (hb s)))))) s)"
  by (auto simp: heartbeatLoop_def fun_eq_iff)

text \<open>Relations the operations of the heartbeat stay in: they say nothing about its fields,
  except for the parameters and the HTTP client, which no operation of a running service changes,
  and the pointer to the timer, which none resets.\<close>

locale hb_local = logging R
  for R :: "('e, 'z) hb_world_scheme \<Rightarrow> ('e, 'z) hb_world_scheme \<Rightarrow> bool" +
  assumes R_hb: "hb_params h = hb_params (hb s) \<Longrightarrow> hb_httpClient h = hb_httpClient (hb s) \<Longrightarrow>
    (hb_timer h = None \<Longrightarrow> hb_timer (hb s) = None) \<Longrightarrow> R s (s\<lparr>hb := h\<rparr>)"
begin

lemma follows_modify_hb [follows_intros]:
  "(\<And>h. hb_params (f h) = hb_params h) \<Longrightarrow> (\<And>h. hb_httpClient (f h) = hb_httpClient h) \<Longrightarrow>
    (\<And>h. hb_timer (f h) = None \<Longrightarrow> hb_timer h = None) \<Longrightarrow> follows R (modify_hb f)"
  by (simp add: follows_def R_hb)

lemma follows_setup_timer [follows_intros]: "follows R (setup_timer V)"
  unfolding setup_timer_eq by (rule follows_at) (intro follows_intros; simp)

lemma follows_cancel_timer [follows_intros]: "follows R cancel_timer"
  unfolding cancel_timer_eq by (rule follows_at) (intro follows_intros; simp)

lemma follows_handleHeartbeat [follows_intros]:
  assumes "follows R failed" and "follows R restored"
  shows "follows R (handleHeartbeat V failed restored a)"
  unfolding handleHeartbeat_def by (rule follows_at) (intro follows_intros assms; simp)

lemma follows_handlerFailed [follows_intros]: "follows R handlerFailedCallback"
  unfolding handlerFailedCallback_def by (intro follows_intros; simp)

end

locale hb_effects = hb_local R
  for R :: "('e, 'z) hb_world_scheme \<Rightarrow> ('e, 'z) hb_world_scheme \<Rightarrow> bool" and V :: "('j, 'e) env" +
  assumes follows_heartbeatLoop: "follows R (heartbeatLoop V)"

interpretation grows: hb_effects world_le V
proof unfold_locales
  show "grows (heartbeatLoop V)"
    unfolding heartbeatLoop_eq by (rule follows_at) (intro follows_intros grows_sendRequest)
qed (simp add: world_le_def)

text \<open>What an answer tells: nothing, or the uptime in seconds.\<close>

definition observed :: "('j, 'e) env \<Rightarrow> 'j response_args \<Rightarrow> uint64 option" where
  "observed V a = (case checkForFailedConnectionOrRPCResponse V a of
     Ok (Some u) \<Rightarrow> Some (getUptimeSecondsFromResponse u) | _ \<Rightarrow> None)"

text \<open>The check catches every exception.\<close>

lemma check_not_Throw: "checkForFailedConnectionOrRPCResponse V a \<noteq> Throw e"
  by (auto simp: checkForFailedConnectionOrRPCResponse_def split: outcome.split)

definition restored_needed :: "heartbeat \<Rightarrow> uint64 \<Rightarrow> bool" where
  "restored_needed h u \<longleftrightarrow> m_prevLostConnection h \<or> u < m_prevUptimeSecs h"

text \<open>The service is running: its timer exists, and can be set up again.\<close>

definition hb_running :: "('j, 'e) env \<Rightarrow> heartbeat \<Rightarrow> bool" where
  "hb_running V h \<longleftrightarrow> hb_timer h \<noteq> None \<and> timer_setup V (interval_ms h) = Ok () \<and>
     connectionRestoredHandler h \<and> \<not> connectionFailedHandler h"

lemma handleHeartbeat_failed:
  assumes "checkForFailedConnectionOrRPCResponse V a = Ok None" and "\<not> connectionFailedHandler (hb s)"
  shows "handleHeartbeat V failed restored a s =
    (Ok (), s\<lparr>logged := logged s @ [Log HEARTBEAT_FAILED [hb_connectionName (hb s)]],
       hb := (hb s)\<lparr>m_prevLostConnection := True\<rparr>\<rparr>)"
  using assms by (simp add: handleHeartbeat_def mseq_def mbind_def)

lemma handleHeartbeat_alive:
  assumes "checkForFailedConnectionOrRPCResponse V a = Ok (Some u)"
    and "\<not> restored_needed (hb s) (getUptimeSecondsFromResponse u)"
  shows "handleHeartbeat V failed restored a s = (Ok (), s\<lparr>hb := (hb s)\<lparr>
    m_prevUptimeSecs := getUptimeSecondsFromResponse u, m_prevLostConnection := False\<rparr>\<rparr>)"
  using assms by (simp add: handleHeartbeat_def restored_needed_def Let_def)

lemma handleHeartbeat_restores:
  assumes check: "checkForFailedConnectionOrRPCResponse V a = Ok (Some u)"
    and need: "restored_needed (hb s) (getUptimeSecondsFromResponse u)"
    and run: "hb_running V (hb s)"
    and restored: "restored (s\<lparr>hb := (hb s)\<lparr>hb_timer := Some Cancelled\<rparr>,
        logged := logged s @ [Log HEARTBEAT_RESTORED_CONNECTION [hb_connectionName (hb s)]]\<rparr>) = (Ok (), s')"
    and keeps: "hb s' = (hb s)\<lparr>hb_timer := Some Cancelled\<rparr>"
  shows "handleHeartbeat V failed restored a s = (Ok (), s'\<lparr>hb := (hb s)\<lparr>hb_timer := Some (Running (interval_ms (hb s))),
    m_prevUptimeSecs := 0, m_prevLostConnection := False\<rparr>\<rparr>)"
proof -
  have "interval_ms ((hb s)\<lparr>hb_timer := t\<rparr>) = interval_ms (hb s)" for t by (simp add: interval_ms_def)
  moreover have "interval_ms ((hb s)\<lparr>hb_timer := t, m_prevUptimeSecs := 0, m_prevLostConnection := False\<rparr>)
      = interval_ms (hb s)" for t by (simp add: interval_ms_def)
  ultimately show ?thesis
    using check need run restored keeps
    by (auto simp: handleHeartbeat_def restored_needed_def hb_running_def mseq_def mbind_def Let_def
        cancel_timer_def setup_timer_def)
qed

text \<open>The check of an answer stays inside defined behaviour.\<close>

definition answer_defined :: "('j, 'e) env \<Rightarrow> 'j response_args \<Rightarrow> bool" where
  "answer_defined V a \<longleftrightarrow> (\<exists>u. checkForFailedConnectionOrRPCResponse V a = Ok u)"

text \<open>A running service for the witnesses.\<close>

definition sample_heartbeat :: heartbeat where
  "sample_heartbeat = \<lparr>hb_params = mc_params sample_client, hb_httpClient = mc_httpClient sample_client,
     hb_timer = Some (Running 5000), m_prevUptimeSecs = 0, m_prevLostConnection = True,
     connectionRestoredHandler = True, connectionFailedHandler = False\<rparr>"

section \<open>Properties\<close>

text \<open>C30: for fields that are not negative the uptime in seconds is computed without wrap-around.\<close>

theorem uptime_seconds_exact:
  assumes "0 \<le> sint (kern_uptm_secs r)" "0 \<le> sint (kern_uptm_mins r)" "0 \<le> sint (kern_uptm_hrs r)"
    "0 \<le> sint (kern_uptm_days r)"
  shows "uint (getUptimeSecondsFromResponse r) = sint (kern_uptm_secs r) + sint (kern_uptm_mins r) * 60 +
    sint (kern_uptm_hrs r) * 3600 + sint (kern_uptm_days r) * 86400"
proof -
  have b: "sint x < 2 ^ 31" for x :: int32 using sint_lt [of x] by simp
  let ?total = "sint (kern_uptm_secs r) + sint (kern_uptm_mins r) * 60 +
      sint (kern_uptm_hrs r) * 3600 + sint (kern_uptm_days r) * 86400"
  have eq: "getUptimeSecondsFromResponse r = word_of_int ?total"
    by (simp add: getUptimeSecondsFromResponse_def signed_scast_eq)
  have "?total < 2 ^ 64"
    using b [of "kern_uptm_secs r"] b [of "kern_uptm_mins r"] b [of "kern_uptm_hrs r"] b [of "kern_uptm_days r"]
    by simp
  moreover have "0 \<le> ?total" using assms by simp
  ultimately have "?total mod 2 ^ LENGTH(64) = ?total" by simp
  then show ?thesis unfolding eq uint_word_of_int .
qed

lemma uptime_seconds_exact_witness:
  "uint (getUptimeSecondsFromResponse \<lparr>kern_uptm_days = 3, kern_uptm_hrs = 2, kern_uptm_mins = 1, kern_uptm_secs = 7\<rparr>)
    = 7 + 1 * 60 + 2 * 3600 + 3 * 86400"
  using uptime_seconds_exact [of "\<lparr>kern_uptm_days = 3, kern_uptm_hrs = 2, kern_uptm_mins = 1, kern_uptm_secs = 7\<rparr>"]
  by simp

end
