(* ===== verification/Exporter_Service.thy ===== *)
theory Exporter_Service
  imports Heartbeat
begin

text \<open>
  \<^verbatim>\<open>DHCP6ExporterService\<close> of \<^verbatim>\<open>src/dhcp6_exporter_service.cpp\<close>: it owns the management
  client and the heartbeat service, passes routes on to the client, and restores the routes of
  the lease database when the heartbeat asks for it.

  The abstract class \<^verbatim>\<open>ManagementClient\<close> is the record \<open>management_client_ops\<close> of its virtual
  methods; the laws the service relies on are the locale \<open>management_client\<close>, interpreted on the
  methods of \<^verbatim>\<open>NXOSManagementClient\<close> (\<open>nxos_ops\<close>).
\<close>

section \<open>State\<close>

record 'e svc_world = "'e hb_world" +
  m_client :: mgmt_client
  m_ioService :: bool \<comment> \<open>whether the pointer is set\<close>

record ('j, 's) management_client_ops =
  op_connectionName :: "'s \<Rightarrow> string"
  op_sendRoutesToSwitch :: "route_export \<Rightarrow> ('j, 's, unit) prog"
  op_removeRoutesFromSwitch :: "route_export \<Rightarrow> ('j, 's, unit) prog"
  op_asyncGetHWAddrToInterfaceNameMapping :: "('j, 's, unit) prog"

definition nxos_ops ::
    "('j, 'e) env \<Rightarrow> 'j lease_mgr \<Rightarrow> ('j, ('e, 'z) svc_world_scheme) management_client_ops" where
  "nxos_ops V M = \<lparr>
     op_connectionName = (\<lambda>s. connectionName (m_client s)),
     op_sendRoutesToSwitch = (\<lambda>route s. sendRoutesToSwitch V (m_client s) route s),
     op_removeRoutesFromSwitch = (\<lambda>route s. removeRoutesFromSwitch V M (m_client s) route s),
     op_asyncGetHWAddrToInterfaceNameMapping = (\<lambda>s. asyncGetHWAddrToInterfaceNameMapping V (m_client s) s)\<rparr>"

lemma nxos_ops_sel [simp]:
  "op_connectionName (nxos_ops V M) s = connectionName (m_client s)"
  "op_sendRoutesToSwitch (nxos_ops V M) route s = sendRoutesToSwitch V (m_client s) route s"
  "op_removeRoutesFromSwitch (nxos_ops V M) route s = removeRoutesFromSwitch V M (m_client s) route s"
  "op_asyncGetHWAddrToInterfaceNameMapping (nxos_ops V M) s = asyncGetHWAddrToInterfaceNameMapping V (m_client s) s"
  by (simp_all add: nxos_ops_def)

section \<open>Routes\<close>

definition exportRoute ::
    "('j, ('e, 'z) svc_world_scheme) management_client_ops \<Rightarrow> route_export
      \<Rightarrow> ('j, ('e, 'z) svc_world_scheme, unit) prog" where
  "exportRoute C route =
     mseq (log_msg UPDATE_INFO_ON_DEVICE [to_string_w (re_tid route), to_string_w (re_iaid route)])
       (op_sendRoutesToSwitch C route)"

definition removeRoute ::
    "('j, ('e, 'z) svc_world_scheme) management_client_ops \<Rightarrow> route_export
      \<Rightarrow> ('j, ('e, 'z) svc_world_scheme, unit) prog" where
  "removeRoute C route s =
     mseq (log_msg REMOVE_INFO_ON_DEVICE
             [op_connectionName C s, to_string_w (re_tid route), to_string_w (re_iaid route)])
       (op_removeRoutesFromSwitch C route) s"

section \<open>Restoring the routes\<close>

definition restoreLeasesFromLeaseDatabase ::
    "('j, ('e, 'z) svc_world_scheme) management_client_ops \<Rightarrow> ('j, ('e, 'z) svc_world_scheme, unit) prog" where
  "restoreLeasesFromLeaseDatabase C = op_asyncGetHWAddrToInterfaceNameMapping C"

text \<open>
  One pass of the inner loop.  The result says whether the lambda returned: the case of a
  prefix ends in \<^verbatim>\<open>return\<close>, which leaves both loops.  The lease type and the DUID pointer the
  first message also prints are left out of its arguments.
\<close>

definition restore_lease ::
    "('j, 'e) env \<Rightarrow> 'j lease_mgr \<Rightarrow> ('j, ('e, 'z) svc_world_scheme) management_client_ops \<Rightarrow> hwaddr_map
      \<Rightarrow> lease \<Rightarrow> ('j, ('e, 'z) svc_world_scheme, bool) prog" where
  "restore_lease V M C mapping lease s = ((case l_hwaddr lease of
     None \<Rightarrow> throw (Unexpected ''can't recover route for lease without HWAddr'')
   | Some leaseHWAddr \<Rightarrow> (case l_type lease of
       TYPE_NA \<Rightarrow> (case hw_find (hwaddr_eq V) leaseHWAddr mapping of
           Some ifn \<Rightarrow>
             mseq (op_sendRoutesToSwitch C \<lparr>re_tid = 0, re_iaid = l_iaid lease, re_duid = l_duid lease,
                     routeInfo = IA_NAFast ifn (l_addr lease)\<rparr>) (ret False)
         | None \<Rightarrow>
             mseq (log_msg ROUTE_REINIT_NO_HWADDR_FAILED
                     [op_connectionName C s, to_string_w (l_iaid lease), toText V (l_addr lease)]) (ret False))
     | TYPE_PD \<Rightarrow>
         mbind (lift (findIA_NALeaseByDUID_IAID M (l_duid lease) (l_iaid lease))) (\<lambda>entry. case entry of
             Some na \<Rightarrow>
               mseq (op_sendRoutesToSwitch C \<lparr>re_tid = 0, re_iaid = l_iaid lease, re_duid = l_duid lease,
                       routeInfo = IA_PDInfo (l_addr na) (l_addr lease) (l_prefixlen lease)\<rparr>) (ret True)
           | None \<Rightarrow> (case l_duid lease of
                 None \<Rightarrow> lift (Stuck NullDeref)
               | Some d \<Rightarrow>
                   mseq (log_msg ROUTE_REINIT_IA_NA_LEASE_FAILED
                           [op_connectionName C s, to_string_w (l_iaid lease), duid_toText V d,
                            subnet_text V (l_addr lease) (l_prefixlen lease)]) (ret True)))
     | TYPE_TA \<Rightarrow> ret False
     | TYPE_V4 \<Rightarrow> ret False)) s)"

text \<open>A loop whose body may leave the enclosing function.\<close>

fun until_return :: "('a \<Rightarrow> ('j, 's, bool) prog) \<Rightarrow> 'a list \<Rightarrow> ('j, 's, bool) prog" where
  "until_return f [] = ret False"
| "until_return f (x # xs) = mbind (f x) (\<lambda>returned. if returned then ret True else until_return f xs)"

definition restore_subnet ::
    "('j, 'e) env \<Rightarrow> 'j lease_mgr \<Rightarrow> ('j, ('e, 'z) svc_world_scheme) management_client_ops \<Rightarrow> hwaddr_map
      \<Rightarrow> subnet_id \<Rightarrow> ('j, ('e, 'z) svc_world_scheme, bool) prog" where
  "restore_subnet V M C mapping subnetId =
     mbind (lift (getLeases6_subnet M subnetId)) (until_return (restore_lease V M C mapping))"

definition restoreFromMapping ::
    "('j, 'e) env \<Rightarrow> 'j lease_mgr \<Rightarrow> cfg_mgr \<Rightarrow> ('j, ('e, 'z) svc_world_scheme) management_client_ops
      \<Rightarrow> ('j, ('e, 'z) svc_world_scheme, unit) prog \<Rightarrow> hwaddr_map option \<Rightarrow> bool
      \<Rightarrow> ('j, ('e, 'z) svc_world_scheme, unit) prog" where
  "restoreFromMapping V M cfg C handlerFailed mapping connectionOrEarlyValidationFailed =
     (if connectionOrEarlyValidationFailed then handlerFailed
      else case mapping of
        None \<Rightarrow> throw (Unexpected ''empty pointer to map from HWAddr to Vlan interface'')
      | Some m \<Rightarrow> (case currentCfg cfg of
          None \<Rightarrow> throw (Unexpected ''can't get current config for DHCPv6 server'')
        | Some None \<Rightarrow> throw (Unexpected ''can't get config subnet6 list'')
        | Some (Some None) \<Rightarrow> throw (Unexpected ''can't get subnet6 list'')
        | Some (Some (Some subnets)) \<Rightarrow>
            mseq (until_return (restore_subnet V M C m) subnets) (ret ())))"

section \<open>Life cycle\<close>

text \<open>The two objects the constructor makes.\<close>

definition new_service ::
    "('j, 'e) env \<Rightarrow> 'e \<Rightarrow> 'e option \<Rightarrow> ('j, mgmt_client \<times> heartbeat) outcome" where
  "new_service V mgmtConnType mgmtConnParams =
     rbind (case e_stringValue (el V) mgmtConnType of
              Throw (TypeError m) \<Rightarrow> Throw (Unexpected ''No value for connection type'')
            | r \<Rightarrow> r) (\<lambda>mgmtName.
     rbind (ManagementClient_init V mgmtName mgmtConnParams) (\<lambda>c.
     rmap (\<lambda>h. (c, h)) (HeartbeatService_init V mgmtName mgmtConnParams)))"

definition setIOService :: "bool \<Rightarrow> ('j, ('e, 'z) svc_world_scheme, unit) prog" where
  "setIOService io_service = (\<lambda>s. (Ok (), s\<lparr>m_ioService := io_service\<rparr>))"

definition getIOService :: "('e, 'z) svc_world_scheme \<Rightarrow> bool" where
  "getIOService s = m_ioService s"

definition svc_startService :: "('j, 'e) env \<Rightarrow> ('j, ('e, 'z) svc_world_scheme, unit) prog" where
  "svc_startService V s =
     (if \<not> m_ioService s then (Stuck NullDeref, s)
      else mbind (lift (startClient (m_client s))) (\<lambda>c.
        mseq (\<lambda>s. (Ok (), s\<lparr>m_client := c\<rparr>))
        (mseq (modify_hb setConnectionRestoredHandler)
          (hb_startService V))) s)"

section \<open>What the service relies on\<close>

text \<open>
  The laws of a management client: no method takes back what was posted or written, installing a
  route never throws, and neither installing nor asking for the mapping touches the heartbeat or
  the client itself.
\<close>

locale management_client =
  fixes C :: "('j, ('e, 'z) svc_world_scheme) management_client_ops"
  assumes send_grows: "grows (op_sendRoutesToSwitch C route)"
    and remove_grows: "grows (op_removeRoutesFromSwitch C route)"
    and mapping_grows: "grows (op_asyncGetHWAddrToInterfaceNameMapping C)"
    and send_no_throw: "fst (op_sendRoutesToSwitch C route s) \<noteq> Throw e"
    and send_frame: "op_sendRoutesToSwitch C route s = (r, s') \<Longrightarrow> hb s' = hb s \<and> m_client s' = m_client s"
    and mapping_frame: "op_asyncGetHWAddrToInterfaceNameMapping C s = (r', s') \<Longrightarrow>
      hb s' = hb s \<and> m_client s' = m_client s"
begin

lemma exportRoute_no_throw: "fst (exportRoute C route s) \<noteq> Throw e"
  using send_no_throw by (simp add: exportRoute_def mseq_def mbind_def)

lemma grows_exportRoute: "grows (exportRoute C route)"
  unfolding exportRoute_def by (intro follows_intros send_grows)

lemma grows_removeRoute: "grows (removeRoute C route)"
  unfolding removeRoute_def by (rule follows_at) (intro follows_intros remove_grows)

lemma exportRoute_frame:
  "exportRoute C route s = (r, s') \<Longrightarrow> hb s' = hb s \<and> m_client s' = m_client s"
  by (auto simp: exportRoute_def mseq_def mbind_def dest: send_frame)

text \<open>Restoring a lease can throw only for want of a hardware address, or when the database does.\<close>

lemma restore_lease_throws:
  assumes "restore_lease V M C mapping l s = (Throw e, s')"
  shows "l_hwaddr l = None \<or> (l_type l = TYPE_PD \<and> findIA_NALeaseByDUID_IAID M (l_duid l) (l_iaid l) = Throw e)"
proof (rule ccontr)
  assume neg: "\<not> ?thesis"
  then obtain h where h: "l_hwaddr l = Some h" by auto
  have no: "fst (mseq (op_sendRoutesToSwitch C r) (ret b) s) \<noteq> Throw e" for r and b :: bool
    using send_no_throw [of r s e]
    by (cases "op_sendRoutesToSwitch C r s"; cases "fst (op_sendRoutesToSwitch C r s)")
      (auto simp: mseq_def mbind_def)
  have "fst (restore_lease V M C mapping l s) \<noteq> Throw e"
    using neg h no
    by (auto simp: restore_lease_def mseq_Ok split: lease_type.split option.split outcome.split)
  with assms show False by simp
qed

end

section \<open>The client of the switch is one\<close>

text \<open>An operation of the management client only posts and logs.\<close>

definition same_rest :: "('e, 'z) world_scheme \<Rightarrow> ('e, 'z) world_scheme \<Rightarrow> bool" where
  "same_rest s s' \<longleftrightarrow> s' = s\<lparr>posted := posted s', logged := logged s'\<rparr>"

interpretation rest: logging same_rest
proof unfold_locales
  show "same_rest s u" if "same_rest s t" "same_rest t u" for s t u :: "('a, 'b) world_scheme"
    using that unfolding same_rest_def by (metis world.surjective world.update_convs(1,2))
qed (simp_all add: same_rest_def)

lemma rest_post: "follows same_rest (post q)"
  by (simp add: follows_def same_rest_def)

interpretation rest: client_effects same_rest V c for c
  by unfold_locales (auto simp: post_commands_def sendRequest_def intro!: follows_intros rest_post)

lemma rest_frame:
  "same_rest s (s' :: ('e, 'z) svc_world_scheme) \<Longrightarrow>
    hb s' = hb s \<and> m_client s' = m_client s \<and> m_ioService s' = m_ioService s"
  unfolding same_rest_def by (metis hb_world.select_convs(1) hb_world.update_convs(1)
    svc_world.select_convs(1,2) svc_world.surjective world.update_convs(1,2))

interpretation nxos: management_client "nxos_ops V M"
proof unfold_locales
  show "grows (op_sendRoutesToSwitch (nxos_ops V M) route)" for route
    unfolding nxos_ops_def by simp (rule follows_at, rule grows.follows_send)
  show "grows (op_removeRoutesFromSwitch (nxos_ops V M) route)" for route
    unfolding nxos_ops_def by simp (rule follows_at, rule grows.follows_remove)
  show "grows (op_asyncGetHWAddrToInterfaceNameMapping (nxos_ops V M))"
    unfolding nxos_ops_def by simp (rule follows_at, rule grows.follows_mapping)
  show "fst (op_sendRoutesToSwitch (nxos_ops V M) route s) \<noteq> Throw e" for route s e
    by (simp add: sendRoutesToSwitch_no_throw)
  show "hb s' = hb s \<and> m_client s' = m_client s"
    if "op_sendRoutesToSwitch (nxos_ops V M) route s = (r, s')" for route s r s'
    using that rest_frame [OF followsD [OF rest.follows_send]] by simp blast
  show "hb s' = hb s \<and> m_client s' = m_client s"
    if "op_asyncGetHWAddrToInterfaceNameMapping (nxos_ops V M) s = (r, s')" for s r s'
    using that rest_frame [OF followsD [OF rest.follows_mapping]] by simp blast
qed

section \<open>Lemmas on restoring\<close>

lemma until_return_append:
  assumes "\<And>s s'. f x s \<noteq> (Ok False, s')"
  shows "until_return f (xs @ x # ys) = until_return f (xs @ [x])"
proof (induction xs)
  case Nil
  show ?case
  proof
    fix s
    show "until_return f ([] @ x # ys) s = until_return f ([] @ [x]) s"
    proof (cases "f x s")
      case (Pair r s')
      then have "r \<noteq> Ok False" using assms [of s s'] by auto
      with Pair show ?thesis by (cases r) (auto simp: mbind_def)
    qed
  qed
next
  case (Cons y xs)
  show ?case by (simp only: append_Cons until_return.simps Cons.IH)
qed

lemma mbind_const_no_False:
  assumes "\<And>a s s'. f a s \<noteq> (Ok False, s')"
  shows "mbind m f s \<noteq> (Ok False, s')"
proof (cases "m s")
  case (Pair r t)
  with assms show ?thesis by (cases r) (auto simp: mbind_def)
qed

lemma until_return_no_False:
  assumes "x \<in> set xs" and "\<And>s s'. f x s \<noteq> (Ok False, s')"
  shows "until_return f xs s \<noteq> (Ok False, s')"
  using assms(1)
proof (induction xs arbitrary: s)
  case (Cons y ys)
  show ?case
  proof (cases "f y s")
    case (Pair r t)
    with Cons assms(2) show ?thesis by (cases r) (auto simp: mbind_def)
  qed
qed simp

lemma restore_prefix_returns:
  assumes "l_type l = TYPE_PD"
  shows "restore_lease V M C mapping l s \<noteq> (Ok False, s')"
proof (cases "l_hwaddr l")
  case (Some h)
  show ?thesis unfolding restore_lease_def Some assms option.case lease_type.case
  proof (rule mbind_const_no_False)
    fix entry t t'
    show "(case entry of
             Some na \<Rightarrow> mseq (op_sendRoutesToSwitch C \<lparr>re_tid = 0, re_iaid = l_iaid l, re_duid = l_duid l,
                       routeInfo = IA_PDInfo (l_addr na) (l_addr l) (l_prefixlen l)\<rparr>) (ret True)
           | None \<Rightarrow> (case l_duid l of None \<Rightarrow> lift (Stuck NullDeref)
               | Some d \<Rightarrow> mseq (log_msg ROUTE_REINIT_IA_NA_LEASE_FAILED
                           [op_connectionName C s, to_string_w (l_iaid l), duid_toText V d,
                            subnet_text V (l_addr l) (l_prefixlen l)]) (ret True))) t \<noteq> (Ok False, t')"
      unfolding mseq_def by (auto split: option.split intro!: mbind_const_no_False)
  qed
qed (simp add: restore_lease_def)

text \<open>Every request of numbered commands can be encoded, and how.\<close>

definition requests_encoded :: "('j, 'e) env \<Rightarrow> ((int32 \<times> string) list \<Rightarrow> 'e) \<Rightarrow> bool" where
  "requests_encoded V enc \<longleftrightarrow> (\<forall>cmds. cmds \<noteq> [] \<longrightarrow> createRequestFromCommands V cmds = Ok (enc cmds))"

lemma post_commands_encoded:
  "requests_encoded V enc \<Longrightarrow> started c \<Longrightarrow> cmds \<noteq> [] \<Longrightarrow>
    post_commands V c cmds h s = (Ok (), s\<lparr>posted := posted s @ [command_request c (enc cmds) h]\<rparr>)"
  by (simp add: requests_encoded_def post_commands_started)

definition std_enc :: "(int32 \<times> string) list \<Rightarrow> kelem" where
  "std_enc cmds = KText (jval_text (JArr (map (command_object (std_json True (\<lambda>s. None))) cmds)))"

lemma std_encoded: "requests_encoded (std_env (std_json b p)) std_enc"
proof -
  have e: "command_object (std_json b p) = command_object (std_json True (\<lambda>s. None))"
    by (simp add: command_object_def fun_eq_iff)
  show ?thesis
    using std.request_array_start [of _ b p]
    by (simp add: requests_encoded_def std_enc_def createRequestFromCommands_def e)
qed

text \<open>What restoring a list of addresses posts and writes.\<close>

definition restored_requests ::
    "('j, 'e) env \<Rightarrow> ((int32 \<times> string) list \<Rightarrow> 'e) \<Rightarrow> mgmt_client \<Rightarrow> hwaddr_map \<Rightarrow> lease \<Rightarrow> 'e request list" where
  "restored_requests V enc c m l = (case Option.bind (l_hwaddr l) (\<lambda>h. hw_find (hwaddr_eq V) h m) of
     Some ifn \<Rightarrow> [command_request c (enc [(1, createApplyRouteIpv6Command (host_text V (l_addr l)) ifn)])
                   (RouteApply ''IA_NA'' (host_text V (l_addr l)) ifn)]
   | None \<Rightarrow> [])"

definition restored_messages :: "('j, 'e) env \<Rightarrow> mgmt_client \<Rightarrow> hwaddr_map \<Rightarrow> lease \<Rightarrow> log_event list" where
  "restored_messages V c m l = (case Option.bind (l_hwaddr l) (\<lambda>h. hw_find (hwaddr_eq V) h m) of
     Some ifn \<Rightarrow> []
   | None \<Rightarrow> [Log ROUTE_REINIT_NO_HWADDR_FAILED
               [connectionName c, to_string_w (l_iaid l), toText V (l_addr l)]])"

lemma send_fast:
  assumes "requests_encoded V enc" and "started c"
  shows "sendRoutesToSwitch V c \<lparr>re_tid = t, re_iaid = i, re_duid = d, routeInfo = IA_NAFast ifn na\<rparr> s =
    (Ok (), s\<lparr>posted := posted s @ [command_request c
      (enc [(1, createApplyRouteIpv6Command (host_text V na) ifn)]) (RouteApply ''IA_NA'' (host_text V na) ifn)]\<rparr>)"
  using assms by (simp add: sendRoutesToSwitch_def send_route_def catching_def post_commands_encoded
      toDHCPv6IATypeString_def)

lemma restore_na_lease:
  assumes "requests_encoded V enc" and "started (m_client s)" and "l_type l = TYPE_NA" and "l_hwaddr l \<noteq> None"
  shows "restore_lease V M (nxos_ops V M) m l s = (Ok False, s\<lparr>posted := posted s @ restored_requests V enc (m_client s) m l,
    logged := logged s @ restored_messages V (m_client s) m l\<rparr>)"
  using assms
  by (auto simp: restore_lease_def restored_requests_def restored_messages_def mseq_def mbind_def send_fast
      split: option.split)

lemma restore_na_leases:
  assumes "requests_encoded V enc" and "started (m_client s)"
    and "\<And>l. l \<in> set ls \<Longrightarrow> l_type l = TYPE_NA \<and> l_hwaddr l \<noteq> None"
  shows "until_return (restore_lease V M (nxos_ops V M) m) ls s =
    (Ok False, s\<lparr>posted := posted s @ concat (map (restored_requests V enc (m_client s) m) ls),
       logged := logged s @ concat (map (restored_messages V (m_client s) m) ls)\<rparr>)"
  using assms(2,3)
proof (induction ls arbitrary: s)
  case (Cons l ls)
  let ?s = "s\<lparr>posted := posted s @ restored_requests V enc (m_client s) m l,
    logged := logged s @ restored_messages V (m_client s) m l\<rparr>"
  have "restore_lease V M (nxos_ops V M) m l s = (Ok False, ?s)"
    using Cons.prems by (intro restore_na_lease assms(1)) auto
  then show ?case using Cons.IH [of ?s] Cons.prems by (simp add: mbind_def)
qed simp

section \<open>Properties\<close>

text \<open>Restoring leases that are all addresses with a hardware address handles every one of them, in
  order: a lease whose hardware address the mapping knows gets one request with the command that
  routes its address to the interface, any other exactly one error message.\<close>

theorem restore_addresses:
  assumes "requests_encoded V enc" and "started (m_client s)"
    and "\<And>l. l \<in> set ls \<Longrightarrow> l_type l = TYPE_NA \<and> l_hwaddr l \<noteq> None"
  shows "until_return (restore_lease V M (nxos_ops V M) m) ls s =
    (Ok False, s\<lparr>posted := posted s @ concat (map (restored_requests V enc (m_client s) m) ls),
       logged := logged s @ concat (map (restored_messages V (m_client s) m) ls)\<rparr>)"
  using restore_na_leases [OF assms] .

lemma restore_addresses_witness:
  "fst (until_return (restore_lease (std_env (std_json True (\<lambda>s. None))) (list_db [])
      (nxos_ops (std_env (std_json True (\<lambda>s. None))) (list_db []))
      [(\<lparr>hw_bytes = [1, 2, 3, 4, 5, 6], hw_type = 1, hw_source = 0\<rparr>, ''Vlan10'')])
      [sample_lease TYPE_NA 7 False]
      \<lparr>posted = [], logged = [], hb = sample_heartbeat, m_client = sample_client, m_ioService = True\<rparr>) = Ok False"
proof -
  let ?s = "\<lparr>posted = [], logged = [], hb = sample_heartbeat, m_client = sample_client, m_ioService = True\<rparr>"
  have c: "started (m_client ?s)" by (simp add: started_def sample_client_def)
  show ?thesis
    by (subst restore_addresses [OF std_encoded c]) auto
qed

text \<open>Restoring ends at the first prefix lease: the leases after it in its subnet and every later
  subnet are never looked at, whatever they hold.\<close>

theorem restore_ends_at_first_prefix:
  assumes "currentCfg cfg = Some (Some (Some (ss @ subnet # ss')))"
    and "getLeases6_subnet M subnet = Ok (xs @ pd # ys)" and "l_type pd = TYPE_PD"
  shows "restoreFromMapping V M cfg C h (Some m) False =
      restoreFromMapping V M (cfg\<lparr>currentCfg := Some (Some (Some (ss @ [subnet])))\<rparr>) C h (Some m) False \<and>
    restore_subnet V M C m subnet = until_return (restore_lease V M C m) (xs @ [pd])"
proof
  show sub: "restore_subnet V M C m subnet = until_return (restore_lease V M C m) (xs @ [pd])"
    using until_return_append [of "restore_lease V M C m" pd xs ys, OF restore_prefix_returns [OF assms(3)]]
    by (simp add: restore_subnet_def assms(2) fun_eq_iff)
  have "restore_subnet V M C m subnet s \<noteq> (Ok False, s')" for s s'
    unfolding sub by (rule until_return_no_False) (auto simp: restore_prefix_returns [OF assms(3)])
  from until_return_append [of "restore_subnet V M C m" subnet ss ss', OF this]
  show "restoreFromMapping V M cfg C h (Some m) False =
      restoreFromMapping V M (cfg\<lparr>currentCfg := Some (Some (Some (ss @ [subnet])))\<rparr>) C h (Some m) False"
    by (simp add: restoreFromMapping_def assms(1))
qed

lemma restore_ends_at_first_prefix_witness:
  "restore_subnet (std_env (std_json True (\<lambda>s. None))) (list_db [(1, sample_lease TYPE_PD 9 False), (1, sample_lease TYPE_NA 7 False)])
      (nxos_ops (std_env (std_json True (\<lambda>s. None))) (list_db [])) [] 1 =
    until_return (restore_lease (std_env (std_json True (\<lambda>s. None)))
        (list_db [(1, sample_lease TYPE_PD 9 False), (1, sample_lease TYPE_NA 7 False)])
        (nxos_ops (std_env (std_json True (\<lambda>s. None))) (list_db [])) [])
      [sample_lease TYPE_PD 9 False]"
  using restore_ends_at_first_prefix [where cfg = "\<lparr>currentCfg = Some (Some (Some [1]))\<rparr>" and ss = "[]"
      and ss' = "[]" and subnet = 1 and xs = "[]" and pd = "sample_lease TYPE_PD 9 False"
      and ys = "[sample_lease TYPE_NA 7 False]" and V = "std_env (std_json True (\<lambda>s. None))" and m = "[]"
      and M = "list_db [(1, sample_lease TYPE_PD 9 False), (1, sample_lease TYPE_NA 7 False)]"
      and C = "nxos_ops (std_env (std_json True (\<lambda>s. None))) (list_db [])" and h = "ret ()"]
  by simp

end
