(* ===== verification/Exporter_Impl.thy ===== *)
theory Exporter_Impl
  imports Exporter_Service
begin

text \<open>
  \<^verbatim>\<open>DHCP6ExporterImpl\<close> of \<^verbatim>\<open>src/dhcp6_exporter_impl.cpp\<close>: the handlers of the lease hooks,
  and the configuration and life cycle of the service.  A hook's arguments are a record of what
  \<^verbatim>\<open>CalloutHandle::getArgument\<close> finds; Kea's packets and options are records of the accessor
  results the handlers read.

  The handlers move addresses out of local variables and read some of them again afterwards;
  moving an \<^verbatim>\<open>IOAddress\<close>, which holds plain bytes, leaves the source unchanged.
\<close>

section \<open>Arguments of the hooks\<close>

datatype 'a arg = NoArg | Arg 'a

record ia_option =
  io_toString :: string
  io_iaaddr :: "ioaddr option option"
    \<comment> \<open>the suboption \<^verbatim>\<open>D6O_IAADDR\<close>; \<open>Some None\<close> when it is not an \<^verbatim>\<open>Option6IAAddr\<close>\<close>
  io_iaprefix :: "(ioaddr \<times> uint8) option option"

record 'j pkt =
  getRelay6LinkAddress0 :: "('j, ioaddr) outcome"
  getTransid :: uint32
  getOption_IA_NA :: "ia_option option" \<comment> \<open>absent, or of another class: a null pointer\<close>
  getOption_IA_PD :: "ia_option option"

record 'j callout_handle =
  h_query6 :: "'j pkt option arg"
  h_subnet6 :: "unit option arg"
  h_lease6 :: "lease option arg"
  h_fake_allocation :: "bool arg"
  h_remove_lease :: "bool arg"
  h_ia_na :: "ia_option option arg"
  h_ia_pd :: "ia_option option arg"
  h_io_context :: "unit option arg"
  h_network_state :: "unit option arg"

datatype next_step = CONTINUE | SKIP | DROP

record 'e impl_world = "'e svc_world" +
  impl :: bool \<comment> \<open>whether the static pointer \<^verbatim>\<open>impl\<close> is set\<close>
  m_service :: bool \<comment> \<open>whether its \<^verbatim>\<open>m_service\<close> is set; the members are then \<open>m_client\<close> and \<open>hb\<close>\<close>
  next_step :: next_step \<comment> \<open>\<^verbatim>\<open>setStatus\<close> of the current handle\<close>
  error_arg :: "string option" \<comment> \<open>\<^verbatim>\<open>setArgument("error", ...)\<close>\<close>

definition getArgument :: "string \<Rightarrow> 'a arg \<Rightarrow> ('j, 'a) outcome" where
  "getArgument name a = (case a of
     NoArg \<Rightarrow> Throw (NoSuchArgument (''unable to find argument with name '' @ name))
   | Arg x \<Rightarrow> Ok x)"

definition deref :: "'a option \<Rightarrow> ('j, 'a) outcome" where
  "deref p = (case p of None \<Rightarrow> Stuck NullDeref | Some x \<Rightarrow> Ok x)"

definition setStatus :: "next_step \<Rightarrow> ('j, ('e, 'z) impl_world_scheme, unit) prog" where
  "setStatus st s = (Ok (), s\<lparr>next_step := st\<rparr>)"

text \<open>A call through \<^verbatim>\<open>m_service\<close>.\<close>

definition service_call ::
    "('j, ('e, 'z) impl_world_scheme, 'a) prog \<Rightarrow> ('j, ('e, 'z) impl_world_scheme, 'a) prog" where
  "service_call m s = (if m_service s then m s else (Stuck NullDeref, s))"

type_synonym ('j, 'e, 'z) client_ops = "('j, ('e, 'z) impl_world_scheme) management_client_ops"

abbreviation export_route where "export_route C r \<equiv> service_call (exportRoute C r)"
abbreviation remove_route where "remove_route C r \<equiv> service_call (removeRoute C r)"

definition null_text :: string where
  "null_text = ''(null)''"

section \<open>Lease selection\<close>

definition handleLease6Select where
  "handleLease6Select M C h =
     mbind (lift (getArgument ''query6'' (h_query6 h))) (\<lambda>query.
     mbind (lift (getArgument ''subnet6'' (h_subnet6 h))) (\<lambda>subnet.
     mbind (lift (getArgument ''lease6'' (h_lease6 h))) (\<lambda>lease.
     mbind (lift (getArgument ''fake_allocation'' (h_fake_allocation h))) (\<lambda>fake_allocation.
     if fake_allocation then ret ()
     else
       mbind (lift (deref query)) (\<lambda>query.
       mbind (lift (getRelay6LinkAddress0 query)) (\<lambda>relayAddr.
       mbind (lift (deref lease)) (\<lambda>lease.
       mseq (log_msg LEASE6_SELECT_INSERT [to_string_w (getTransid query),
               case_option null_text io_toString (getOption_IA_NA query),
               case_option null_text io_toString (getOption_IA_PD query)])
         (case l_type lease of
            TYPE_NA \<Rightarrow>
              export_route C \<lparr>re_tid = getTransid query, re_iaid = l_iaid lease, re_duid = l_duid lease,
                routeInfo = IA_NAInfo relayAddr (l_addr lease)\<rparr>
          | TYPE_PD \<Rightarrow>
              mbind (lift (findIA_NALeaseByDUID_IAID M (l_duid lease) (l_iaid lease))) (\<lambda>na. case na of
                Some na \<Rightarrow>
                  export_route C \<lparr>re_tid = getTransid query, re_iaid = l_iaid lease, re_duid = l_duid lease,
                    routeInfo = IA_PDInfo (l_addr na) (l_addr lease) (l_prefixlen lease)\<rparr>
              | None \<Rightarrow>
                  mseq (log_msg LEASE6_SELECT_NO_IA_NA_FAILED [to_string_w (l_iaid lease)])
                    (setStatus SKIP))
          | TYPE_TA \<Rightarrow> ret ()
          | TYPE_V4 \<Rightarrow> ret ()))))))))"

section \<open>Lease expiry\<close>

definition handleLease6Expire where
  "handleLease6Expire M C h =
     mbind (lift (getArgument ''lease6'' (h_lease6 h))) (\<lambda>lease.
     mbind (lift (getArgument ''remove_lease'' (h_remove_lease h))) (\<lambda>remove_lease.
     mbind (lift (deref lease)) (\<lambda>lease.
       (case l_type lease of
          TYPE_NA \<Rightarrow>
            mbind (lift (getActiveAndExpiredLeasesSize M TYPE_NA (l_duid lease) (l_iaid lease))) (\<lambda>size.
              remove_route C \<lparr>re_tid = 0, re_iaid = l_iaid lease, re_duid = l_duid lease,
                routeInfo = IA_NAInfoFuzzyRemove (l_addr lease)\<rparr>)
        | TYPE_PD \<Rightarrow>
            mbind (lift (getActiveAndExpiredLeasesSize M TYPE_PD (l_duid lease) (l_iaid lease))) (\<lambda>size.
              remove_route C \<lparr>re_tid = 0, re_iaid = l_iaid lease, re_duid = l_duid lease,
                routeInfo = IA_PDInfoFuzzyRemove (l_addr lease) (l_prefixlen lease)\<rparr>)
        | TYPE_TA \<Rightarrow> ret ()
        | TYPE_V4 \<Rightarrow> ret ()))))"

section \<open>Release and decline\<close>

text \<open>The \<^verbatim>\<open>switch\<close> the two handlers share, for a lease that goes away.\<close>

definition remove_lease_route where
  "remove_lease_route V M C transactionId relayAddr lease =
     (case l_type lease of
        TYPE_NA \<Rightarrow>
          remove_route C \<lparr>re_tid = transactionId, re_iaid = l_iaid lease, re_duid = l_duid lease,
            routeInfo = IA_NAInfo relayAddr (l_addr lease)\<rparr>
      | TYPE_PD \<Rightarrow>
          mbind (lift (findIA_NALeaseByDUID_IAID M (l_duid lease) (l_iaid lease))) (\<lambda>na. case na of
            None \<Rightarrow>
              log_msg ROUTE_REMOVE_FIND_IA_NA_LEASE_FAILED
                [to_string_w (l_iaid lease), case_option null_text (duid_toText V) (l_duid lease)]
          | Some na \<Rightarrow>
              remove_route C \<lparr>re_tid = transactionId, re_iaid = l_iaid lease, re_duid = l_duid lease,
                routeInfo = IA_PDInfo (l_addr na) (l_addr lease) (l_prefixlen lease)\<rparr>)
      | TYPE_TA \<Rightarrow> ret ()
      | TYPE_V4 \<Rightarrow> ret ())"

definition handleLease6Release where
  "handleLease6Release V M C h =
     mbind (lift (getArgument ''query6'' (h_query6 h))) (\<lambda>query.
     mbind (lift (getArgument ''lease6'' (h_lease6 h))) (\<lambda>lease.
     mbind (lift (deref query)) (\<lambda>query.
     mbind (lift (getRelay6LinkAddress0 query)) (\<lambda>relayAddr.
     mbind (lift (deref lease)) (\<lambda>lease.
       remove_lease_route V M C (getTransid query) relayAddr lease)))))"

definition handleLease6Decline where
  "handleLease6Decline V M C h =
     mbind (lift (getArgument ''query6'' (h_query6 h))) (\<lambda>query.
     mbind (lift (getArgument ''lease6'' (h_lease6 h))) (\<lambda>lease.
     mbind (lift (deref query)) (\<lambda>query.
     mbind (lift (getRelay6LinkAddress0 query)) (\<lambda>relayAddr.
     mbind (lift (deref lease)) (\<lambda>lease.
       remove_lease_route V M C (getTransid query) relayAddr lease)))))"

section \<open>Renew and rebind\<close>

definition renew_address where
  "renew_address C query relayAddr lease =
     mbind (lift (deref (getOption_IA_NA query))) (\<lambda>queryIA_NAOption.
     case io_iaaddr queryIA_NAOption of
       None \<Rightarrow> throw (Unexpected ''failed to extract IAAddr from IA_NA option'')
     | Some queryIAAddrOption \<Rightarrow>
         mbind (lift (deref queryIAAddrOption)) (\<lambda>queryOriginalAddr.
         let route = (\<lambda>a. \<lparr>re_tid = getTransid query, re_iaid = l_iaid lease, re_duid = l_duid lease,
                       routeInfo = IA_NAInfo relayAddr a\<rparr>) in
         mseq (if queryOriginalAddr \<noteq> l_addr lease then remove_route C (route queryOriginalAddr) else ret ())
           (export_route C (route (l_addr lease)))))"

definition renew_prefix where
  "renew_prefix isRebindProcess V M C query relayAddr lease =
     mbind (lift (deref (getOption_IA_PD query))) (\<lambda>queryIA_PDOption.
     case io_iaprefix queryIA_PDOption of
       None \<Rightarrow> throw (Unexpected ''failed to extract IAPREFIX from IA_PD option'')
     | Some queryIAPrefixOption \<Rightarrow>
         mbind (lift (deref queryIAPrefixOption)) (\<lambda>(queryOriginalAddr, queryOriginalPrefixLength).
         mbind (lift (findIA_NALeaseByDUID_IAID M (l_duid lease) (l_iaid lease))) (\<lambda>na. case na of
           None \<Rightarrow>
             mbind (lift (deref (l_duid lease))) (\<lambda>clientDUID.
               log_msg ROUTE_REMOVE_FIND_IA_NA_LEASE_FAILED [to_string_w (l_iaid lease), duid_toText V clientDUID])
         | Some na \<Rightarrow>
             (let oldRouteInfo = \<lparr>re_tid = getTransid query, re_iaid = l_iaid lease, re_duid = l_duid lease,
                    routeInfo = IA_PDInfo relayAddr queryOriginalAddr queryOriginalPrefixLength\<rparr>;
                  newRouteInfo = \<lparr>re_tid = getTransid query, re_iaid = l_iaid lease, re_duid = l_duid lease,
                    routeInfo = IA_PDInfo (l_addr na) (l_addr lease) (l_prefixlen lease)\<rparr> in
              if queryOriginalAddr \<noteq> l_addr lease then
                mseq (remove_route C oldRouteInfo) (export_route C newRouteInfo)
              else if isRebindProcess then export_route C newRouteInfo
              else ret ()))))"

definition handleRenewRebindProcess where
  "handleRenewRebindProcess isRebindProcess V M C query lease isIA_NA =
     mbind (lift (deref query)) (\<lambda>query.
     mbind (lift (getRelay6LinkAddress0 query)) (\<lambda>relayAddr.
     mbind (lift (deref lease)) (\<lambda>lease.
       if isIA_NA then renew_address C query relayAddr lease
       else renew_prefix isRebindProcess V M C query relayAddr lease)))"

text \<open>\<^verbatim>\<open>NoSuchArgument\<close> is caught, and a null pointer means the same.\<close>

definition has_ia_na :: "'j callout_handle \<Rightarrow> bool" where
  "has_ia_na h = (case h_ia_na h of NoArg \<Rightarrow> False | Arg tmp \<Rightarrow> tmp \<noteq> None)"

definition handleLease6Rebind where
  "handleLease6Rebind V M C h =
     mbind (lift (getArgument ''query6'' (h_query6 h))) (\<lambda>query.
     mbind (lift (getArgument ''lease6'' (h_lease6 h))) (\<lambda>lease.
       handleRenewRebindProcess True V M C query lease (has_ia_na h)))"

definition handleLease6Renew where
  "handleLease6Renew V M C h =
     mbind (lift (getArgument ''query6'' (h_query6 h))) (\<lambda>query.
     mbind (lift (getArgument ''lease6'' (h_lease6 h))) (\<lambda>lease.
       handleRenewRebindProcess False V M C query lease (has_ia_na h)))"

section \<open>Configuration and life cycle\<close>

definition configureAndInitClient ::
    "('j, 'e) env \<Rightarrow> (string \<Rightarrow> 'e option) \<Rightarrow> ('j, ('e, 'z) impl_world_scheme, unit) prog" where
  "configureAndInitClient V getParameter =
     (case getParameter ''connection-type'' of
        None \<Rightarrow> throw (BadValue ''No parameter \"connection-type\" in config'')
      | Some mgmtConnType \<Rightarrow>
          if e_type (el V) mgmtConnType \<noteq> E_string
          then throw (BadValue ''parameter \"connection-type\" must be a string'')
          else (case getParameter ''connection-params'' of
            None \<Rightarrow> throw (BadValue ''No parameter \"connection-params\" in config'')
          | Some mgmtConnParams \<Rightarrow>
              if e_type (el V) mgmtConnParams \<noteq> E_map
              then throw (BadValue ''parameter \"connection-params\" must be a map'')
              else mbind (lift (new_service V mgmtConnType (Some mgmtConnParams))) (\<lambda>(c, h) s.
                (Ok (), s\<lparr>m_service := True, m_client := c, hb := h, m_ioService := False\<rparr>))))"

definition impl_startService :: "('j, 'e) env \<Rightarrow> ('j, ('e, 'z) impl_world_scheme, unit) prog" where
  "impl_startService V s =
     (if m_service s then
        mseq (setIOService True)
        (mseq (svc_startService V) (log_msg START_SERVICE [''nxos_dhcp6_exporter''])) s
      else (Ok (), s))"

end
