(* ===== verification/Callout.thy ===== *)
theory Callout
  imports Exporter_Impl
begin

text \<open>
  The hook functions of \<^verbatim>\<open>src/callout.cpp\<close>, called by the DHCPv6 server, over the handlers of
  \<open>Exporter_Impl\<close>.  Lemmas: what each hook posts for each kind of lease, that the lease hooks
  contain every exception, when loading succeeds and what starting the service establishes.
\<close>

section \<open>Hooks\<close>

definition multi_threading_compatible :: int32 where
  "multi_threading_compatible = 1"

text \<open>
  \<^verbatim>\<open>inet6\<close> says whether the server's address family is \<^verbatim>\<open>AF_INET6\<close>; \<open>version\<close> is the text
  the build puts into \<^verbatim>\<open>version.hpp\<close>.
\<close>

definition load ::
    "('j, 'e) env \<Rightarrow> bool \<Rightarrow> string \<Rightarrow> (string \<Rightarrow> 'e option) \<Rightarrow> ('j, ('e, 'z) impl_world_scheme, int32) prog" where
  "load V inet6 version getParameter =
     mbind (catching
       (mseq (if inet6 then ret () else throw (Unexpected ''Exporter works only in DHCPv6 server''))
        (mseq (\<lambda>s. (Ok (), s\<lparr>impl := True, m_service := False\<rparr>))
        (mseq (configureAndInitClient V getParameter) (ret True))))
       (\<lambda>ex. mseq (log_msg INIT_FAILED [what ex]) (ret False)))
     (\<lambda>ok. if ok then mseq (log_msg LOAD [''nxos_dhcp6_exporter'', version]) (ret 0) else ret 1)"

definition unload :: "('j, ('e, 'z) impl_world_scheme, int32) prog" where
  "unload = mseq (\<lambda>s. (Ok (), s\<lparr>impl := False, m_service := False\<rparr>))
     (mseq (log_msg UNLOAD [''nxos_dhcp6_exporter'']) (ret 0))"

text \<open>A call through the static pointer \<^verbatim>\<open>impl\<close>.\<close>

definition impl_call ::
    "('j, ('e, 'z) impl_world_scheme, 'a) prog \<Rightarrow> ('j, ('e, 'z) impl_world_scheme, 'a) prog" where
  "impl_call m s = (if impl s then m s else (Stuck NullDeref, s))"

definition io_context_error :: string where
  "io_context_error = ''Error: io_context is nullptr''"

definition dhcp6_srv_configured ::
    "('j, 'e) env \<Rightarrow> 'j callout_handle \<Rightarrow> ('j, ('e, 'z) impl_world_scheme, int32) prog" where
  "dhcp6_srv_configured V h =
     catching
       (mbind (lift (getArgument ''io_context'' (h_io_context h))) (\<lambda>io_service.
        if io_service = None then
          mseq (setStatus DROP)
          (mseq (\<lambda>s. (Ok (), s\<lparr>error_arg := Some io_context_error\<rparr>))
          (mseq (log_msg INIT_FAILED [io_context_error]) (ret 1)))
        else
          mbind (lift (getArgument ''network_state'' (h_network_state h))) (\<lambda>network_state.
          mseq (impl_call (impl_startService V)) (ret 0))))
       (\<lambda>ex. lift (Stuck Aborted))"

definition subnet6_select :: "'j callout_handle \<Rightarrow> ('j, ('e, 'z) impl_world_scheme, int32) prog" where
  "subnet6_select h =
     catching
       (mbind (lift (getArgument ''query6'' (h_query6 h))) (\<lambda>query.
        mbind (lift (getArgument ''subnet6'' (h_subnet6 h))) (\<lambda>subnet. ret 0)))
       (\<lambda>ex. mseq (log_msg SUBNET6_SELECT_FAILED [what ex]) (ret 0))"

text \<open>The frame of the six lease hooks.\<close>

definition lease_callout ::
    "msg_id \<Rightarrow> ('j, ('e, 'z) impl_world_scheme, unit) prog \<Rightarrow> ('j, ('e, 'z) impl_world_scheme, int32) prog" where
  "lease_callout failed m =
     catching (mseq (impl_call m) (ret 0)) (\<lambda>ex. mseq (log_msg failed [what ex]) (ret 0))"

definition lease6_select where
  "lease6_select M C h = lease_callout LEASE6_SELECT_FAILED (handleLease6Select M C h)"

definition lease6_renew where
  "lease6_renew V M C h = lease_callout LEASE6_RENEW_FAILED (handleLease6Renew V M C h)"

definition lease6_rebind where
  "lease6_rebind V M C h = lease_callout LEASE6_REBIND_FAILED (handleLease6Rebind V M C h)"

definition lease6_decline where
  "lease6_decline V M C h = lease_callout LEASE6_DECLINE_FAILED (handleLease6Decline V M C h)"

definition lease6_release where
  "lease6_release V M C h = lease_callout LEASE6_RELEASE_FAILED (handleLease6Release V M C h)"

definition lease6_expire where
  "lease6_expire M C h = lease_callout LEASE6_EXPIRE_FAILED (handleLease6Expire M C h)"

section \<open>Containment\<close>

text \<open>
  Relations the operations of the exporter stay in: they restrict only the requests and the
  messages.  The first locale is for what depends neither on the client's methods nor on the
  heartbeat, the second allows the heartbeat's changes.
\<close>

locale impl_frame = logging R
  for R :: "('e, 'z) impl_world_scheme \<Rightarrow> ('e, 'z) impl_world_scheme \<Rightarrow> bool" +
  assumes R_status: "R s (s\<lparr>next_step := st\<rparr>)"
begin

lemma follows_service_call [follows_intros]: "follows R m \<Longrightarrow> follows R (service_call m)"
  by (simp add: follows_def service_call_def R_refl)

lemma follows_impl_call [follows_intros]: "follows R m \<Longrightarrow> follows R (impl_call m)"
  by (simp add: follows_def impl_call_def R_refl)

lemma follows_setStatus [follows_intros]: "follows R (setStatus st)"
  by (simp add: follows_def setStatus_def R_status)

lemma follows_lease_callout [follows_intros]: "follows R m \<Longrightarrow> follows R (lease_callout failed m)"
  unfolding lease_callout_def by (intro follows_intros)

lemma follows_until_return [follows_intros]: "(\<And>x. follows R (f x)) \<Longrightarrow> follows R (until_return f xs)"
  by (induction xs) (auto intro: follows_intros)

lemma follows_restoreFromMapping:
  assumes "\<And>route. follows R (op_sendRoutesToSwitch C route)" and "follows R h"
  shows "follows R (restoreFromMapping V M cfg C h m failed)"
proof -
  have "follows R (restore_lease V M C m l)" for m l
    unfolding restore_lease_def by (rule follows_at) (intro follows_intros assms)
  then show ?thesis
    unfolding restoreFromMapping_def restore_subnet_def by (intro follows_intros assms)
qed

end

locale impl_local = hb_local R + impl_frame R
  for R :: "('e, 'z) impl_world_scheme \<Rightarrow> ('e, 'z) impl_world_scheme \<Rightarrow> bool"

text \<open>The hooks reach the service only through these two calls, and no hook touches the heartbeat.\<close>

locale hook_effects = impl_frame R
  for R :: "('e, 'z) impl_world_scheme \<Rightarrow> ('e, 'z) impl_world_scheme \<Rightarrow> bool" +
  fixes V :: "('j, 'e) env"
  assumes follows_export_route [follows_intros]: "follows R (export_route (nxos_ops V M) r)"
    and follows_remove_route [follows_intros]: "follows R (remove_route (nxos_ops V M) r)"
begin

lemma follows_remove_lease_route [follows_intros]:
  "follows R (remove_lease_route V' M' (nxos_ops V M) tid relay l)"
  unfolding remove_lease_route_def by (intro follows_intros)

lemma follows_handlers [follows_intros]:
  "follows R (handleLease6Select M' (nxos_ops V M) h)"
  "follows R (handleLease6Expire M' (nxos_ops V M) h)"
  "follows R (handleLease6Release V' M' (nxos_ops V M) h)"
  "follows R (handleLease6Decline V' M' (nxos_ops V M) h)"
  "follows R (handleLease6Renew V' M' (nxos_ops V M) h)"
  "follows R (handleLease6Rebind V' M' (nxos_ops V M) h)"
  unfolding handleLease6Select_def handleLease6Expire_def handleLease6Release_def handleLease6Decline_def
    handleLease6Renew_def handleLease6Rebind_def handleRenewRebindProcess_def renew_address_def renew_prefix_def
  by (intro follows_intros follows_export_route follows_remove_route)+

end

locale impl_effects = impl_local R + hb_effects R V
  for R :: "('e, 'z) impl_world_scheme \<Rightarrow> ('e, 'z) impl_world_scheme \<Rightarrow> bool" and V :: "('j, 'e) env" +
  assumes follows_send: "follows R (\<lambda>s. sendRoutesToSwitch V (m_client s) route s)"
    and follows_remove: "follows R (\<lambda>s. removeRoutesFromSwitch V M (m_client s) route s)"
    and follows_mapping: "follows R (\<lambda>s. asyncGetHWAddrToInterfaceNameMapping V (m_client s) s)"
    and follows_lookup_answer: "follows R (\<lambda>s. handleAddressLookup V (m_client s) h a s)"
begin

lemma follows_nxos_ops [follows_intros]:
  "follows R (op_sendRoutesToSwitch (nxos_ops V M) route)"
  "follows R (op_removeRoutesFromSwitch (nxos_ops V M) route)"
  "follows R (op_asyncGetHWAddrToInterfaceNameMapping (nxos_ops V M))"
  unfolding nxos_ops_def management_client_ops.select_convs
  by (rule follows_send follows_remove follows_mapping)+

lemma follows_exportRoute [follows_intros]: "follows R (exportRoute (nxos_ops V M) r)"
  unfolding exportRoute_def by (intro follows_intros)

lemma follows_removeRoute [follows_intros]: "follows R (removeRoute (nxos_ops V M) r)"
  unfolding removeRoute_def by (rule follows_at) (intro follows_intros)

end

sublocale impl_effects \<subseteq> hook_effects
  by unfold_locales (intro follows_intros)+

text \<open>A relation in which every client's operations stay is one of the exporter's.\<close>

lemma impl_effectsI:
  assumes "impl_local R" and "hb_effects R V" and "\<And>c. client_effects R V c"
  shows "impl_effects R V"
proof (intro impl_effects.intro impl_effects_axioms.intro assms(1,2))
  show "follows R (\<lambda>s. sendRoutesToSwitch V (m_client s) route s)" for route
    by (rule follows_at) (rule client_effects.follows_send [OF assms(3)])
  show "follows R (\<lambda>s. removeRoutesFromSwitch V M (m_client s) route s)" for M route
    by (rule follows_at) (rule client_effects.follows_remove [OF assms(3)])
  show "follows R (\<lambda>s. asyncGetHWAddrToInterfaceNameMapping V (m_client s) s)"
    by (rule follows_at) (rule client_effects.follows_mapping [OF assms(3)])
  show "follows R (\<lambda>s. handleAddressLookup V (m_client s) h a s)" for h a
    by (rule follows_at) (rule client_effects.follows_handleAddressLookup [OF assms(3)])
qed

interpretation grows: impl_local world_le
  by unfold_locales (simp add: world_le_def)

interpretation grows: impl_effects world_le V
  by (rule impl_effectsI) unfold_locales

text \<open>A hook that returns 0 or runs into undefined behaviour, and only adds to the world.\<close>

definition contained :: "('j, ('e, 'z) world_scheme, int32) prog \<Rightarrow> bool" where
  "contained m \<longleftrightarrow> (\<forall>s. \<exists>s'. world_le s s' \<and> (m s = (Ok 0, s') \<or> (\<exists>u. m s = (Stuck u, s'))))"

lemma contained_lease_callout:
  assumes "grows (lease_callout failed m)"
  shows "contained (lease_callout failed m)"
  unfolding contained_def
proof
  fix s
  obtain r s' where m: "lease_callout failed m s = (r, s')" by fastforce
  have "r = Ok 0 \<or> (\<exists>u. r = Stuck u)"
    using m by (auto simp: lease_callout_def catching_def mseq_def mbind_def split: prod.splits outcome.splits)
  with m followsD [OF assms m] show "\<exists>s'. world_le s s' \<and> (lease_callout failed m s = (Ok 0, s') \<or>
      (\<exists>u. lease_callout failed m s = (Stuck u, s')))" by auto
qed

section \<open>Lemmas on what is posted\<close>

text \<open>A loaded and started exporter.\<close>

definition ready :: "('e, 'z) impl_world_scheme \<Rightarrow> bool" where
  "ready s \<longleftrightarrow> impl s \<and> m_service s \<and> started (m_client s)"

lemma export_route_prefix:
  assumes "requests_encoded V enc" and "ready s"
  shows "export_route (nxos_ops V M) \<lparr>re_tid = t, re_iaid = i, re_duid = d, routeInfo = IA_PDInfo na pd len\<rparr> s =
    (Ok (), s\<lparr>posted := posted s @ [command_request (m_client s)
        (enc [(1, createApplyRouteIpv6Command (subnet_text V pd len) (toText V na))])
        (RouteApply ''IA_PD'' (subnet_text V pd len) (toText V na))],
      logged := logged s @ [Log UPDATE_INFO_ON_DEVICE [to_string_w t, to_string_w i]]\<rparr>)"
  using assms
  by (simp add: service_call_def ready_def exportRoute_def mseq_def mbind_def sendRoutesToSwitch_def send_route_def
      catching_def post_commands_encoded toDHCPv6IATypeString_def)

lemma remove_route_prefix:
  assumes "requests_encoded V enc" and "ready s"
  shows "remove_route (nxos_ops V M) \<lparr>re_tid = t, re_iaid = i, re_duid = d, routeInfo = IA_PDInfo na pd len\<rparr> s =
    (Ok (), s\<lparr>posted := posted s @ [command_request (m_client s)
        (enc [(1, createRemoveRouteIpv6Command (subnet_text V pd len) (toText V na))])
        (RouteRemove ''IA_PD'' (subnet_text V pd len) (toText V na))],
      logged := logged s @ [Log REMOVE_INFO_ON_DEVICE [connectionName (m_client s), to_string_w t, to_string_w i]]\<rparr>)"
  using assms
  by (simp add: service_call_def ready_def removeRoute_def mseq_def mbind_def removeRoutesFromSwitch_def remove_prefix_fuzzy_def
      post_commands_encoded toDHCPv6IATypeString_def)

text \<open>The lookup of a relay address that precedes installing or removing the route of an address.\<close>

definition lookup_request ::
    "('j, 'e) env \<Rightarrow> ((int32 \<times> string) list \<Rightarrow> 'e) \<Rightarrow> mgmt_client \<Rightarrow> ioaddr \<Rightarrow> lookup_handler \<Rightarrow> 'e request" where
  "lookup_request V enc c a h = command_request c
     (enc [(1, createMappingVlanAddrToVlanIdCommand (host_text V a))]) (AddressLookup (host_text V a) relay_address h)"

lemma export_route_address:
  assumes "requests_encoded V enc" and "ready s"
  shows "export_route (nxos_ops V M) \<lparr>re_tid = t, re_iaid = i, re_duid = d, routeInfo = IA_NAInfo relay na\<rparr> s =
    (Ok (), s\<lparr>posted := posted s @ [lookup_request V enc (m_client s) relay
        (ApplyVlan (host_text V na) (host_text V relay) ''IA_NA'')],
      logged := logged s @ [Log UPDATE_INFO_ON_DEVICE [to_string_w t, to_string_w i]]\<rparr>)"
  using assms
  by (simp add: service_call_def ready_def exportRoute_def mseq_def mbind_def sendRoutesToSwitch_def send_route_def
      catching_def asyncLookupAddressInternal_def post_commands_encoded toDHCPv6IATypeString_def lookup_request_def)

lemma remove_route_address:
  assumes "requests_encoded V enc" and "ready s"
  shows "remove_route (nxos_ops V M) \<lparr>re_tid = t, re_iaid = i, re_duid = d, routeInfo = IA_NAInfo relay na\<rparr> s =
    (Ok (), s\<lparr>posted := posted s @ [lookup_request V enc (m_client s) relay
        (RemoveVlan (host_text V na) (host_text V relay) ''IA_NA'')],
      logged := logged s @ [Log REMOVE_INFO_ON_DEVICE [connectionName (m_client s), to_string_w t, to_string_w i]]\<rparr>)"
  using assms
  by (simp add: service_call_def ready_def removeRoute_def mseq_def mbind_def removeRoutesFromSwitch_def remove_prefix_fuzzy_def
      asyncLookupAddressInternal_def post_commands_encoded toDHCPv6IATypeString_def lookup_request_def)

lemma ready_update [simp]:
  "ready (s\<lparr>posted := p, logged := l\<rparr>) = ready s" "ready (s\<lparr>logged := l\<rparr>) = ready s"
  "ready (s\<lparr>posted := p\<rparr>) = ready s"
  by (simp_all add: ready_def)

lemma lease_callout_Ok:
  "ready s \<Longrightarrow> m s = (Ok (), s') \<Longrightarrow> lease_callout failed m s = (Ok 0, s')"
  by (simp add: lease_callout_def impl_call_def ready_def mseq_def mbind_def catching_def)

lemma service_startService_Ok:
  assumes "url_scheme (cp_url (mc_params (m_client s))) = HTTP" and "m_ioService s"
    and "timer_setup V (interval_ms (hb s)) = Ok ()"
  shows "svc_startService V s = (Ok (), s\<lparr>
    m_client := (m_client s)\<lparr>mc_httpClient := Some (started_client (cp_auth (mc_params (m_client s))))\<rparr>,
    hb := (hb s)\<lparr>connectionRestoredHandler := True,
      hb_httpClient := Some (started_client (cp_auth (hb_params (hb s)))),
      hb_timer := Some (Running (interval_ms (hb s))), m_prevLostConnection := True, m_prevUptimeSecs := 0\<rparr>\<rparr>)"
  using assms
  by (simp add: svc_startService_def mseq_def mbind_def setConnectionRestoredHandler_def hb_startService_def
      setup_timer_def interval_ms_def startClient_def)

text \<open>A packet, a handle and a state for the witnesses.\<close>

definition sample_query :: "jval pkt" where
  "sample_query = \<lparr>getRelay6LinkAddress0 = Ok 1, getTransid = 99,
     getOption_IA_NA = Some \<lparr>io_toString = ''IA_NA'', io_iaaddr = Some (Some 5), io_iaprefix = None\<rparr>,
     getOption_IA_PD = Some \<lparr>io_toString = ''IA_PD'', io_iaaddr = None, io_iaprefix = Some (Some (8, 56))\<rparr>\<rparr>"

definition sample_handle :: "lease \<Rightarrow> jval callout_handle" where
  "sample_handle l = \<lparr>h_query6 = Arg (Some sample_query), h_subnet6 = Arg (Some ()), h_lease6 = Arg (Some l),
     h_fake_allocation = Arg False, h_remove_lease = Arg True, h_ia_na = Arg None, h_ia_pd = Arg (Some
       \<lparr>io_toString = ''IA_PD'', io_iaaddr = None, io_iaprefix = Some (Some (8, 56))\<rparr>),
     h_io_context = Arg (Some ()), h_network_state = Arg (Some ())\<rparr>"

definition sample_state :: "kelem impl_world" where
  "sample_state = \<lparr>posted = [], logged = [], hb = sample_heartbeat, m_client = sample_client, m_ioService = True,
     impl = True, m_service = True, next_step = CONTINUE, error_arg = None\<rparr>"

lemma sample_sel [simp]:
  "ready sample_state" "h_query6 (sample_handle l) = Arg (Some sample_query)"
  "h_subnet6 (sample_handle l) = Arg (Some ())" "h_lease6 (sample_handle l) = Arg (Some l)"
  "h_fake_allocation (sample_handle l) = Arg False" "getRelay6LinkAddress0 sample_query = Ok 1"
  "h_ia_na (sample_handle l) = Arg None" "m_client sample_state = sample_client" "posted sample_state = []"
  "h_io_context (sample_handle l) = Arg (Some ())" "h_network_state (sample_handle l) = Arg (Some ())"
  "getOption_IA_PD sample_query = Some \<lparr>io_toString = ''IA_PD'', io_iaaddr = None, io_iaprefix = Some (Some (8, 56))\<rparr>"
  "getOption_IA_NA sample_query = Some \<lparr>io_toString = ''IA_NA'', io_iaaddr = Some (Some 5), io_iaprefix = None\<rparr>"
  "hb sample_state = sample_heartbeat" "impl sample_state" "m_service sample_state"
  by (simp_all add: sample_state_def sample_handle_def sample_query_def ready_def started_def sample_client_def)

text \<open>
  A selection of an address that is not a fake one, and a release, post one lookup of the relay's
  address each.
\<close>

lemma select_address_posts:
  assumes "requests_encoded V enc" and "ready s"
    and "h_query6 h = Arg (Some q)" and "h_subnet6 h = Arg sub" and "h_lease6 h = Arg (Some l)"
    and "h_fake_allocation h = Arg False" and "getRelay6LinkAddress0 q = Ok relay" and "l_type l = TYPE_NA"
  shows "\<exists>msgs. lease6_select M (nxos_ops V M) h s =
    (Ok 0, s\<lparr>posted := posted s @ [lookup_request V enc (m_client s) relay
        (ApplyVlan (host_text V (l_addr l)) (host_text V relay) ''IA_NA'')], logged := logged s @ msgs\<rparr>)"
proof -
  have "\<exists>msgs. handleLease6Select M (nxos_ops V M) h s =
    (Ok (), s\<lparr>posted := posted s @ [lookup_request V enc (m_client s) relay
        (ApplyVlan (host_text V (l_addr l)) (host_text V relay) ''IA_NA'')], logged := logged s @ msgs\<rparr>)"
    using assms(2-)
    by (simp add: handleLease6Select_def getArgument_def deref_def mseq_def mbind_def
        export_route_address [OF assms(1)]) (rule exI, rule refl)
  then show ?thesis
    using lease_callout_Ok [OF assms(2)] unfolding lease6_select_def by blast
qed

lemma release_address_posts:
  assumes "requests_encoded V enc" and "ready s"
    and "h_query6 h = Arg (Some q)" and "h_lease6 h = Arg (Some l)"
    and "getRelay6LinkAddress0 q = Ok relay" and "l_type l = TYPE_NA"
  shows "\<exists>msgs. lease6_release V M (nxos_ops V M) h s =
    (Ok 0, s\<lparr>posted := posted s @ [lookup_request V enc (m_client s) relay
        (RemoveVlan (host_text V (l_addr l)) (host_text V relay) ''IA_NA'')], logged := logged s @ msgs\<rparr>)"
proof -
  have "\<exists>msgs. handleLease6Release V M (nxos_ops V M) h s =
    (Ok (), s\<lparr>posted := posted s @ [lookup_request V enc (m_client s) relay
        (RemoveVlan (host_text V (l_addr l)) (host_text V relay) ''IA_NA'')], logged := logged s @ msgs\<rparr>)"
    using assms(2-)
    by (simp add: handleLease6Release_def remove_lease_route_def getArgument_def deref_def mbind_def
        remove_route_address [OF assms(1)]) (rule exI, rule refl)
  then show ?thesis
    using lease_callout_Ok [OF assms(2)] unfolding lease6_release_def by blast
qed

lemma new_service_Ok_iff:
  "(\<exists>r. new_service V t p = Ok r) \<longleftrightarrow> e_stringValue (el V) t = Ok ''nxos'' \<and> (\<exists>cp. parseConfig V p = Ok cp)"
  by (cases "e_stringValue (el V) t")
    (auto simp: new_service_def rbind_eq_Ok rmap_eq_Ok ManagementClient_init_def HeartbeatService_init_def
      new_mgmt_client_def new_heartbeat_def split: exn.splits)

lemma configure_Ok_iff:
  "(\<exists>s'. configureAndInitClient V params s = (Ok (), s')) \<longleftrightarrow>
    (\<exists>t p cp. params ''connection-type'' = Some t \<and> e_type (el V) t = E_string \<and>
      params ''connection-params'' = Some p \<and> e_type (el V) p = E_map \<and>
      e_stringValue (el V) t = Ok ''nxos'' \<and> parseConfig V (Some p) = Ok cp)"
proof (cases "\<exists>t p. params ''connection-type'' = Some t \<and> e_type (el V) t = E_string \<and>
      params ''connection-params'' = Some p \<and> e_type (el V) p = E_map")
  case True
  then obtain t p where tp: "params ''connection-type'' = Some t" "e_type (el V) t = E_string"
      "params ''connection-params'' = Some p" "e_type (el V) p = E_map" by auto
  have "(\<exists>s'. configureAndInitClient V params s = (Ok (), s')) \<longleftrightarrow> (\<exists>r. new_service V t (Some p) = Ok r)"
    by (cases "new_service V t (Some p)") (auto simp: configureAndInitClient_def tp split: prod.split)
  then show ?thesis unfolding new_service_Ok_iff using tp by auto
next
  case False
  then show ?thesis by (auto simp: configureAndInitClient_def split: option.split)
qed

section \<open>Properties\<close>

text \<open>C8: whatever arguments Kea passes and whatever the lease database does, each of the six lease
  hooks returns 0 or runs into undefined behaviour: no exception leaves it, and no posted request
  or message is taken back.\<close>

theorem lease_hooks_contain_errors:
  "contained (lease6_select M (nxos_ops V M) h) \<and> contained (lease6_renew V M (nxos_ops V M) h) \<and>
   contained (lease6_rebind V M (nxos_ops V M) h) \<and> contained (lease6_decline V M (nxos_ops V M) h) \<and>
   contained (lease6_release V M (nxos_ops V M) h) \<and> contained (lease6_expire M (nxos_ops V M) h)"
  unfolding lease6_select_def lease6_renew_def lease6_rebind_def lease6_decline_def lease6_release_def lease6_expire_def
  by (intro conjI contained_lease_callout grows.follows_lease_callout grows.follows_handlers)

text \<open>C34: when a client renews or rebinds a prefix and was given another one, the hook posts the removal
  of the old prefix and the installation of the new one, in this order.  The new route leads to the
  client's address, but the removal names the relay's address as next hop: it is the removal of the
  route that was installed for the old prefix only if the two addresses are the same.\<close>

theorem moved_prefix_removal:
  assumes "requests_encoded V enc" and "ready s" and "toText_ok V"
    and "h_query6 h = Arg (Some q)" and "h_lease6 h = Arg (Some l)" and "\<not> has_ia_na h"
    and "getRelay6LinkAddress0 q = Ok relay" and "getOption_IA_PD q = Some opt"
    and "io_iaprefix opt = Some (Some (old, old_len))" and "old \<noteq> l_addr l"
    and "findIA_NALeaseByDUID_IAID M (l_duid l) (l_iaid l) = Ok (Some na)"
  shows "\<exists>msgs removal. lease6_renew V M (nxos_ops V M) h s =
      (Ok 0, s\<lparr>posted := posted s @ [
          command_request (m_client s) (enc [(1, removal)]) (RouteRemove ''IA_PD'' (subnet_text V old old_len) (toText V relay)),
          command_request (m_client s) (enc [(1, createApplyRouteIpv6Command (subnet_text V (l_addr l) (l_prefixlen l))
            (toText V (l_addr na)))]) (RouteApply ''IA_PD'' (subnet_text V (l_addr l) (l_prefixlen l)) (toText V (l_addr na)))],
        logged := logged s @ msgs\<rparr>) \<and>
    (removal = ''no '' @ createApplyRouteIpv6Command (subnet_text V old old_len) (toText V (l_addr na)) \<longleftrightarrow> relay = l_addr na)"
proof -
  have "\<exists>msgs. handleLease6Renew V M (nxos_ops V M) h s =
      (Ok (), s\<lparr>posted := posted s @ [
          command_request (m_client s) (enc [(1, createRemoveRouteIpv6Command (subnet_text V old old_len) (toText V relay))])
            (RouteRemove ''IA_PD'' (subnet_text V old old_len) (toText V relay)),
          command_request (m_client s) (enc [(1, createApplyRouteIpv6Command (subnet_text V (l_addr l) (l_prefixlen l))
            (toText V (l_addr na)))]) (RouteApply ''IA_PD'' (subnet_text V (l_addr l) (l_prefixlen l)) (toText V (l_addr na)))],
        logged := logged s @ msgs\<rparr>)"
    using assms(2,4-)
    by (simp add: handleLease6Renew_def handleRenewRebindProcess_def renew_prefix_def getArgument_def deref_def
        mseq_def mbind_def export_route_prefix [OF assms(1)] remove_route_prefix [OF assms(1)])
      (rule exI, rule refl)
  moreover have "createRemoveRouteIpv6Command (subnet_text V old old_len) (toText V relay) =
      ''no '' @ createApplyRouteIpv6Command (subnet_text V old old_len) (toText V (l_addr na)) \<longleftrightarrow> relay = l_addr na"
    using assms(3) subnet_text_blank_free [OF assms(3)]
    by (auto simp: remove_command apply_command_inject toText_ok_def inj_def)
  ultimately show ?thesis
    using lease_callout_Ok [OF assms(2)] unfolding lease6_renew_def by blast
qed

lemma moved_prefix_removal_witness:
  "fst (lease6_renew (std_env (std_json True (\<lambda>s. None))) (list_db [(1, sample_lease TYPE_NA 7 False)])
      (nxos_ops (std_env (std_json True (\<lambda>s. None))) (list_db [(1, sample_lease TYPE_NA 7 False)]))
      (sample_handle (sample_lease TYPE_PD 9 False)) sample_state) = Ok 0"
proof -
  let ?V = "std_env (std_json True (\<lambda>s. None))"
  let ?M = "list_db [(1, sample_lease TYPE_NA 7 False)]"
  let ?h = "sample_handle (sample_lease TYPE_PD 9 False)"
  have na: "\<not> has_ia_na ?h" by (simp add: has_ia_na_def)
  have found: "findIA_NALeaseByDUID_IAID ?M (l_duid (sample_lease TYPE_PD 9 False)) (l_iaid (sample_lease TYPE_PD 9 False))
      = Ok (Some (sample_lease TYPE_NA 7 False))"
    by (simp add: findIA_NALeaseByDUID_IAID_def)
  have opt: "io_iaprefix \<lparr>io_toString = ''IA_PD'', io_iaaddr = None, io_iaprefix = Some (Some (8, 56))\<rparr> = Some (Some (8, 56))"
    by simp
  have moved: "8 \<noteq> l_addr (sample_lease TYPE_PD 9 False)" by simp
  obtain msgs removal where r: "lease6_renew ?V ?M (nxos_ops ?V ?M) ?h sample_state = (Ok 0, sample_state\<lparr>posted := msgs, logged := removal\<rparr>)"
    using moved_prefix_removal [OF std_encoded sample_sel(1) std_env_toText_ok sample_sel(2) sample_sel(4) na
      sample_sel(6) sample_sel(12) opt moved found] by blast
  then show ?thesis by simp
qed

text \<open>C36: an exporter that is configured for an HTTPS switch stops the server: when Kea reports that it is
  configured, starting the client throws, and the hook calls \<open>std::abort\<close>.\<close>

theorem https_aborts_server:
  assumes "impl s" and "m_service s" and "h_io_context h = Arg (Some x)" and "h_network_state h = Arg y"
    and "url_scheme (cp_url (mc_params (m_client s))) = HTTPS"
  shows "fst (dhcp6_srv_configured V h s) = Stuck Aborted"
  using assms
  by (simp add: dhcp6_srv_configured_def getArgument_def catching_def mseq_def mbind_def impl_call_def
      impl_startService_def setIOService_def svc_startService_def startClient_def)

lemma https_aborts_server_witness:
  "fst (dhcp6_srv_configured (std_env (std_json True (\<lambda>s. None))) (sample_handle (sample_lease TYPE_NA 7 False))
    (sample_state\<lparr>m_client := \<lparr>mc_params = (mc_params sample_client)\<lparr>cp_url := std_url ''https://switch''\<rparr>,
       mc_httpClient = None\<rparr>\<rparr>)) = Stuck Aborted"
  by (rule https_aborts_server) (simp_all add: std_url_def)

text \<open>C15: when Kea reports that it is configured and the switch is an HTTP URL with an interval the timer
  takes, the hook returns 0 and the exporter is ready: the client is started with the configured
  credentials, and the heartbeat runs, with the connection taken as lost so that its first answer
  restores the routes.\<close>

theorem configured_is_ready:
  assumes "impl s" and "m_service s" and "h_io_context h = Arg (Some x)" and "h_network_state h = Arg y"
    and "url_scheme (cp_url (mc_params (m_client s))) = HTTP"
    and "timer_setup V (interval_ms (hb s)) = Ok ()" and "\<not> connectionFailedHandler (hb s)"
  shows "\<exists>s'. dhcp6_srv_configured V h s = (Ok 0, s') \<and> ready s' \<and> hb_running V (hb s') \<and>
    m_prevLostConnection (hb s') \<and>
    mc_httpClient (m_client s') = Some (started_client (cp_auth (mc_params (m_client s)))) \<and>
    posted s' = posted s"
proof -
  have start: "svc_startService V (s\<lparr>m_ioService := True\<rparr>) = (Ok (), (s\<lparr>m_ioService := True\<rparr>)\<lparr>
    m_client := (m_client s)\<lparr>mc_httpClient := Some (started_client (cp_auth (mc_params (m_client s))))\<rparr>,
    hb := (hb s)\<lparr>connectionRestoredHandler := True,
      hb_httpClient := Some (started_client (cp_auth (hb_params (hb s)))),
      hb_timer := Some (Running (interval_ms (hb s))), m_prevLostConnection := True, m_prevUptimeSecs := 0\<rparr>\<rparr>)"
    using service_startService_Ok [of "s\<lparr>m_ioService := True\<rparr>" V] assms by simp
  show ?thesis
    using assms start
    by (simp add: dhcp6_srv_configured_def getArgument_def catching_def mseq_def mbind_def impl_call_def
        impl_startService_def setIOService_def ready_def started_def hb_running_def interval_ms_def)
qed

lemma configured_is_ready_witness:
  "\<exists>s'. dhcp6_srv_configured (std_env (std_json True (\<lambda>s. None))) (sample_handle (sample_lease TYPE_NA 7 False))
      (sample_state\<lparr>m_client := sample_client\<lparr>mc_httpClient := None\<rparr>\<rparr>) = (Ok 0, s') \<and> ready s'"
proof -
  let ?s = "sample_state\<lparr>m_client := sample_client\<lparr>mc_httpClient := None\<rparr>\<rparr>"
  have "url_scheme (cp_url (mc_params (m_client ?s))) = HTTP" by (simp add: sample_client_def std_url_def)
  moreover have "timer_setup (std_env (std_json True (\<lambda>s. None))) (interval_ms (hb ?s)) = Ok ()"
    by (simp add: sample_heartbeat_def interval_ms_def sample_client_def)
  moreover have "\<not> connectionFailedHandler (hb ?s)" by (simp add: sample_heartbeat_def)
  ultimately show ?thesis
    using configured_is_ready [of ?s "sample_handle (sample_lease TYPE_NA 7 False)" "()" "Some ()"
        "std_env (std_json True (\<lambda>s. None))"] by auto
qed

text \<open>C16: loading returns 0 exactly when the server is a DHCPv6 server, the connection type is the string
  \<open>nxos\<close>, and the connection parameters are a map that \<open>parseConfig\<close> accepts.\<close>

theorem load_succeeds_iff:
  "fst (load V inet6 version params s) = Ok 0 \<longleftrightarrow>
    inet6 \<and> (\<exists>t p cp. params ''connection-type'' = Some t \<and> e_type (el V) t = E_string \<and>
      params ''connection-params'' = Some p \<and> e_type (el V) p = E_map \<and>
      e_stringValue (el V) t = Ok ''nxos'' \<and> parseConfig V (Some p) = Ok cp)"
proof -
  let ?s = "s\<lparr>impl := True, m_service := False\<rparr>"
  have "fst (load V inet6 version params s) = Ok 0 \<longleftrightarrow>
    inet6 \<and> (\<exists>s'. configureAndInitClient V params ?s = (Ok (), s'))"
    by (cases "configureAndInitClient V params ?s"; cases "fst (configureAndInitClient V params ?s)")
      (auto simp: load_def mseq_def mbind_def catching_def)
  then show ?thesis unfolding configure_Ok_iff .
qed

text \<open>C35: when the lease of a prefix expires and its client still has an active address, the hook posts one
  command, which removes a route to that address written as a host prefix; it never is the removal
  of a route the exporter installed for a prefix, which leads to an address written without a
  prefix length.\<close>

theorem expired_prefix_removal:
  assumes "requests_encoded V enc" and "ready s" and "toText_ok V"
    and "h_lease6 h = Arg (Some l)" and "h_remove_lease h = Arg b" and "l_type l = TYPE_PD"
    and "getActiveAndExpiredLeasesSize M TYPE_PD (l_duid l) (l_iaid l) = Ok n"
    and "findIA_NALeaseByDUID_IAID M (l_duid l) (l_iaid l) = Ok (Some na)"
  shows "\<exists>msgs removal. lease6_expire M (nxos_ops V M) h s =
      (Ok 0, s\<lparr>posted := posted s @ [command_request (m_client s) (enc [(1, removal)])
          (RouteRemove ''IA_PD'' (subnet_text V (l_addr l) (l_prefixlen l)) (host_text V (l_addr na)))],
        logged := logged s @ msgs\<rparr>) \<and>
    (\<forall>pd len a. removal \<noteq> ''no '' @ createApplyRouteIpv6Command (subnet_text V pd len) (toText V a))"
proof -
  let ?removal = "createRemoveRouteIpv6Command (subnet_text V (l_addr l) (l_prefixlen l)) (host_text V (l_addr na))"
  have "\<exists>msgs. handleLease6Expire M (nxos_ops V M) h s =
      (Ok (), s\<lparr>posted := posted s @ [command_request (m_client s) (enc [(1, ?removal)])
          (RouteRemove ''IA_PD'' (subnet_text V (l_addr l) (l_prefixlen l)) (host_text V (l_addr na)))],
        logged := logged s @ msgs\<rparr>)"
    using assms(2,4-)
    by (simp add: handleLease6Expire_def getArgument_def deref_def mseq_def mbind_def service_call_def ready_def
        removeRoute_def removeRoutesFromSwitch_def remove_prefix_fuzzy_def post_commands_encoded [OF assms(1)] toDHCPv6IATypeString_def Let_def)
      (rule exI [of _ "[Log REMOVE_INFO_ON_DEVICE [connectionName (m_client s), to_string 0, to_string_w (l_iaid l)]]"],
        simp)
  moreover have "?removal \<noteq> ''no '' @ createApplyRouteIpv6Command (subnet_text V pd len) (toText V a)" for pd len a
  proof
    assume "?removal = ''no '' @ createApplyRouteIpv6Command (subnet_text V pd len) (toText V a)"
    then have "host_text V (l_addr na) = toText V a"
      using subnet_text_blank_free [OF assms(3)] by (simp add: remove_command apply_command_inject)
    moreover have "CHR ''/'' \<in> set (host_text V (l_addr na))" by (simp add: host_text_def)
    ultimately show False using assms(3) by (simp add: toText_ok_def)
  qed
  ultimately show ?thesis
    using lease_callout_Ok [OF assms(2)] unfolding lease6_expire_def by blast
qed

lemma expired_prefix_removal_witness:
  "fst (lease6_expire (list_db [(1, sample_lease TYPE_NA 7 False)])
      (nxos_ops (std_env (std_json True (\<lambda>s. None))) (list_db [(1, sample_lease TYPE_NA 7 False)]))
      (sample_handle (sample_lease TYPE_PD 9 False)) sample_state) = Ok 0"
proof -
  let ?V = "std_env (std_json True (\<lambda>s. None))"
  let ?M = "list_db [(1, sample_lease TYPE_NA 7 False)]"
  let ?h = "sample_handle (sample_lease TYPE_PD 9 False)"
  have rm: "h_remove_lease ?h = Arg True" by (simp add: sample_handle_def)
  have pd: "l_type (sample_lease TYPE_PD 9 False) = TYPE_PD" by simp
  have found: "findIA_NALeaseByDUID_IAID ?M (l_duid (sample_lease TYPE_PD 9 False)) (l_iaid (sample_lease TYPE_PD 9 False))
      = Ok (Some (sample_lease TYPE_NA 7 False))"
    by (simp add: findIA_NALeaseByDUID_IAID_def)
  have size: "getActiveAndExpiredLeasesSize ?M TYPE_PD (l_duid (sample_lease TYPE_PD 9 False))
      (l_iaid (sample_lease TYPE_PD 9 False)) = Ok 0"
    by (simp add: getActiveAndExpiredLeasesSize_def)
  obtain p l where "lease6_expire ?M (nxos_ops ?V ?M) ?h sample_state = (Ok 0, sample_state\<lparr>posted := p, logged := l\<rparr>)"
    using expired_prefix_removal [OF std_encoded sample_sel(1) std_env_toText_ok sample_sel(4) rm pd size found]
    by blast
  then show ?thesis by simp
qed

end
