(* ===== verification/System.thy ===== *)
theory System
  imports Callout "HOL-Library.Multiset"
begin

text \<open>
  The exporter as a whole: the hooks the server calls, the timer that fires, and the answers of
  the switch, in any order.  A pending request is answered at any time after it was posted, as
  the threads of the two HTTP clients do; the hooks, the timer and the answers each run to their
  end before the next event, and what leaves an answer's handler as an exception is dropped by
  the thread that runs it.

  Lemmas: which requests can be pending, that answering them comes to an end, and what becomes of
  a lookup and of a restore from the answer of the switch to the next request.
\<close>

section \<open>Events\<close>

text \<open>The response handlers by their constructors: the bodies of the lambdas.\<close>

fun handle_response ::
    "('j, 'e) env \<Rightarrow> 'j lease_mgr \<Rightarrow> cfg_mgr \<Rightarrow> handler \<Rightarrow> 'j response_args
      \<Rightarrow> ('j, ('e, 'z) impl_world_scheme, unit) prog" where
  "handle_response V M cfg (RouteApply ty src dst) a s = handleRouteApply V (m_client s) ty src dst a s"
| "handle_response V M cfg (RouteRemove ty src dst) a s = handleRouteRemove V (m_client s) ty src dst a s"
| "handle_response V M cfg (AddressLookup addr ty h) a s = handleAddressLookup V (m_client s) h a s"
| "handle_response V M cfg NeighborMapping a s =
     handleNeighborLookup V (m_client s) (restoreFromMapping V M cfg (nxos_ops V M) handlerFailedCallback) a s"
| "handle_response V M cfg HeartbeatResponse a s =
     handleHeartbeat V (ret ()) (restoreLeasesFromLeaseDatabase (nxos_ops V M)) a s"

datatype hook = Select | Renew | Rebind | Decline | Release | Expire

fun run_hook ::
    "('j, 'e) env \<Rightarrow> 'j lease_mgr \<Rightarrow> hook \<Rightarrow> 'j callout_handle \<Rightarrow> ('j, ('e, 'z) impl_world_scheme, int32) prog" where
  "run_hook V M Select h = lease6_select M (nxos_ops V M) h"
| "run_hook V M Renew h = lease6_renew V M (nxos_ops V M) h"
| "run_hook V M Rebind h = lease6_rebind V M (nxos_ops V M) h"
| "run_hook V M Decline h = lease6_decline V M (nxos_ops V M) h"
| "run_hook V M Release h = lease6_release V M (nxos_ops V M) h"
| "run_hook V M Expire h = lease6_expire M (nxos_ops V M) h"

text \<open>One answer to a pending request.\<close>

inductive reply_step ::
    "('j, 'e) env \<Rightarrow> ('e, 'z) impl_world_scheme \<Rightarrow> ('e, 'z) impl_world_scheme \<Rightarrow> bool" for V where
  "posted s = xs @ rq # ys \<Longrightarrow>
    run_request V (handle_response V M cfg) rq rep (s\<lparr>posted := xs @ ys\<rparr>) = (r, s') \<Longrightarrow>
    \<nexists>u. r = Stuck u \<Longrightarrow> reply_step V s s'"

text \<open>The server reports its configuration once: a second start would destroy the clients of the first.\<close>

inductive sys_step ::
    "('j, 'e) env \<Rightarrow> ('e, 'z) impl_world_scheme \<Rightarrow> ('e, 'z) impl_world_scheme \<Rightarrow> bool" for V where
  sys_reply: "reply_step V s s' \<Longrightarrow> sys_step V s s'"
| sys_hook: "run_hook V M k h s = (Ok code, s') \<Longrightarrow> sys_step V s s'"
| sys_configured: "(m_service s \<Longrightarrow> mc_httpClient (m_client s) = None) \<Longrightarrow>
    dhcp6_srv_configured V h s = (Ok code, s') \<Longrightarrow> sys_step V s s'"
| sys_timer: "m_service s \<Longrightarrow> hb_timer (hb s) = Some (Running n) \<Longrightarrow> heartbeatLoop V s = (Ok (), s') \<Longrightarrow> sys_step V s s'"

inductive_cases reply_stepE: "reply_step V s s'"
inductive_cases sys_stepE: "sys_step V s s'"

section \<open>What the events may do to the state\<close>

lemma svc_startService_eq:
  "svc_startService V = (\<lambda>s. (if \<not> m_ioService s then lift (Stuck NullDeref)
      else mbind (lift (startClient (m_client s))) (\<lambda>c.
        mseq (\<lambda>s. (Ok (), s\<lparr>m_client := c\<rparr>)) (mseq (modify_hb setConnectionRestoredHandler) (hb_startService V)))) s)"
  by (auto simp: svc_startService_def fun_eq_iff)

context hook_effects
begin

lemma follows_run_hook [follows_intros]: "follows R (run_hook V M k h)"
  by (cases k) (auto simp: lease6_select_def lease6_renew_def lease6_rebind_def lease6_decline_def
      lease6_release_def lease6_expire_def intro!: follows_intros follows_handlers)

end

context impl_effects
begin

lemma follows_handle_response [follows_intros]: "follows R (handle_response V M cfg h a)"
proof -
  have "follows R (\<lambda>s. handleRouteApply V (m_client s) ty src dst a s)" for ty src dst
    by (rule follows_at) (intro follows_intros)
  moreover have "follows R (\<lambda>s. handleRouteRemove V (m_client s) ty src dst a s)" for ty src dst
    by (rule follows_at) (intro follows_intros)
  moreover have "follows R (\<lambda>s. handleAddressLookup V (m_client s) h a s)" for h
    by (rule follows_lookup_answer)
  moreover have "follows R (\<lambda>s. handleNeighborLookup V (m_client s)
      (restoreFromMapping V M cfg (nxos_ops V M) handlerFailedCallback) a s)"
    by (rule follows_at) (intro follows_intros follows_restoreFromMapping)
  moreover have "follows R (handleHeartbeat V (ret ()) (restoreLeasesFromLeaseDatabase (nxos_ops V M)) a)"
    unfolding restoreLeasesFromLeaseDatabase_def by (intro follows_intros)
  ultimately show ?thesis by (cases h) (simp_all add: follows_def)
qed

end

text \<open>
  Starting replaces the client and the heartbeat's parts; only relations that say nothing about
  these allow it.
\<close>

locale impl_free = impl_effects +
  assumes R_free: "posted t = posted s \<Longrightarrow> logged t = logged s \<Longrightarrow> R s t"
begin

lemma follows_local [follows_intros]:
  "(\<And>s. posted (f s) = posted s) \<Longrightarrow> (\<And>s. logged (f s) = logged s) \<Longrightarrow> follows R (\<lambda>s. (r, f s))"
  by (simp add: follows_def R_free)

lemma follows_modify_hb_free [follows_intros]: "follows R (modify_hb f)"
  by (simp add: follows_def R_free)

lemma follows_svc_startService [follows_intros]: "follows R (svc_startService V)"
  unfolding svc_startService_eq hb_startService_def
  by (rule follows_at) (intro follows_intros; simp)

lemma follows_configured [follows_intros]: "follows R (dhcp6_srv_configured V h)"
proof -
  have "follows R (impl_startService V)"
  proof -
    have "follows R (mseq (setIOService True)
        (mseq (svc_startService V) (log_msg START_SERVICE [''nxos_dhcp6_exporter''])))"
      unfolding setIOService_def by (intro follows_intros; simp)
    then show ?thesis by (simp add: follows_def impl_startService_def R_refl)
  qed
  then show ?thesis
    unfolding dhcp6_srv_configured_def by (intro follows_intros; simp)
qed

end

section \<open>Pending requests\<close>

text \<open>A request of the exporter: its body is the document of the commands its handler expects.\<close>

definition good_request :: "('j, 'e) env \<Rightarrow> 'e request \<Rightarrow> bool" where
  "good_request V rq \<longleftrightarrow> rq_endpoint rq = EndpointName \<and> \<not> rq_tls rq \<and>
     (\<exists>cmds. expects (rq_handler rq) cmds \<and> createRequestFromCommands V cmds = Ok (rq_body rq))"

definition good_posts ::
    "('j, 'e) env \<Rightarrow> ('e, 'z) world_scheme \<Rightarrow> ('e, 'z) world_scheme \<Rightarrow> bool" where
  "good_posts V s s' \<longleftrightarrow> (\<forall>rq \<in> set (posted s'). rq \<in> set (posted s) \<or> good_request V rq)"

lemma good_post_commands: "expects h cmds \<Longrightarrow> follows (good_posts V) (post_commands V c cmds h)"
  by (cases "createRequestFromCommands V cmds")
    (auto simp: follows_def post_commands_def mbind_def good_posts_def good_request_def)

lemma good_heartbeatLoop: "follows (good_posts V) (heartbeatLoop V)"
  by (cases "createRequestFromCommands V [(1, createUptimeCommand)]")
    (auto simp: follows_def heartbeatLoop_def mbind_def good_posts_def good_request_def createUptimeCommand_def)

interpretation good: impl_local "good_posts V"
  by unfold_locales (auto simp: good_posts_def)

interpretation good: impl_effects "good_posts V" V
  by (rule impl_effectsI; unfold_locales) (auto simp: good_post_commands good_heartbeatLoop)

interpretation good: impl_free "good_posts V" V
  by unfold_locales (simp add: good_posts_def)

text \<open>Whatever happens, every pending request is one of the exporter's.\<close>

lemma sys_step_good:
  assumes "sys_step V s s'" and "\<forall>rq \<in> set (posted s). good_request V rq"
  shows "\<forall>rq \<in> set (posted s'). good_request V rq"
  using assms(1)
proof cases
  case sys_reply
  then obtain xs rq ys M cfg rep r where p: "posted s = xs @ rq # ys"
    and r: "run_request V (handle_response V M cfg) rq rep (s\<lparr>posted := xs @ ys\<rparr>) = (r, s')"
    by (rule reply_stepE)
  have "good_posts V (s\<lparr>posted := xs @ ys\<rparr>) s'"
    by (rule followsD [OF good.follows_run_request [OF good.follows_handle_response] r])
  with p assms(2) show ?thesis by (auto simp: good_posts_def)
next
  case (sys_hook M k h code)
  from followsD [OF good.follows_run_hook this] assms(2) show ?thesis by (auto simp: good_posts_def)
next
  case (sys_configured h code)
  from followsD [OF good.follows_configured this(2)] assms(2) show ?thesis by (auto simp: good_posts_def)
next
  case (sys_timer n)
  from followsD [OF good.follows_heartbeatLoop this(3)] assms(2) show ?thesis by (auto simp: good_posts_def)
qed

lemma sys_steps_good:
  "(sys_step V)\<^sup>*\<^sup>* s s' \<Longrightarrow> \<forall>rq \<in> set (posted s). good_request V rq \<Longrightarrow> \<forall>rq \<in> set (posted s'). good_request V rq"
  by (induction rule: rtranclp_induct) (auto dest: sys_step_good)

section \<open>Answering comes to an end\<close>

text \<open>How many rounds of requests can follow from a request.\<close>

fun rank :: "handler \<Rightarrow> nat" where
  "rank (RouteApply ty src dst) = 0"
| "rank (RouteRemove ty src dst) = 0"
| "rank (AddressLookup a ty h) = 1"
| "rank NeighborMapping = 2"
| "rank HeartbeatResponse = 3"

definition low :: "nat \<Rightarrow> ('e, 'z) world_scheme \<Rightarrow> ('e, 'z) world_scheme \<Rightarrow> bool" where
  "low n s s' \<longleftrightarrow> (\<exists>new. posted s' = posted s @ new \<and> (\<forall>rq \<in> set new. rank (rq_handler rq) < n))"

interpretation low: impl_local "low n"
proof unfold_locales
  show "low n s u" if "low n s t" "low n t u" for s t u :: "('a, 'b) impl_world_scheme"
    using that unfolding low_def by (metis UnE append.assoc set_append)
qed (auto simp: low_def)

lemma low_post_commands: "rank h < n \<Longrightarrow> follows (low n) (post_commands V c cmds h)"
  by (cases "createRequestFromCommands V cmds")
    (auto simp: follows_def post_commands_def mbind_def low_def)

lemma low_send: "follows (low 2) (\<lambda>s. sendRoutesToSwitch V (m_client s) route (s :: ('e, 'z) impl_world_scheme))"
  unfolding sendRoutesToSwitch_def send_route_def asyncLookupAddressInternal_def
  by (rule follows_at) (intro follows_intros low_post_commands; simp)

lemma low_lookup_handler:
  "follows (low 1) (run_lookup_handler V c h lookup :: ('j, ('e, 'z) impl_world_scheme, unit) prog)"
  by (cases h) (auto simp: apply_vlan_def remove_vlan_def fuzzy_vlan_def fuzzy_hop_def post_removal_def
      intro!: follows_intros low_post_commands)

lemma low_handle_response:
  fixes V :: "('j, 'e) env"
  shows "follows (low (rank h)) (handle_response V M cfg h a :: ('j, ('e, 'z) impl_world_scheme, unit) prog)"
proof -
  have "follows (low 0) (\<lambda>s. handleRouteApply V (m_client s) ty src dst a (s :: ('e, 'z) impl_world_scheme))" for ty src dst
    by (rule follows_at) (intro follows_intros)
  moreover have "follows (low 0) (\<lambda>s. handleRouteRemove V (m_client s) ty src dst a (s :: ('e, 'z) impl_world_scheme))" for ty src dst
    by (rule follows_at) (intro follows_intros)
  moreover have "follows (low 1) (\<lambda>s. handleAddressLookup V (m_client s) h a (s :: ('e, 'z) impl_world_scheme))" for h
    unfolding handleAddressLookup_def by (rule follows_at) (intro follows_intros low_lookup_handler)
  moreover have "follows (low 2) (\<lambda>s. handleNeighborLookup V (m_client s)
      (restoreFromMapping V M cfg (nxos_ops V M) handlerFailedCallback) a (s :: ('e, 'z) impl_world_scheme))"
    by (rule follows_at) (intro follows_intros low.follows_restoreFromMapping; simp add: nxos_ops_def low_send)
  moreover have "follows (low 3) (handleHeartbeat V (ret ())
      (restoreLeasesFromLeaseDatabase (nxos_ops V M)) a :: ('j, ('e, 'z) impl_world_scheme, unit) prog)"
  proof -
    have "follows (low 3) (\<lambda>s. asyncGetHWAddrToInterfaceNameMapping V (m_client s) (s :: ('e, 'z) impl_world_scheme))"
      unfolding asyncGetHWAddrToInterfaceNameMapping_def by (rule follows_at) (intro low_post_commands; simp)
    then show ?thesis
      by (intro follows_intros) (simp_all add: restoreLeasesFromLeaseDatabase_def nxos_ops_def)
  qed
  ultimately show ?thesis by (cases h) (simp_all add: follows_def)
qed

text \<open>The ranks of the pending requests.\<close>

definition ranks :: "('e, 'z) world_scheme \<Rightarrow> nat multiset" where
  "ranks s = image_mset (\<lambda>rq. rank (rq_handler rq)) (mset (posted s))"

lemma reply_step_ranks:
  assumes "reply_step V s s'"
  shows "(ranks s', ranks s) \<in> mult less_than"
  using assms
proof (rule reply_stepE)
  fix xs rq ys M cfg rep r
  assume p: "posted s = xs @ rq # ys"
    and r: "run_request V (handle_response V M cfg) rq rep (s\<lparr>posted := xs @ ys\<rparr>) = (r, s')"
  have "low (rank (rq_handler rq)) (s\<lparr>posted := xs @ ys\<rparr>) s'"
    by (rule followsD [OF low.follows_run_request [OF low_handle_response] r])
  then obtain new where new: "posted s' = xs @ ys @ new" "\<forall>q \<in> set new. rank (rq_handler q) < rank (rq_handler rq)"
    by (auto simp: low_def)
  have "(image_mset (\<lambda>rq. rank (rq_handler rq)) (mset (xs @ ys)) + image_mset (\<lambda>rq. rank (rq_handler rq)) (mset new),
      image_mset (\<lambda>rq. rank (rq_handler rq)) (mset (xs @ ys)) + {#rank (rq_handler rq)#}) \<in> mult less_than"
    by (rule one_step_implies_mult) (use new(2) in auto)
  then show ?thesis by (simp add: ranks_def p new(1) ac_simps)
qed

lemma reply_step_wf:
  "wfp (\<lambda>s' s. reply_step V s s')"
proof -
  have "wf (inv_image (mult less_than) ranks)"
    by (intro wf_inv_image wf_mult) (rule wf_less_than)
  moreover have "{(s', s). reply_step V s s'} \<subseteq> inv_image (mult less_than) ranks"
    by (auto simp: inv_image_def intro: reply_step_ranks)
  ultimately have "wf {(s', s). reply_step V s s'}" by (rule wf_subset)
  then show ?thesis by (simp add: wfp_def)
qed

section \<open>From an answer to the next request\<close>

lemma run_request_document:
  assumes "json_api (nl V)" and "url_scheme (rq_url rq) = HTTP" and "text' \<noteq> []"
    and "j_parse (nl V) text' = Ok (response_object (nl V) \<lparr>resp_id = i, resp_result = j_object (nl V) [(''body'', doc)]\<rparr>)"
  shows "run_request V handle rq (Reply st text') s = handle (rq_handler rq) (body_args (nl V) st i doc) s"
proof -
  have "handleResponse (nl V) text' = Ok [\<lparr>resp_id = i, resp_result = j_object (nl V) [(''body'', doc)]\<rparr>]"
    using json_api.handleResponse_object [OF assms(1) assms(4)] json_api.type_response_object [OF assms(1)]
      json_api.validator_response_object [OF assms(1)]
    by simp
  then show ?thesis
    using assms(2,3)
    by (simp add: run_request_def validated_def validateResponse_def mbind_def body_args_def
        HttplibStatusCodeToNXOSHttpClientMapper_def)
qed

lemma vlan_of_object:
  assumes "json_api J"
  shows "RouteLookupResponse_from_json J (lookup_doc J v af pfx att (hop_object J (hop, Some ifn))) =
      Ok (lookup_of v af pfx att \<lparr>ipnexthop = [hop], ifname = [Some ifn]\<rparr>)"
    and "vlan_of_lookup (lookup_of v af pfx att \<lparr>ipnexthop = [hop], ifname = [Some ifn]\<rparr>) = Ok ifn"
  using json_api.lookup_doc_object [OF assms, of v af pfx att "(hop, Some ifn)"]
  by (simp_all add: vlan_of_lookup_def lookup_path_of find_or_throw_def)

lemma lookup_answer:
  assumes "json_api (nl V)" and "requests_encoded V enc" and "started (m_client s)"
    and "url_scheme (rq_url rq) = HTTP" and "body \<noteq> []"
    and "j_parse (nl V) body = Ok (response_object (nl V) \<lparr>resp_id = i, resp_result = j_object (nl V)
        [(''body'', lookup_doc (nl V) v af pfx att (hop_object (nl V) (hop, Some ifn)))]\<rparr>)"
  shows "run_request V (handle_response V M cfg) (rq\<lparr>rq_handler := AddressLookup a lt (ApplyVlan na link ty)\<rparr>) (Reply st body) s =
      (Ok (), s\<lparr>posted := posted s @ [command_request (m_client s) (enc [(1, createApplyRouteIpv6Command na ifn)])
        (RouteApply ty na ifn)]\<rparr>) \<and>
    run_request V (handle_response V M cfg) (rq\<lparr>rq_handler := AddressLookup a lt (RemoveVlan na link ty)\<rparr>) (Reply st body) s =
      (Ok (), s\<lparr>posted := posted s @ [command_request (m_client s) (enc [(1, createRemoveRouteIpv6Command na ifn),
        (2, createRemoveNDCacheEntryIpv6Command ifn)]) (RouteRemove ty na ifn)]\<rparr>)"
  using assms
  by (simp add: run_request_document [OF assms(1) _ assms(5,6)] handleAddressLookup_body [OF assms(1)]
      vlan_of_object [OF assms(1)] apply_vlan_def remove_vlan_def
      mapping_errors_def post_removal_def post_commands_encoded)

text \<open>A parser and a lookup answer for the witnesses.\<close>

definition doc_env :: "jval \<Rightarrow> (jval, kelem) env" where
  "doc_env doc = std_env (std_json True (\<lambda>s. Some (response_object (std_json True (\<lambda>s. None))
     \<lparr>resp_id = IdInt 1, resp_result = JObj [(''body'', doc)]\<rparr>)))"

lemma doc_env_parse:
  "j_parse (nl (doc_env doc)) body = Ok (response_object (nl (doc_env doc))
     \<lparr>resp_id = IdInt 1, resp_result = j_object (nl (doc_env doc)) [(''body'', doc)]\<rparr>)"
  by (simp add: doc_env_def response_object_def)

lemma doc_env_api: "json_api (nl (doc_env doc))"
  by (simp add: doc_env_def std_json_api)

lemma doc_env_encoded: "requests_encoded (doc_env doc) std_enc"
  by (simp add: doc_env_def std_encoded)

lemma doc_env_lookup:
  "lookup_doc (nl (doc_env doc)) v af pfx att (hop_object (nl (doc_env doc)) hop) =
    lookup_doc (std_json True (\<lambda>s. None)) v af pfx att (hop_object (std_json True (\<lambda>s. None)) hop)"
  by (simp add: doc_env_def lookup_doc_def hop_object_def hop_members_def split: option.split)

definition sample_doc :: jval where
  "sample_doc = lookup_doc (std_json True (\<lambda>s. None)) ''default'' ''ipv6'' ''2001:db8::/64'' ''true''
     (hop_object (std_json True (\<lambda>s. None)) (None, Some ''Vlan10''))"

lemma sample_doc_parse:
  "j_parse (nl (doc_env sample_doc)) body = Ok (response_object (nl (doc_env sample_doc)) \<lparr>resp_id = IdInt 1,
     resp_result = j_object (nl (doc_env sample_doc)) [(''body'', lookup_doc (nl (doc_env sample_doc)) ''default'' ''ipv6''
       ''2001:db8::/64'' ''true'' (hop_object (nl (doc_env sample_doc)) (None, Some ''Vlan10'')))]\<rparr>)"
  unfolding doc_env_lookup sample_doc_def by (rule doc_env_parse)

section \<open>Properties\<close>

text \<open>C5: in every state the exporter reaches from one without pending requests, by hooks, timer events,
  configuration and answers in any order, each pending request goes to the switch's endpoint without
  a TLS context, and its body is the document of exactly the commands its response handler is for.\<close>

theorem pending_requests_match:
  assumes "(sys_step V)\<^sup>*\<^sup>* s s'" and "posted s = []"
  shows "\<forall>rq \<in> set (posted s'). good_request V rq"
  by (rule sys_steps_good [OF assms(1)]) (simp add: assms(2))

lemma pending_requests_match_witness:
  "\<exists>s'. (sys_step (std_env (std_json True (\<lambda>s. None))))\<^sup>*\<^sup>* sample_state s' \<and> posted s' \<noteq> [] \<and>
    (\<forall>rq \<in> set (posted s'). good_request (std_env (std_json True (\<lambda>s. None))) rq)"
proof -
  let ?V = "std_env (std_json True (\<lambda>s. None))"
  obtain body where body: "createRequestFromCommands ?V [(1, createUptimeCommand)] = Ok body"
    using std_encoded by (auto simp: requests_encoded_def)
  then obtain s' where loop: "heartbeatLoop ?V sample_state = (Ok (), s')" and new: "posted s' \<noteq> []"
    by (simp add: heartbeatLoop_def mbind_def sample_heartbeat_def sample_client_def)
  have "hb_timer (hb sample_state) = Some (Running 5000)" by (simp add: sample_heartbeat_def)
  from r_into_rtranclp [of "sys_step ?V", OF sys_timer [OF sample_sel(16) this loop]]
  have steps: "(sys_step ?V)\<^sup>*\<^sup>* sample_state s'" .
  from pending_requests_match [OF steps] new steps show ?thesis by auto
qed

text \<open>C6: answering always comes to an end: there is no infinite sequence of answers to pending requests,
  whatever the switch sends and in whatever order, although answers cause further requests.\<close>

theorem answers_come_to_an_end:
  "wfp (\<lambda>s' s. reply_step V s s')"
  by (rule reply_step_wf)

text \<open>The switch's answer to the lookup of a relay address, one route attached to one interface,
  becomes exactly one further request: for a lease that was selected the command that routes its
  address to that interface, for one that was released the command that removes this route,
  followed by the one that clears the interface's neighbor entries; no message is written.\<close>

theorem lookup_answer_becomes_change:
  assumes "json_api (nl V)" and "requests_encoded V enc" and "started (m_client s)"
    and "url_scheme (rq_url rq) = HTTP" and "body \<noteq> []"
    and "j_parse (nl V) body = Ok (response_object (nl V) \<lparr>resp_id = i, resp_result = j_object (nl V)
        [(''body'', lookup_doc (nl V) v af pfx att (hop_object (nl V) (hop, Some ifn)))]\<rparr>)"
  shows "run_request V (handle_response V M cfg) (rq\<lparr>rq_handler := AddressLookup a lt (ApplyVlan na link ty)\<rparr>) (Reply st body) s =
      (Ok (), s\<lparr>posted := posted s @ [command_request (m_client s) (enc [(1, createApplyRouteIpv6Command na ifn)])
        (RouteApply ty na ifn)]\<rparr>) \<and>
    run_request V (handle_response V M cfg) (rq\<lparr>rq_handler := AddressLookup a lt (RemoveVlan na link ty)\<rparr>) (Reply st body) s =
      (Ok (), s\<lparr>posted := posted s @ [command_request (m_client s) (enc [(1, createRemoveRouteIpv6Command na ifn),
        (2, createRemoveNDCacheEntryIpv6Command ifn)]) (RouteRemove ty na ifn)]\<rparr>)"
  using lookup_answer [OF assms] .

lemma lookup_answer_becomes_change_witness:
  "\<exists>s'. run_request (doc_env sample_doc) (handle_response (doc_env sample_doc) (list_db []) \<lparr>currentCfg = None\<rparr>)
      ((sample_request (KText ''x'') HeartbeatResponse)\<lparr>rq_handler := AddressLookup ''::1/128'' relay_address
        (ApplyVlan ''::7/128'' ''::1/128'' ''IA_NA'')\<rparr>) (Reply 200 ''{}'') sample_state = (Ok (), s') \<and> length (posted s') = 1"
proof -
  have http: "url_scheme (rq_url (sample_request (KText ''x'') HeartbeatResponse)) = HTTP"
    by (simp add: sample_request_def std_url_def)
  have started: "started (m_client sample_state)" by (simp add: started_def sample_client_def)
  from lookup_answer_becomes_change [OF doc_env_api doc_env_encoded started http _ sample_doc_parse, of "''{}''"]
  show ?thesis by simp
qed

text \<open>C33: restoring the routes of addresses from the neighbor table the switch sends installs none: any
  number of adjacencies under \<open>ROW_adj\<close> is read as an empty mapping, so for a subnet whose leases are
  all addresses with a hardware address nothing is posted, one error is written for each lease, and
  the connection still counts as restored.\<close>

theorem restore_from_switch_table_posts_nothing:
  assumes "json_api (nl V)" and "requests_encoded V enc" and "started (m_client s)"
    and "url_scheme (rq_url rq) = HTTP" and "rq_handler rq = NeighborMapping" and "body \<noteq> []"
    and "j_parse (nl V) body = Ok (response_object (nl V) \<lparr>resp_id = i, resp_result = j_object (nl V)
        [(''body'', neighbor_doc (nl V) v af (j_array (nl V) (map (adj_json (nl V)) objs)))]\<rparr>)"
    and "currentCfg cfg = Some (Some (Some [subnet]))" and "getLeases6_subnet M subnet = Ok ls"
    and "\<And>l. l \<in> set ls \<Longrightarrow> l_type l = TYPE_NA \<and> l_hwaddr l \<noteq> None"
  shows "run_request V (handle_response V M cfg) rq (Reply 200 body) s =
    (Ok (), s\<lparr>logged := logged s @ map (\<lambda>l. Log ROUTE_REINIT_NO_HWADDR_FAILED
       [connectionName (m_client s), to_string_w (l_iaid l), toText V (l_addr l)]) ls\<rparr>)"
proof -
  have read: "NeighborLookupResponse_from_json (nl V) (neighbor_doc (nl V) v af (j_array (nl V) (map (adj_json (nl V)) objs)))
      = Ok (neighbor_of v af [])"
    using json_api.neighbor_doc_read [OF assms(1) json_api.RowAdj_switch_array [OF assms(1)]] .
  have "j_sub (nl V) (j_object (nl V) [(''body'', d)]) ''body'' = Ok d" for d
    by (simp add: json_api.sub_present [OF assms(1)] json_api.at_object [OF assms(1)]
        json_api.contains_object [OF assms(1)])
  then have "read_neighbors V (m_client s) (body_args (nl V) 200 i
      (neighbor_doc (nl V) v af (j_array (nl V) (map (adj_json (nl V)) objs)))) s = (Ok (neighbor_of v af [], False), s)"
    by (simp add: read_neighbors_def body_args_def read)
  moreover have "adj_objects (neighbor_of v af []) = []"
    by (simp add: adj_objects_def neighbor_of_def)
  moreover have "concat (map (restored_requests V enc (m_client s) []) ls) = []"
    by (auto simp: restored_requests_def split: option.split bind_splits)
  moreover have "concat (map (restored_messages V (m_client s) []) ls) = map (\<lambda>l. Log ROUTE_REINIT_NO_HWADDR_FAILED
       [connectionName (m_client s), to_string_w (l_iaid l), toText V (l_addr l)]) ls"
    by (induction ls) (auto simp: restored_messages_def split: option.split bind_splits)
  ultimately show ?thesis
    using restore_na_leases [OF assms(2,3), of ls M "[]"] assms(5,10)
    by (simp add: run_request_document [OF assms(1,4,6,7)] handleNeighborLookup_def body_args_def mbind_def mseq_def
        restoreFromMapping_def assms(8,9) restore_subnet_def)
qed

lemma restore_from_switch_table_posts_nothing_witness:
  "\<exists>s'. run_request (doc_env (neighbor_doc (std_json True (\<lambda>s. None)) ''default'' ''ipv6''
        (JArr [adj_json (std_json True (\<lambda>s. None)) \<lparr>intf_out = ''Vlan10'', ipv6_addr = ''::7'', mac = ''0102.0304.0506''\<rparr>])))
      (handle_response (doc_env (neighbor_doc (std_json True (\<lambda>s. None)) ''default'' ''ipv6''
        (JArr [adj_json (std_json True (\<lambda>s. None)) \<lparr>intf_out = ''Vlan10'', ipv6_addr = ''::7'', mac = ''0102.0304.0506''\<rparr>])))
        (list_db [(1, sample_lease TYPE_NA 7 False)]) \<lparr>currentCfg = Some (Some (Some [1]))\<rparr>)
      (sample_request (KText ''x'') NeighborMapping) (Reply 200 ''{}'') sample_state = (Ok (), s') \<and>
    posted s' = [] \<and> length (logged s') = Suc (length (logged sample_state))"
proof -
  let ?obj = "\<lparr>intf_out = ''Vlan10'', ipv6_addr = ''::7'', mac = ''0102.0304.0506''\<rparr>"
  let ?doc = "neighbor_doc (std_json True (\<lambda>s. None)) ''default'' ''ipv6'' (JArr [adj_json (std_json True (\<lambda>s. None)) ?obj])"
  let ?V = "doc_env ?doc" and ?rq = "sample_request (KText ''x'') NeighborMapping"
  have eq: "neighbor_doc (nl ?V) ''default'' ''ipv6'' (j_array (nl ?V) (map (adj_json (nl ?V)) [?obj])) = ?doc"
    by (simp add: doc_env_def neighbor_doc_def adj_json_def)
  have http: "url_scheme (rq_url ?rq) = HTTP" and h: "rq_handler ?rq = NeighborMapping"
    by (simp_all add: sample_request_def std_url_def)
  have started: "started (m_client sample_state)" by (simp add: started_def sample_client_def)
  have parse: "j_parse (nl ?V) ''{}'' = Ok (response_object (nl ?V) \<lparr>resp_id = IdInt 1, resp_result = j_object (nl ?V)
        [(''body'', neighbor_doc (nl ?V) ''default'' ''ipv6'' (j_array (nl ?V) (map (adj_json (nl ?V)) [?obj])))]\<rparr>)"
    unfolding eq by (rule doc_env_parse)
  have cfg: "currentCfg \<lparr>currentCfg = Some (Some (Some [1]))\<rparr> = Some (Some (Some [1]))" by simp
  have db: "getLeases6_subnet (list_db [(1, sample_lease TYPE_NA 7 False)]) 1 = Ok [sample_lease TYPE_NA 7 False]" by simp
  have ls: "l_type l = TYPE_NA \<and> l_hwaddr l \<noteq> None" if "l \<in> set [sample_lease TYPE_NA 7 False]" for l
    using that by simp
  from restore_from_switch_table_posts_nothing [OF doc_env_api doc_env_encoded started http h _ parse cfg db ls]
  show ?thesis by simp
qed

end
