(* ===== verification/Hook_Safety.thy ===== *)
theory Hook_Safety
  imports System
begin

text \<open>
  When the lease hooks stay inside defined behaviour.  \<open>defined\<close> is closed under the constructs of
  the programs, like \<open>follows\<close>; \<open>defined_intros\<close> reduces a handler to the pointers it follows and
  the library calls it makes.  The arguments a hook needs for that are \<open>well_formed\<close>.
\<close>

section \<open>Defined behaviour of the hooks\<close>

text \<open>
  \<open>defined P m\<close>: in every state with \<open>P\<close> the program does not get stuck, and \<open>P\<close> still holds when
  it ends.
\<close>

definition defined :: "('s \<Rightarrow> bool) \<Rightarrow> ('j, 's, 'a) prog \<Rightarrow> bool" where
  "defined P m \<longleftrightarrow> (\<forall>s. P s \<longrightarrow> (\<forall>u. fst (m s) \<noteq> Stuck u) \<and> P (snd (m s)))"

named_theorems defined_intros \<open>a program does not get stuck\<close>

lemma definedD: "defined P m \<Longrightarrow> P s \<Longrightarrow> m s = (r, s') \<Longrightarrow> (\<forall>u. r \<noteq> Stuck u) \<and> P s'"
  unfolding defined_def by (metis fst_conv snd_conv)

lemma defined_basic [defined_intros]:
  "defined P (ret a)" "defined P (throw e)" "(\<And>u. r \<noteq> Stuck u) \<Longrightarrow> defined P (lift r)"
  by (simp_all add: defined_def)

lemma defined_mbind [defined_intros]:
  assumes "defined P m" and "\<And>a. defined P (f a)"
  shows "defined P (mbind m f)"
  unfolding defined_def
proof (intro allI impI)
  fix s assume "P s"
  obtain r t where m: "m s = (r, t)" by fastforce
  from definedD [OF assms(1) \<open>P s\<close> m] have r: "\<forall>u. r \<noteq> Stuck u" "P t" by auto
  have "(\<forall>u. fst (f a t) \<noteq> Stuck u) \<and> P (snd (f a t))" for a
    using assms(2) r(2) by (simp add: defined_def)
  then show "(\<forall>u. fst (mbind m f s) \<noteq> Stuck u) \<and> P (snd (mbind m f s))"
    using m r by (cases r) (auto simp: mbind_def)
qed

lemma defined_mseq [defined_intros]: "defined P m \<Longrightarrow> defined P n \<Longrightarrow> defined P (mseq m n)"
  unfolding mseq_def by (rule defined_mbind)

lemma defined_catching [defined_intros]:
  assumes "defined P m" and "\<And>e. defined P (h e)"
  shows "defined P (catching m h)"
  unfolding defined_def
proof (intro allI impI)
  fix s assume "P s"
  obtain r t where m: "m s = (r, t)" by fastforce
  from definedD [OF assms(1) \<open>P s\<close> m] have r: "\<forall>u. r \<noteq> Stuck u" "P t" by auto
  have "(\<forall>u. fst (h e t) \<noteq> Stuck u) \<and> P (snd (h e t))" for e
    using assms(2) r(2) by (simp add: defined_def)
  then show "(\<forall>u. fst (catching m h s) \<noteq> Stuck u) \<and> P (snd (catching m h s))"
    using m r by (cases r) (auto simp: catching_def)
qed

lemma defined_cases [defined_intros]:
  "(q \<Longrightarrow> defined P m) \<Longrightarrow> (\<not> q \<Longrightarrow> defined P n) \<Longrightarrow> defined P (if q then m else n)"
  "defined P m \<Longrightarrow> (\<And>a. x = Some a \<Longrightarrow> defined P (f a)) \<Longrightarrow> defined P (case x of None \<Rightarrow> m | Some a \<Rightarrow> f a)"
  "defined P a \<Longrightarrow> defined P b \<Longrightarrow> defined P c \<Longrightarrow> defined P d \<Longrightarrow>
    defined P (case t of TYPE_TA \<Rightarrow> a | TYPE_NA \<Rightarrow> b | TYPE_PD \<Rightarrow> c | TYPE_V4 \<Rightarrow> d)"
  by (simp_all split: option.split lease_type.split)

lemma mbind_lift_Ok [simp]: "mbind (lift (Ok a)) f = f a"
  by (simp add: fun_eq_iff)

lemma defined_at:
  "(\<And>s. P s \<Longrightarrow> (\<forall>u. fst (m s) \<noteq> Stuck u) \<and> P (snd (m s))) \<Longrightarrow> defined P m"
  by (simp add: defined_def)

lemma defined_update [defined_intros]:
  "defined ready (log_msg i args)" "defined ready (setStatus st)"
  by (simp_all add: defined_def setStatus_def ready_def)

lemma getArgument_not_Stuck [simp]: "getArgument n a \<noteq> Stuck u"
  by (simp add: getArgument_def split: arg.split)

text \<open>The lease database answers or throws.\<close>

definition db_answers :: "'j lease_mgr \<Rightarrow> bool" where
  "db_answers M \<longleftrightarrow> (\<forall>t d i u. getLeases6 M t d i \<noteq> Stuck u)"

lemma db_answers_search:
  assumes "db_answers M"
  shows "findIA_NALeaseByDUID_IAID M d i \<noteq> Stuck u" "getActiveAndExpiredLeasesSize M t d i \<noteq> Stuck u"
  using assms
  by (auto simp: db_answers_def findIA_NALeaseByDUID_IAID_def getActiveAndExpiredLeasesSize_def rmap_def
      rbind_eq_Stuck split: option.splits)

section \<open>The management client and the service\<close>

lemma defined_post_commands:
  "requests_encoded V enc \<Longrightarrow> started c \<Longrightarrow> cmds \<noteq> [] \<Longrightarrow> defined ready (post_commands V c cmds h)"
  by (simp add: defined_def post_commands_encoded)

lemma defined_send:
  assumes "requests_encoded V enc" and "started c"
  shows "defined ready (sendRoutesToSwitch V c route)"
  unfolding sendRoutesToSwitch_def send_route_def asyncLookupAddressInternal_def
  by (cases "routeInfo route") (auto simp: Let_def intro!: defined_intros defined_post_commands [OF assms])

lemma defined_remove:
  assumes "requests_encoded V enc" and "started c" and "db_answers M"
  shows "defined ready (removeRoutesFromSwitch V M c route)"
  unfolding removeRoutesFromSwitch_def remove_prefix_fuzzy_def asyncLookupAddressInternal_def
  by (cases "routeInfo route")
    (auto simp: Let_def db_answers_search [OF assms(3)]
      intro!: defined_intros defined_post_commands [OF assms(1,2)])

lemma defined_service_call: "defined ready m \<Longrightarrow> defined ready (service_call m)"
  by (simp add: defined_def service_call_def ready_def)

lemma defined_export_route:
  assumes "requests_encoded V enc"
  shows "defined ready (export_route (nxos_ops V M) route)"
proof -
  have "defined ready (op_sendRoutesToSwitch (nxos_ops V M) route)"
    using defined_send [OF assms] by (intro defined_at) (auto simp: defined_def ready_def)
  then show ?thesis
    unfolding exportRoute_def by (intro defined_service_call defined_intros)
qed

lemma defined_remove_route:
  assumes "requests_encoded V enc" and "db_answers M"
  shows "defined ready (remove_route (nxos_ops V M) route)"
proof -
  have op: "defined ready (op_removeRoutesFromSwitch (nxos_ops V M) route)"
    using defined_remove [OF assms(1) _ assms(2)] by (intro defined_at) (auto simp: defined_def ready_def)
  have "defined ready (mseq (log_msg i args) (op_removeRoutesFromSwitch (nxos_ops V M) route))" for i args
    by (intro defined_intros op)
  then have "defined ready (removeRoute (nxos_ops V M) route)"
    unfolding removeRoute_def defined_def by blast
  then show ?thesis by (rule defined_service_call)
qed

section \<open>The handlers\<close>

text \<open>The option a renewal or a rebind reads is present, and its suboption of the right class.\<close>

definition options_present :: "'j callout_handle \<Rightarrow> 'j pkt \<Rightarrow> bool" where
  "options_present h q \<longleftrightarrow>
     (if has_ia_na h then \<exists>opt. getOption_IA_NA q = Some opt \<and> io_iaaddr opt \<noteq> Some None
      else \<exists>opt. getOption_IA_PD q = Some opt \<and> io_iaprefix opt \<noteq> Some None)"

text \<open>The lease is there and has a DUID; so is the packet, which an expiry has none of, and the relay's
  address can be asked for.\<close>

definition well_formed :: "hook \<Rightarrow> 'j callout_handle \<Rightarrow> bool" where
  "well_formed k h \<longleftrightarrow> (\<exists>l d. h_lease6 h = Arg (Some l) \<and> l_duid l = Some d) \<and>
     (k \<noteq> Expire \<longrightarrow> (\<exists>q. h_query6 h = Arg (Some q) \<and> (\<forall>u. getRelay6LinkAddress0 q \<noteq> Stuck u) \<and>
       (k = Renew \<or> k = Rebind \<longrightarrow> options_present h q)))"

lemma defined_remove_lease_route:
  assumes "requests_encoded V enc" and "db_answers M"
  shows "defined ready (remove_lease_route V M (nxos_ops V M) tid relay l)"
  unfolding remove_lease_route_def
  by (auto simp: db_answers_search [OF assms(2)] intro!: defined_intros defined_remove_route [OF assms])

lemma defined_renew_rebind:
  assumes "requests_encoded V enc" and "db_answers M" and "l_duid l = Some d"
    and "\<And>u. getRelay6LinkAddress0 q \<noteq> Stuck u" and "options_present h q"
  shows "defined ready (handleRenewRebindProcess b V M (nxos_ops V M) (Some q) (Some l) (has_ia_na h))"
proof (cases "has_ia_na h")
  case True
  with assms(5) obtain opt where opt: "getOption_IA_NA q = Some opt" "io_iaaddr opt \<noteq> Some None"
    by (auto simp: options_present_def)
  show ?thesis
    unfolding handleRenewRebindProcess_def renew_address_def
    using True opt assms(4)
    by (auto simp del: mbind_lift simp: deref_def Let_def intro!: defined_intros defined_remove_route [OF assms(1,2)]
        defined_export_route [OF assms(1)])
next
  case False
  with assms(5) obtain opt where opt: "getOption_IA_PD q = Some opt" "io_iaprefix opt \<noteq> Some None"
    by (auto simp: options_present_def)
  show ?thesis
    unfolding handleRenewRebindProcess_def renew_prefix_def
    using False opt assms(3,4)
    by (auto simp del: mbind_lift simp: deref_def Let_def db_answers_search [OF assms(2)] intro!: defined_intros
        defined_remove_route [OF assms(1,2)] defined_export_route [OF assms(1)])
qed

lemma defined_lease_callout: "defined ready m \<Longrightarrow> defined ready (lease_callout failed m)"
  unfolding lease_callout_def
  by (intro defined_intros) (simp add: defined_def impl_call_def ready_def)

lemma defined_run_hook:
  assumes "requests_encoded V enc" and "db_answers M" and "well_formed k h"
  shows "defined ready (run_hook V M k h)"
proof -
  from assms(3) obtain l d where l: "h_lease6 h = Arg (Some l)" "l_duid l = Some d"
    unfolding well_formed_def by blast
  have larg: "getArgument n (h_lease6 h) = Ok (Some l)" for n
    using l by (simp add: getArgument_def)
  note rules = defined_lease_callout defined_intros defined_export_route [OF assms(1)]
    defined_remove_route [OF assms(1,2)] defined_remove_lease_route [OF assms(1,2)]
  show ?thesis
  proof (cases "k = Expire")
    case True
    then show ?thesis
      by (auto simp del: mbind_lift simp: lease6_expire_def handleLease6Expire_def larg deref_def db_answers_search [OF assms(2)]
          intro!: rules)
  next
    case False
    with assms(3) obtain q where q: "h_query6 h = Arg (Some q)" "\<And>u. getRelay6LinkAddress0 q \<noteq> Stuck u"
      and opts: "k = Renew \<or> k = Rebind \<Longrightarrow> options_present h q"
      unfolding well_formed_def by blast
    have qarg: "getArgument n (h_query6 h) = Ok (Some q)" for n
      using q by (simp add: getArgument_def)
    show ?thesis
    proof (cases k)
      case Select
      then show ?thesis
        by (auto simp del: mbind_lift simp: lease6_select_def handleLease6Select_def larg qarg deref_def q(2)
            db_answers_search [OF assms(2)] cong: if_cong intro!: rules)
    qed (use opts False in \<open>auto simp del: mbind_lift simp: lease6_renew_def handleLease6Renew_def lease6_rebind_def
        handleLease6Rebind_def lease6_release_def handleLease6Release_def lease6_decline_def handleLease6Decline_def
        larg qarg deref_def l(2) q(2) intro!: rules defined_renew_rebind [OF assms(1,2)]\<close>)
  qed
qed

lemma lease_callout_result: "lease_callout failed m s = (r, s') \<Longrightarrow> r = Ok 0 \<or> (\<exists>u. r = Stuck u)"
  by (auto simp: lease_callout_def catching_def mseq_def mbind_def split: prod.splits outcome.splits)

text \<open>
  On a started exporter no hook runs into undefined behaviour: it returns 0, and the exporter is still
  ready afterwards, whatever exceptions the packet, the lease database and the other arguments cause.
\<close>

lemma hook_returns:
  assumes "requests_encoded V enc" and "db_answers M" and "well_formed k h" and "ready s"
  obtains s' where "run_hook V M k h s = (Ok 0, s')" and "ready s'"
proof -
  obtain r s' where r: "run_hook V M k h s = (r, s')" by fastforce
  from definedD [OF defined_run_hook [OF assms(1-3)] assms(4) r] have d: "\<forall>u. r \<noteq> Stuck u" "ready s'" by auto
  have "r = Ok 0 \<or> (\<exists>u. r = Stuck u)"
    using r by (cases k) (auto simp: lease6_select_def lease6_renew_def lease6_rebind_def lease6_decline_def
        lease6_release_def lease6_expire_def dest: lease_callout_result)
  with that r d show ?thesis by auto
qed

end
