(* ===== verification/Life_Cycle.thy ===== *)
theory Life_Cycle
  imports System
begin

text \<open>
  The life of the library: loaded, configured, running, unloaded.  \<open>life_step\<close> adds loading,
  unloading and the hook without effect to the steps of the running system.  \<open>exporter_ok\<close> says
  when the parts of the exporter fit together; every reachable state is of this shape.
\<close>

section \<open>Steps\<close>

text \<open>
  Loading and unloading are steps only while no request is pending: a pending request would be run
  or dropped by the destructors of the clients.
\<close>

inductive life_step ::
    "('j, 'e) env \<Rightarrow> ('e, 'z) impl_world_scheme \<Rightarrow> ('e, 'z) impl_world_scheme \<Rightarrow> bool" for V where
  life_running: "sys_step V s s' \<Longrightarrow> life_step V s s'"
| life_subnet6_select: "subnet6_select (h :: 'j callout_handle) s = (Ok code, s') \<Longrightarrow> life_step V s s'"
| life_load: "posted s = [] \<Longrightarrow> load V inet6 version params s = (Ok code, s') \<Longrightarrow> life_step V s s'"
| life_unload: "posted s = [] \<Longrightarrow> unload s = (Ok code :: ('j, int32) outcome, s') \<Longrightarrow> life_step V s s'"

inductive_cases life_stepE: "life_step V s s'"

text \<open>Before the library is loaded: the static pointer is null and nothing is pending.\<close>

definition not_loaded :: "('e, 'z) impl_world_scheme \<Rightarrow> bool" where
  "not_loaded s \<longleftrightarrow> \<not> impl s \<and> \<not> m_service s \<and> posted s = []"

section \<open>Well-formed states\<close>

text \<open>A request of a client with these parameters.\<close>

definition request_of :: "('j, 'e) env \<Rightarrow> conn_params \<Rightarrow> 'e request \<Rightarrow> bool" where
  "request_of V cp rq \<longleftrightarrow> good_request V rq \<and> rq_url rq = cp_url cp \<and> rq_auth rq = Some (cp_auth cp) \<and>
     rq_timeout rq = (if rq_handler rq = HeartbeatResponse then ucast (heartbeatIntervalSecs cp) else default_timeout)"

text \<open>The HTTP client of a started component.\<close>

abbreviation client_of :: "conn_params \<Rightarrow> http_client" where
  "client_of cp \<equiv> started_client (cp_auth cp)"

definition service_ok :: "('j, 'e) env \<Rightarrow> ('e, 'z) impl_world_scheme \<Rightarrow> bool" where
  "service_ok V s \<longleftrightarrow> (let cp = mc_params (m_client s) in
     impl s \<and> hb_params (hb s) = cp \<and> (\<exists>p. parseConfig V (Some p) = Ok cp) \<and>
     hb_httpClient (hb s) = mc_httpClient (m_client s) \<and>
     (mc_httpClient (m_client s) = None \<longrightarrow> posted s = []) \<and>
     (mc_httpClient (m_client s) \<noteq> None \<longrightarrow> mc_httpClient (m_client s) = Some (client_of cp) \<and>
        hb_timer (hb s) \<noteq> None \<and> url_scheme (cp_url cp) = HTTP) \<and>
     (\<forall>rq \<in> set (posted s). request_of V cp rq))"

definition exporter_ok :: "('j, 'e) env \<Rightarrow> ('e, 'z) impl_world_scheme \<Rightarrow> bool" where
  "exporter_ok V s \<longleftrightarrow> (if m_service s then service_ok V s else posted s = [])"

lemma not_loaded_ok: "not_loaded s \<Longrightarrow> exporter_ok V s"
  by (simp add: not_loaded_def exporter_ok_def)

section \<open>Steps of the running system\<close>

text \<open>
  What runs between two starts: the parts stay the same, and what is posted comes from one of
  the two clients.
\<close>

definition same_parts :: "('e, 'z) impl_world_scheme \<Rightarrow> ('e, 'z) impl_world_scheme \<Rightarrow> bool" where
  "same_parts s s' \<longleftrightarrow> m_client s' = m_client s \<and> hb_params (hb s') = hb_params (hb s) \<and>
     hb_httpClient (hb s') = hb_httpClient (hb s) \<and> (hb_timer (hb s') = None \<longrightarrow> hb_timer (hb s) = None) \<and>
     impl s' = impl s \<and> m_service s' = m_service s"

definition serves :: "('j, 'e) env \<Rightarrow> ('e, 'z) impl_world_scheme \<Rightarrow> ('e, 'z) impl_world_scheme \<Rightarrow> bool" where
  "serves V s s' \<longleftrightarrow> same_parts s s' \<and>
     (service_ok V s \<longrightarrow> service_ok V s')"

lemma same_parts_update [simp]:
  "same_parts s s"
  "same_parts s (s\<lparr>posted := p\<rparr>)" "same_parts s (s\<lparr>logged := l\<rparr>)" "same_parts s (s\<lparr>next_step := n\<rparr>)"
  "hb_params h = hb_params (hb s) \<Longrightarrow> hb_httpClient h = hb_httpClient (hb s) \<Longrightarrow>
    (hb_timer h = None \<Longrightarrow> hb_timer (hb s) = None) \<Longrightarrow> same_parts s (s\<lparr>hb := h\<rparr>)"
  by (simp_all add: same_parts_def)

lemma same_parts_trans: "same_parts s t \<Longrightarrow> same_parts t u \<Longrightarrow> same_parts s u"
  by (simp add: same_parts_def)

lemma service_ok_update [simp]:
  "service_ok V (s\<lparr>logged := l\<rparr>) = service_ok V s" "service_ok V (s\<lparr>next_step := n\<rparr>) = service_ok V s"
  "hb_params h = hb_params (hb s) \<Longrightarrow> hb_httpClient h = hb_httpClient (hb s) \<Longrightarrow>
    (hb_timer h = None \<Longrightarrow> hb_timer (hb s) = None) \<Longrightarrow> service_ok V s \<Longrightarrow> service_ok V (s\<lparr>hb := h\<rparr>)"
  by (simp_all add: service_ok_def) (cases "hb_timer h"; auto simp: Let_def)

lemma service_ok_post:
  assumes "service_ok V s" and "mc_httpClient (m_client s) \<noteq> None" and "request_of V (mc_params (m_client s)) rq"
  shows "service_ok V (s\<lparr>posted := posted s @ [rq]\<rparr>)"
  using assms by (auto simp: service_ok_def Let_def)

interpretation serves: impl_local "serves V" for V :: "('j, 'e) env"
proof unfold_locales
  show "serves V s u" if "serves V s t" "serves V t u" for s t u :: "('e, 'b) impl_world_scheme"
    using that by (auto simp: serves_def same_parts_def)
qed (simp_all add: serves_def)

text \<open>A relation for the operations of one client: they run while it is the exporter's.\<close>

lemma follows_own_client:
  assumes "\<And>c. client_effects (\<lambda>s s'. m_client s = c \<longrightarrow> R s s') V c"
  shows "follows R (\<lambda>s. sendRoutesToSwitch V (m_client s) route s)"
    and "follows R (\<lambda>s. removeRoutesFromSwitch V M (m_client s) route s)"
    and "follows R (\<lambda>s. asyncGetHWAddrToInterfaceNameMapping V (m_client s) s)"
    and "follows R (\<lambda>s. handleAddressLookup V (m_client s) h a s)"
  using client_effects.follows_send [OF assms] client_effects.follows_remove [OF assms]
    client_effects.follows_mapping [OF assms] client_effects.follows_handleAddressLookup [OF assms]
  unfolding follows_def by blast+

lemma serves_post_commands:
  assumes "expects h cmds" and "h \<noteq> HeartbeatResponse"
  shows "follows (\<lambda>s s'. m_client s = c \<longrightarrow> serves V s s')
    (post_commands V c cmds h :: ('j, ('e, 'z) impl_world_scheme, unit) prog)"
  unfolding follows_def
proof (intro allI impI)
  fix s :: "('e, 'z) impl_world_scheme" assume c: "m_client s = c"
  show "serves V s (snd (post_commands V c cmds h s))"
  proof (cases "\<exists>b. mc_httpClient c \<noteq> None \<and> createRequestFromCommands V cmds = Ok b")
    case True
    then obtain b a where b: "mc_httpClient c = Some a" "createRequestFromCommands V cmds = Ok b" by auto
    let ?rq = "\<lparr>rq_url = cp_url (mc_params c), rq_endpoint = EndpointName, rq_tls = False, rq_body = b, rq_handler = h,
      rq_timeout = default_timeout, rq_auth = m_basicAuth a\<rparr>"
    have "service_ok V (s\<lparr>posted := posted s @ [?rq]\<rparr>)" if "service_ok V s"
    proof (rule service_ok_post [OF that])
      have "a = client_of (mc_params c)" using that b c by (simp add: service_ok_def Let_def)
      then show "request_of V (mc_params (m_client s)) ?rq"
        using assms b c by (auto simp: request_of_def good_request_def)
    qed (simp add: b c)
    then show ?thesis by (simp add: post_commands_def b serves_def mbind_def)
  next
    case False
    then have "snd (post_commands V c cmds h s) = s"
      by (cases "createRequestFromCommands V cmds") (auto simp: post_commands_def mbind_def)
    then show ?thesis by (simp add: serves.R_refl)
  qed
qed

lemma serves_heartbeatLoop: "follows (serves V) (heartbeatLoop V :: ('j, ('e, 'z) impl_world_scheme, unit) prog)"
  unfolding follows_def
proof
  fix s :: "('e, 'z) impl_world_scheme"
  show "serves V s (snd (heartbeatLoop V s))"
  proof (cases "\<exists>b. hb_httpClient (hb s) \<noteq> None \<and> createRequestFromCommands V [(1, createUptimeCommand)] = Ok b")
    case True
    then obtain b a where b: "hb_httpClient (hb s) = Some a" "createRequestFromCommands V [(1, createUptimeCommand)] = Ok b"
      by auto
    let ?rq = "\<lparr>rq_url = cp_url (hb_params (hb s)), rq_endpoint = EndpointName, rq_tls = False, rq_body = b,
      rq_handler = HeartbeatResponse, rq_timeout = ucast (heartbeatIntervalSecs (hb_params (hb s))), rq_auth = m_basicAuth a\<rparr>"
    have "service_ok V (s\<lparr>posted := posted s @ [?rq]\<rparr>)" if "service_ok V s"
    proof (rule service_ok_post [OF that])
      have same: "a = client_of (mc_params (m_client s))" "hb_params (hb s) = mc_params (m_client s)"
        "mc_httpClient (m_client s) = Some a"
        using that b by (auto simp: service_ok_def Let_def)
      then show "request_of V (mc_params (m_client s)) ?rq"
        using b by (auto simp: request_of_def good_request_def createUptimeCommand_def)
      from same show "mc_httpClient (m_client s) \<noteq> None" by simp
    qed
    then show ?thesis by (simp add: heartbeatLoop_def b serves_def mbind_def)
  next
    case False
    then have "snd (heartbeatLoop V s) = s"
      by (cases "createRequestFromCommands V [(1, createUptimeCommand)]") (auto simp: heartbeatLoop_def mbind_def)
    then show ?thesis by (simp add: serves.R_refl)
  qed
qed

lemma serves_client:
  fixes V :: "('j, 'e) env"
  shows "client_effects (\<lambda>s s'. m_client s = c \<longrightarrow> serves V s s') V c"
proof unfold_locales
  show "m_client s = c \<longrightarrow> serves V s u" if "m_client s = c \<longrightarrow> serves V s t" "m_client t = c \<longrightarrow> serves V t u"
    for s t u :: "('e, 'c) impl_world_scheme"
    using that by (auto simp: serves_def same_parts_def)
qed (auto simp: serves.R_refl serves.R_logged serves_post_commands)

interpretation serves: impl_effects "serves V" V
  by unfold_locales (rule serves_heartbeatLoop follows_own_client [OF serves_client])+

text \<open>Without a service nothing is posted.\<close>

definition idle :: "('e, 'z) impl_world_scheme \<Rightarrow> ('e, 'z) impl_world_scheme \<Rightarrow> bool" where
  "idle s s' \<longleftrightarrow> (\<not> m_service s \<longrightarrow> posted s' = posted s \<and> \<not> m_service s')"

interpretation idle: impl_local idle
  by unfold_locales (auto simp: idle_def)

lemma idle_service_call: "follows idle (service_call m)"
  by (simp add: follows_def idle_def service_call_def)

interpretation idle: hook_effects idle V for V
  by unfold_locales (rule idle_service_call)+

section \<open>Loading and configuring\<close>

lemma svc_startService_OkD:
  assumes "svc_startService V s = (Ok (), s')"
  shows "url_scheme (cp_url (mc_params (m_client s))) = HTTP \<and>
    (\<exists>h. s' = s\<lparr>m_client := (m_client s)\<lparr>mc_httpClient := Some (client_of (mc_params (m_client s)))\<rparr>, hb := h\<rparr> \<and>
      hb_params h = hb_params (hb s) \<and> hb_httpClient h = Some (client_of (hb_params (hb s))) \<and> hb_timer h \<noteq> None)"
  using assms
  by (cases "url_scheme (cp_url (mc_params (m_client s)))"; cases "timer_setup V (interval_ms (hb s))")
    (auto simp: svc_startService_def mseq_def mbind_def setConnectionRestoredHandler_def hb_startService_def
      setup_timer_def interval_ms_def startClient_def split: if_splits)

lemma startService_ok:
  assumes "impl_startService V s = (Ok (), s')" and "exporter_ok V s"
  shows "exporter_ok V s'"
proof (cases "m_service s")
  case True
  let ?t = "s\<lparr>m_ioService := True\<rparr>"
  obtain r t where t: "svc_startService V ?t = (r, t)" by fastforce
  with assms(1) True have r: "r = Ok ()" and s': "s' = t\<lparr>logged := logged t @ [Log START_SERVICE [''nxos_dhcp6_exporter'']]\<rparr>"
    by (auto simp: impl_startService_def setIOService_def mseq_def mbind_def split: outcome.splits)
  from svc_startService_OkD [OF t [unfolded r]] assms(2) True show ?thesis
    by (auto simp: s' exporter_ok_def service_ok_def Let_def)
next
  case False
  with assms show ?thesis by (simp add: impl_startService_def)
qed

lemma configured_ok:
  assumes "dhcp6_srv_configured V h s = (Ok code, s')" and "exporter_ok V s"
  shows "exporter_ok V s'"
proof -
  obtain r t where t: "impl_startService V s = (r, t)" by fastforce
  have "(r = Ok () \<and> s' = t) \<or> (\<exists>l. s' = s\<lparr>next_step := DROP, error_arg := Some io_context_error, logged := l\<rparr>)"
    using assms(1) t
    by (auto simp: dhcp6_srv_configured_def catching_def mseq_def mbind_def getArgument_def impl_call_def setStatus_def
        split: arg.splits option.splits if_splits outcome.splits)
  then show ?thesis
    using startService_ok [of V s t] t assms(2) by (auto simp: exporter_ok_def service_ok_def)
qed

lemma new_service_OkD:
  assumes "new_service V ty p = Ok (c, h)"
  shows "parseConfig V p = Ok (mc_params c) \<and> mc_httpClient c = None \<and> hb_params h = mc_params c \<and> hb_httpClient h = None"
  using assms
  by (cases "e_stringValue (el V) ty")
    (auto simp: new_service_def rbind_eq_Ok rmap_eq_Ok ManagementClient_init_def HeartbeatService_init_def
      new_mgmt_client_def new_heartbeat_def split: exn.splits if_splits)

lemma configure_cases:
  assumes "configureAndInitClient V params s = (r, t)"
  obtains (new) c h p where "r = Ok ()" "t = s\<lparr>m_service := True, m_client := c, hb := h, m_ioService := False\<rparr>"
    "parseConfig V (Some p) = Ok (mc_params c)" "mc_httpClient c = None" "hb_params h = mc_params c" "hb_httpClient h = None"
  | (failed) "r \<noteq> Ok ()" "t = s"
proof (cases "r = Ok ()")
  case True
  with assms new show ?thesis
    by (auto simp: configureAndInitClient_def mbind_def dest: new_service_OkD
        split: option.splits if_splits prod.splits outcome.splits)
next
  case False
  with assms failed show ?thesis
    by (auto simp: configureAndInitClient_def mbind_def split: option.splits if_splits prod.splits outcome.splits)
qed

lemma load_ok:
  assumes "load V inet6 version params s = (Ok code, s')" and "posted s = []" and "exporter_ok V s"
  shows "exporter_ok V s'"
proof -
  let ?s = "s\<lparr>impl := True, m_service := False\<rparr>"
  obtain r t where t: "configureAndInitClient V params ?s = (r, t)" by fastforce
  then have "exporter_ok V t"
    by (cases rule: configure_cases) (auto simp: exporter_ok_def service_ok_def Let_def assms(2))
  moreover have "\<exists>l. s' = s\<lparr>logged := l\<rparr> \<or> s' = t\<lparr>logged := l\<rparr>"
    using assms(1) t
    by (auto simp: load_def catching_def mseq_def mbind_def split: if_splits outcome.splits)
  ultimately show ?thesis using assms(3) by (auto simp: exporter_ok_def)
qed

lemma unload_ok: "unload s = (Ok code, s') \<Longrightarrow> posted s = [] \<Longrightarrow> exporter_ok V s'"
  by (auto simp: unload_def mseq_def mbind_def exporter_ok_def)

lemma subnet6_select_ok: "subnet6_select h s = (Ok code, s') \<Longrightarrow> exporter_ok V s \<Longrightarrow> exporter_ok V s'"
  by (auto simp: subnet6_select_def catching_def mseq_def mbind_def getArgument_def exporter_ok_def
      split: arg.splits)

section \<open>Every step keeps the shape\<close>

lemma serves_ok: "serves V s s' \<Longrightarrow> m_service s \<Longrightarrow> exporter_ok V s \<Longrightarrow> exporter_ok V s'"
  by (simp add: serves_def same_parts_def exporter_ok_def)

lemma service_ok_fewer:
  "posted s = xs @ rq # ys \<Longrightarrow> service_ok V s \<Longrightarrow> service_ok V (s\<lparr>posted := xs @ ys\<rparr>)"
  by (auto simp: service_ok_def Let_def)

lemma reply_step_ok:
  assumes "reply_step V s s'" and "exporter_ok V s"
  shows "exporter_ok V s'"
  using assms(1)
proof (rule reply_stepE)
  fix xs rq ys M cfg rep r
  assume p: "posted s = xs @ rq # ys"
    and r: "run_request V (handle_response V M cfg) rq rep (s\<lparr>posted := xs @ ys\<rparr>) = (r, s')"
  have m: "m_service s" and ok: "service_ok V s" using assms(2) p by (auto simp: exporter_ok_def split: if_splits)
  have "serves V (s\<lparr>posted := xs @ ys\<rparr>) s'"
    by (rule followsD [OF serves.follows_run_request [OF serves.follows_handle_response] r])
  then show ?thesis
    using serves_ok m service_ok_fewer [OF p ok] by (fastforce simp: exporter_ok_def)
qed

lemma run_hook_ok:
  assumes "run_hook V M k h s = (r, s')" and "exporter_ok V s"
  shows "exporter_ok V s'"
proof (cases "m_service s")
  case True
  from serves_ok [OF followsD [OF serves.follows_run_hook assms(1)] this assms(2)] show ?thesis .
next
  case False
  with followsD [OF idle.follows_run_hook assms(1)] assms(2) show ?thesis by (simp add: idle_def exporter_ok_def)
qed

lemma life_step_ok: "life_step V s s' \<Longrightarrow> exporter_ok V s \<Longrightarrow> exporter_ok V s'"
proof (induction rule: life_step.induct)
  case (life_running s s')
  from this(1) show ?case
  proof cases
    case (sys_timer n)
    from serves_ok [OF followsD [OF serves.follows_heartbeatLoop this(3)] this(1) life_running(2)] show ?thesis .
  qed (use life_running(2) in \<open>auto intro: reply_step_ok run_hook_ok configured_ok\<close>)
qed (auto intro: subnet6_select_ok load_ok unload_ok)

text \<open>A configuration that is accepted.\<close>

lemma sample_parse:
  "parseConfig (std_env J) (Some (sample_config ''http://switch'' (Some 5) [])) = Ok (mc_params sample_client)"
proof -
  have "config_accepted (std_env J) (sample_config ''http://switch'' (Some 5) []) (std_url ''http://switch'') 5
      \<lparr>auth_secret = ''admin:secret''\<rparr>"
    by (auto simp: config_accepted_def has_host_def has_interval_def has_credentials_def string_entry_def
        sample_config_def std_url_def)
  from parseConfig_acceptedI [OF this] show ?thesis by (simp add: parsed_params_def sample_client_def)
qed

section \<open>Properties\<close>

text \<open>C4: in every state the library reaches from before it is loaded, by loading, configuring, hooks,
  timer events, answers and unloading in any order, its parts fit together: while there is a
  service, client and heartbeat hold the same parameters, which some configuration gives; both are
  started or neither is; started, they carry these parameters' credentials, the timer exists and
  the switch is an HTTP URL; and every pending request is a well-formed request to this URL with
  these credentials and the timeout of its kind.  Without a service, or before it is started,
  nothing is pending.\<close>

theorem reachable_states_ok:
  assumes "(life_step V)\<^sup>*\<^sup>* s0 s" and "not_loaded s0"
  shows "exporter_ok V s"
  using assms by (induction rule: rtranclp_induct) (auto intro: not_loaded_ok life_step_ok)

lemma reachable_states_ok_witness:
  "\<exists>s. (life_step (std_env (std_json True (\<lambda>s. None))))\<^sup>*\<^sup>* (sample_state\<lparr>impl := False, m_service := False\<rparr>) s \<and>
    m_service s \<and> exporter_ok (std_env (std_json True (\<lambda>s. None))) s"
proof -
  let ?V = "std_env (std_json True (\<lambda>s. None))" and ?s0 = "sample_state\<lparr>impl := False, m_service := False\<rparr>"
  let ?params = "[''connection-type'' \<mapsto> KStr ''nxos'', ''connection-params'' \<mapsto> sample_config ''http://switch'' (Some 5) []]"
  let ?s1 = "?s0\<lparr>impl := True, m_service := False\<rparr>"
  from configure_Ok_iff [of ?V ?params ?s1] sample_parse [of "std_json True (\<lambda>s. None)"] obtain s where s: "configureAndInitClient ?V ?params ?s1 = (Ok (), s)"
    by (auto simp: sample_config_def)
  then have "load ?V True ''1'' ?params ?s0 = (Ok 0, s\<lparr>logged := logged s @ [Log LOAD [''nxos_dhcp6_exporter'', ''1'']]\<rparr>)"
    by (simp add: load_def mseq_def mbind_def catching_def)
  from r_into_rtranclp [of "life_step ?V", OF life_load [OF _ this]]
  have steps: "(life_step ?V)\<^sup>*\<^sup>* ?s0 (s\<lparr>logged := logged s @ [Log LOAD [''nxos_dhcp6_exporter'', ''1'']]\<rparr>)" by simp
  have "m_service s" using s by (cases rule: configure_cases) simp_all
  with steps reachable_states_ok [OF steps] show ?thesis by (auto simp: not_loaded_def)
qed

end
