(* ===== verification/Switch_Table.thy ===== *)
theory Switch_Table
  imports Hook_Safety Life_Cycle
begin

text \<open>
  The effect of the exporter on the switch.  The switch is an interface (\<open>route_switch\<close>): it holds a
  table of routes, pairs of a destination and a next hop, and executes the commands of a request.
  A hook stands for changes of this table (\<open>hook_changes\<close>), a pending request for the change it
  leads to (\<open>change_of\<close>).  Lemmas: which changes each hook requests, and that the table follows the
  history of requested changes however hooks, answers and requests interleave and whatever the
  switch refuses.  \<open>net_run\<close>, the runs of the exporter together with the switch, is a specification: its
  rules run the definitions of the exporter and say what the switch does.
\<close>

section \<open>Changes of the table\<close>

type_synonym route_table = "(string \<times> string) set"

datatype change = Install (ch_dest: string) (ch_hop: string) | Withdraw (ch_dest: string) (ch_hop: string)

fun apply_change :: "change \<Rightarrow> route_table \<Rightarrow> route_table" where
  "apply_change (Install d n) T = insert (d, n) T"
| "apply_change (Withdraw d n) T = T - {(d, n)}"

text \<open>What the switch answers to a lookup of an address: an interface, perhaps a next hop.\<close>

record topology =
  t_interface :: "string \<Rightarrow> string"
  t_hop :: "string \<Rightarrow> string option"

text \<open>The change a pending request leads to, by its handler.\<close>

fun change_of :: "topology \<Rightarrow> handler \<Rightarrow> change list" where
  "change_of tp (RouteApply ty d n) = [Install d n]"
| "change_of tp (RouteRemove ty d n) = [Withdraw d n]"
| "change_of tp (AddressLookup a lt (ApplyVlan na link ty)) = [Install na (t_interface tp a)]"
| "change_of tp (AddressLookup a lt (RemoveVlan na link ty)) = [Withdraw na (t_interface tp a)]"
| "change_of tp (AddressLookup a lt (FuzzyVlan na ty)) =
     (if isValidVlanName (t_interface tp a) then [Withdraw na (t_interface tp a)] else [])"
| "change_of tp (AddressLookup a lt (FuzzyHop pd ty)) =
     (case t_hop tp a of Some n \<Rightarrow> [Withdraw pd n] | None \<Rightarrow> [])"
| "change_of tp NeighborMapping = []"
| "change_of tp HeartbeatResponse = []"

definition changes :: "topology \<Rightarrow> 'e request list \<Rightarrow> change list" where
  "changes tp rqs = concat (map (\<lambda>rq. change_of tp (rq_handler rq)) rqs)"

lemma changes_simps [simp]:
  "changes tp [] = []" "changes tp (rq # rqs) = change_of tp (rq_handler rq) @ changes tp rqs"
  "changes tp (rqs @ rqs') = changes tp rqs @ changes tp rqs'"
  by (simp_all add: changes_def)

section \<open>What a hook stands for\<close>

text \<open>The route of a lease: to the interface of the relay, or to the address of the client.\<close>

definition lease_route ::
    "('j, 'e) env \<Rightarrow> 'j lease_mgr \<Rightarrow> topology \<Rightarrow> ioaddr \<Rightarrow> lease \<Rightarrow> (string \<times> string) option" where
  "lease_route V M tp relay l = (case l_type l of
     TYPE_NA \<Rightarrow> Some (host_text V (l_addr l), t_interface tp (host_text V relay))
   | TYPE_PD \<Rightarrow> (case findIA_NALeaseByDUID_IAID M (l_duid l) (l_iaid l) of
         Ok (Some na) \<Rightarrow> Some (subnet_text V (l_addr l) (l_prefixlen l), toText V (l_addr na))
       | _ \<Rightarrow> None)
   | _ \<Rightarrow> None)"

definition install_route :: "(string \<times> string) option \<Rightarrow> change list" where
  "install_route r = (case r of Some (d, n) \<Rightarrow> [Install d n] | None \<Rightarrow> [])"

definition withdraw_route :: "(string \<times> string) option \<Rightarrow> change list" where
  "withdraw_route r = (case r of Some (d, n) \<Rightarrow> [Withdraw d n] | None \<Rightarrow> [])"

definition select_changes where
  "select_changes V M tp h q l relay = (case (h_subnet6 h, h_fake_allocation h) of
     (Arg _, Arg False) \<Rightarrow> install_route (lease_route V M tp relay l)
   | _ \<Rightarrow> [])"

text \<open>
  Renewing and rebinding: the old lease is the one the client names in its option.  The old route
  of a prefix is withdrawn with the relay as its next hop.
\<close>

definition renew_changes where
  "renew_changes rebind V M tp h q l relay =
     (if has_ia_na h then (case getOption_IA_NA q of
         Some opt \<Rightarrow> (case io_iaaddr opt of
             Some (Some old) \<Rightarrow>
               (if old \<noteq> l_addr l then [Withdraw (host_text V old) (t_interface tp (host_text V relay))] else []) @
               [Install (host_text V (l_addr l)) (t_interface tp (host_text V relay))]
           | _ \<Rightarrow> [])
       | None \<Rightarrow> [])
      else (case getOption_IA_PD q of
         Some opt \<Rightarrow> (case (io_iaprefix opt, findIA_NALeaseByDUID_IAID M (l_duid l) (l_iaid l)) of
             (Some (Some (old, len)), Ok (Some na)) \<Rightarrow>
               (let new = Install (subnet_text V (l_addr l) (l_prefixlen l)) (toText V (l_addr na)) in
                if old \<noteq> l_addr l then [Withdraw (subnet_text V old len) (toText V relay), new]
                else if rebind then [new] else [])
           | _ \<Rightarrow> [])
       | None \<Rightarrow> []))"

text \<open>
  Expiry: the next hop of an address is asked for, the one of a prefix is the client's address
  written as a host prefix.
\<close>

definition expire_changes where
  "expire_changes V M tp h l = (case (h_remove_lease h, getActiveAndExpiredLeasesSize M (l_type l) (l_duid l) (l_iaid l)) of
     (Arg _, Ok _) \<Rightarrow> (case l_type l of
         TYPE_NA \<Rightarrow> change_of tp (AddressLookup (host_text V (l_addr l)) [] (FuzzyVlan (host_text V (l_addr l)) []))
       | TYPE_PD \<Rightarrow> (let pd = subnet_text V (l_addr l) (l_prefixlen l) in
           case findIA_NALeaseByDUID_IAID M (l_duid l) (l_iaid l) of
             Ok (Some na) \<Rightarrow> [Withdraw pd (host_text V (l_addr na))]
           | Ok None \<Rightarrow> change_of tp (AddressLookup pd [] (FuzzyHop pd []))
           | _ \<Rightarrow> [])
       | _ \<Rightarrow> [])
   | _ \<Rightarrow> [])"

definition hook_changes ::
    "('j, 'e) env \<Rightarrow> 'j lease_mgr \<Rightarrow> topology \<Rightarrow> hook \<Rightarrow> 'j callout_handle \<Rightarrow> change list" where
  "hook_changes V M tp k h = (case h_lease6 h of
     Arg (Some l) \<Rightarrow> (if k = Expire then expire_changes V M tp h l
       else case h_query6 h of
         Arg (Some q) \<Rightarrow> (case getRelay6LinkAddress0 q of
             Ok relay \<Rightarrow> (case k of
                 Select \<Rightarrow> select_changes V M tp h q l relay
               | Renew \<Rightarrow> renew_changes False V M tp h q l relay
               | Rebind \<Rightarrow> renew_changes True V M tp h q l relay
               | _ \<Rightarrow> withdraw_route (lease_route V M tp relay l))
           | _ \<Rightarrow> [])
       | _ \<Rightarrow> [])
   | _ \<Rightarrow> [])"


text \<open>\<open>posts tp s m cs\<close>: run in \<open>s\<close>, the program posts requests for the changes \<open>cs\<close>.\<close>

definition posts :: "topology \<Rightarrow> ('e, 'z) world_scheme \<Rightarrow> ('j, ('e, 'z) world_scheme, 'a) prog \<Rightarrow> change list \<Rightarrow> bool" where
  "posts tp s m cs \<longleftrightarrow> (\<exists>new. posted (snd (m s)) = posted s @ new \<and> changes tp new = cs)"

lemma posts_basic [simp]:
  "posts tp s (ret a) cs \<longleftrightarrow> cs = []" "posts tp s (throw e) cs \<longleftrightarrow> cs = []" "posts tp s (lift r) cs \<longleftrightarrow> cs = []"
  "posts tp s (Pair r) cs \<longleftrightarrow> cs = []" "posts tp s (log_msg i args) cs \<longleftrightarrow> cs = []" "posts tp s (setStatus st) [] "
  "posts tp s (mseq (log_msg i args) m) cs \<longleftrightarrow> posts tp (s\<lparr>logged := logged s @ [Log i args]\<rparr>) m cs"
  by (auto simp: posts_def setStatus_def mseq_def mbind_def)

lemma posts_logged [simp]: "posts tp s (\<lambda>s. (r, s\<lparr>logged := l s\<rparr>)) cs \<longleftrightarrow> cs = []"
  by (auto simp: posts_def)

lemma posts_skip [simp]: "posts tp s (mseq (ret ()) m) cs \<longleftrightarrow> posts tp s m cs"
  by (simp add: posts_def mseq_def mbind_def)

lemma posts_lift [simp]:
  "posts tp s (mbind (lift r) f) cs \<longleftrightarrow> (case r of Ok a \<Rightarrow> posts tp s (f a) cs | _ \<Rightarrow> cs = [])"
  by (auto simp: posts_def split: outcome.split)

text \<open>The calls of the service.\<close>

lemma posts_export [simp]:
  assumes "requests_encoded V enc" and "ready s"
  shows "posts tp s (export_route (nxos_ops V M) \<lparr>re_tid = t, re_iaid = i, re_duid = d, routeInfo = IA_NAInfo relay na\<rparr>) cs \<longleftrightarrow>
      cs = [Install (host_text V na) (t_interface tp (host_text V relay))]"
    and "posts tp s (export_route (nxos_ops V M) \<lparr>re_tid = t, re_iaid = i, re_duid = d, routeInfo = IA_PDInfo na pd len\<rparr>) cs \<longleftrightarrow>
      cs = [Install (subnet_text V pd len) (toText V na)]"
  by (auto simp: posts_def export_route_address [OF assms] export_route_prefix [OF assms] lookup_request_def command_request_def)

lemma posts_remove [simp]:
  assumes "requests_encoded V enc" and "ready s"
  shows "posts tp s (remove_route (nxos_ops V M) \<lparr>re_tid = t, re_iaid = i, re_duid = d, routeInfo = IA_NAInfo relay na\<rparr>) cs \<longleftrightarrow>
      cs = [Withdraw (host_text V na) (t_interface tp (host_text V relay))]"
    and "posts tp s (remove_route (nxos_ops V M) \<lparr>re_tid = t, re_iaid = i, re_duid = d, routeInfo = IA_PDInfo na pd len\<rparr>) cs \<longleftrightarrow>
      cs = [Withdraw (subnet_text V pd len) (toText V na)]"
  by (auto simp: posts_def remove_route_address [OF assms] remove_route_prefix [OF assms] lookup_request_def command_request_def)

lemma posts_remove_expired:
  assumes "requests_encoded V enc" and "ready s"
  shows "posts tp s (remove_route (nxos_ops V M) \<lparr>re_tid = t, re_iaid = i, re_duid = d, routeInfo = IA_NAInfoFuzzyRemove na\<rparr>) cs \<longleftrightarrow>
      cs = change_of tp (AddressLookup (host_text V na) [] (FuzzyVlan (host_text V na) []))"
    and "posts tp s (remove_route (nxos_ops V M) \<lparr>re_tid = t, re_iaid = i, re_duid = d, routeInfo = IA_PDInfoFuzzyRemove pd len\<rparr>) cs \<longleftrightarrow>
      cs = (case findIA_NALeaseByDUID_IAID M d i of
          Ok (Some na) \<Rightarrow> [Withdraw (subnet_text V pd len) (host_text V (l_addr na))]
        | Ok None \<Rightarrow> change_of tp (AddressLookup (subnet_text V pd len) [] (FuzzyHop (subnet_text V pd len) []))
        | _ \<Rightarrow> [])"
  using assms(2)
  by (auto simp: posts_def service_call_def ready_def removeRoute_def mseq_def mbind_def removeRoutesFromSwitch_def remove_prefix_fuzzy_def Let_def
      asyncLookupAddressInternal_def post_commands_encoded [OF assms(1)] command_request_def split: outcome.splits option.splits)

lemma posts_move [simp]:
  assumes "requests_encoded V enc" and "ready s"
  shows "posts tp s (mseq (remove_route (nxos_ops V M) \<lparr>re_tid = t, re_iaid = i, re_duid = d, routeInfo = IA_NAInfo relay old\<rparr>)
        (export_route (nxos_ops V M) \<lparr>re_tid = t, re_iaid = i, re_duid = d, routeInfo = IA_NAInfo relay na\<rparr>)) cs \<longleftrightarrow>
      cs = [Withdraw (host_text V old) (t_interface tp (host_text V relay)), Install (host_text V na) (t_interface tp (host_text V relay))]"
    and "posts tp s (mseq (remove_route (nxos_ops V M) \<lparr>re_tid = t, re_iaid = i, re_duid = d, routeInfo = IA_PDInfo relay old olen\<rparr>)
        (export_route (nxos_ops V M) \<lparr>re_tid = t, re_iaid = i, re_duid = d, routeInfo = IA_PDInfo na pd len\<rparr>)) cs \<longleftrightarrow>
      cs = [Withdraw (subnet_text V old olen) (toText V relay), Install (subnet_text V pd len) (toText V na)]"
  using assms(2)
  by (auto simp: posts_def mseq_def mbind_def remove_route_address [OF assms] remove_route_prefix [OF assms]
      export_route_address [OF assms(1)] export_route_prefix [OF assms(1)] lookup_request_def command_request_def)

lemma posts_lease_callout: "ready s \<Longrightarrow> posts tp s m cs \<Longrightarrow> posts tp s (lease_callout failed m) cs"
  by (auto simp: posts_def lease_callout_def catching_def mseq_def mbind_def impl_call_def ready_def split: prod.split outcome.split)


lemma posts_lease_route:
  assumes "requests_encoded V enc" and "ready s"
  shows "posts tp s (remove_lease_route V M (nxos_ops V M) tid relay l) (withdraw_route (lease_route V M tp relay l))"
  using assms
  by (auto simp: remove_lease_route_def lease_route_def withdraw_route_def split: lease_type.split outcome.split option.split)

lemma posts_select:
  assumes "requests_encoded V enc" and "ready s" and "h_query6 h = Arg (Some q)" and "h_lease6 h = Arg (Some l)"
  shows "posts tp s (handleLease6Select M (nxos_ops V M) h)
    (case getRelay6LinkAddress0 q of Ok relay \<Rightarrow> select_changes V M tp h q l relay | _ \<Rightarrow> [])"
  using assms
  by (auto simp: handleLease6Select_def getArgument_def deref_def select_changes_def install_route_def lease_route_def
      split: lease_type.split outcome.split option.split arg.split)

lemma posts_renew_rebind:
  assumes "requests_encoded V enc" and "ready s" and "options_present h q"
  shows "posts tp s (handleRenewRebindProcess b V M (nxos_ops V M) (Some q) (Some l) (has_ia_na h))
    (case getRelay6LinkAddress0 q of Ok relay \<Rightarrow> renew_changes b V M tp h q l relay | _ \<Rightarrow> [])"
proof (cases "has_ia_na h")
  case True
  with assms(3) obtain opt where "getOption_IA_NA q = Some opt" "io_iaaddr opt \<noteq> Some None"
    by (auto simp: options_present_def)
  with True assms(1,2) show ?thesis
    by (auto simp: handleRenewRebindProcess_def renew_address_def deref_def renew_changes_def Let_def
        split: outcome.split option.split)
next
  case False
  with assms(3) obtain opt where "getOption_IA_PD q = Some opt" "io_iaprefix opt \<noteq> Some None"
    by (auto simp: options_present_def)
  with False assms(1,2) show ?thesis
    by (auto simp: handleRenewRebindProcess_def renew_prefix_def deref_def renew_changes_def Let_def
        split: outcome.split option.split)
qed

lemma posts_expire:
  assumes "requests_encoded V enc" and "ready s" and "h_lease6 h = Arg (Some l)"
  shows "posts tp s (handleLease6Expire M (nxos_ops V M) h) (expire_changes V M tp h l)"
  using assms
  by (auto simp: handleLease6Expire_def getArgument_def deref_def expire_changes_def Let_def posts_remove_expired [OF assms(1)]
      split: lease_type.split outcome.split option.split arg.split)

lemma posts_run_hook:
  assumes "requests_encoded V enc" and "ready s" and "well_formed k h"
  shows "posts tp s (run_hook V M k h) (hook_changes V M tp k h)"
proof -
  from assms(3) obtain l where l: "h_lease6 h = Arg (Some l)" unfolding well_formed_def by blast
  show ?thesis
  proof (cases "k = Expire")
    case True
    then show ?thesis
      by (simp add: lease6_expire_def hook_changes_def l posts_lease_callout [OF assms(2) posts_expire [OF assms(1,2) l]])
  next
    case False
    with assms(3) obtain q where q: "h_query6 h = Arg (Some q)" and opts: "k = Renew \<or> k = Rebind \<Longrightarrow> options_present h q"
      unfolding well_formed_def by blast
    have "posts tp s (lease6_select M (nxos_ops V M) h)
        (case getRelay6LinkAddress0 q of Ok relay \<Rightarrow> select_changes V M tp h q l relay | _ \<Rightarrow> [])"
      unfolding lease6_select_def by (rule posts_lease_callout [OF assms(2) posts_select [OF assms(1,2) q l]])
    moreover have "posts tp s (lease_callout failed (handleRenewRebindProcess b V M (nxos_ops V M) (Some q) (Some l) (has_ia_na h)))
        (case getRelay6LinkAddress0 q of Ok relay \<Rightarrow> renew_changes b V M tp h q l relay | _ \<Rightarrow> [])" if "k = Renew \<or> k = Rebind" for b failed
      by (rule posts_lease_callout [OF assms(2) posts_renew_rebind [OF assms(1,2) opts [OF that]]])
    moreover have "posts tp s (lease_callout failed (mbind (lift (getRelay6LinkAddress0 q)) (\<lambda>relay.
          remove_lease_route V M (nxos_ops V M) (getTransid q) relay l)))
        (case getRelay6LinkAddress0 q of Ok relay \<Rightarrow> withdraw_route (lease_route V M tp relay l) | _ \<Rightarrow> [])" for failed
      by (rule posts_lease_callout [OF assms(2)]) (simp add: posts_lease_route [OF assms(1,2)] split: outcome.split)
    ultimately show ?thesis
      using False
      by (cases k; cases "getRelay6LinkAddress0 q") (simp_all add: lease6_renew_def lease6_rebind_def lease6_release_def lease6_decline_def
          handleLease6Renew_def handleLease6Rebind_def handleLease6Release_def handleLease6Decline_def hook_changes_def q l
          getArgument_def deref_def posts_lease_callout [OF assms(2)])
  qed
qed


text \<open>The destination of a change is an address or a prefix, written without blanks.\<close>

definition plain :: "change list \<Rightarrow> bool" where
  "plain cs \<longleftrightarrow> (\<forall>c \<in> set cs. blank_free (ch_dest c))"

lemma plain_simps [simp]:
  "plain []" "plain (c # cs) \<longleftrightarrow> blank_free (ch_dest c) \<and> plain cs" "plain (cs @ cs') \<longleftrightarrow> plain cs \<and> plain cs'"
  by (auto simp: plain_def)

lemma plain_hook_changes:
  assumes "toText_ok V"
  shows "plain (hook_changes V M tp k h)"
proof -
  note texts [simp] = host_text_blank_free [OF assms] subnet_text_blank_free [OF assms]
  have route: "plain (install_route (lease_route V M tp relay l))" "plain (withdraw_route (lease_route V M tp relay l))" for relay l
    by (simp_all add: install_route_def withdraw_route_def lease_route_def split: lease_type.split outcome.split option.split)
  have select: "plain (select_changes V M tp h q l relay)" for q :: "'a pkt" and l relay
    by (simp add: select_changes_def route split: arg.split bool.split)
  have renew: "plain (renew_changes b V M tp h q l relay)" for b q l relay
    by (cases "getOption_IA_NA q"; cases "getOption_IA_PD q"; cases "findIA_NALeaseByDUID_IAID M (l_duid l) (l_iaid l)")
      (simp_all add: renew_changes_def Let_def split: option.split)
  have expire: "plain (expire_changes V M tp h l)" for l
    by (cases "l_type l"; cases "findIA_NALeaseByDUID_IAID M (l_duid l) (l_iaid l)")
      (simp_all add: expire_changes_def Let_def split: arg.split outcome.split option.split)
  show ?thesis
    by (cases k) (simp_all add: hook_changes_def route select renew expire split: arg.split option.split outcome.split)
qed

section \<open>The switch\<close>

text \<open>
  What the model relies on in a switch: \<open>run body\<close> is the effect of a request's document on the table.
  The route commands do what they say, the other commands leave the table alone.
\<close>

locale route_switch =
  fixes V :: "('j, 'e) env" and enc :: "(int32 \<times> string) list \<Rightarrow> 'e" and run :: "'e \<Rightarrow> route_table \<Rightarrow> route_table"
  assumes encoded: "requests_encoded V enc"
    and run_apply: "blank_free d \<Longrightarrow> run (enc [(1, createApplyRouteIpv6Command d n)]) T = insert (d, n) T"
    and run_remove: "blank_free d \<Longrightarrow> run (enc [(1, createRemoveRouteIpv6Command d n)]) T = T - {(d, n)}"
    and run_remove_clear: "blank_free d \<Longrightarrow>
      run (enc [(1, createRemoveRouteIpv6Command d n), (2, createRemoveNDCacheEntryIpv6Command i)]) T = T - {(d, n)}"
    and run_lookup: "run (enc [(1, createMappingVlanAddrToVlanIdCommand a)]) T = T"
begin

lemma good_request_body:
  assumes "good_request V rq"
  obtains cmds where "expects (rq_handler rq) cmds" and "rq_body rq = enc cmds"
proof -
  from assms obtain cmds where "expects (rq_handler rq) cmds" "createRequestFromCommands V cmds = Ok (rq_body rq)"
    unfolding good_request_def by blast
  moreover from this(1) have "cmds \<noteq> []" by (cases "rq_handler rq") auto
  ultimately show ?thesis using encoded that by (simp add: requests_encoded_def)
qed

text \<open>A change is executed when its request is; a lookup changes nothing.\<close>

lemma run_change:
  assumes "good_request V rq" and "rank (rq_handler rq) = 0" and "plain (change_of tp (rq_handler rq))"
  shows "run (rq_body rq) T = fold apply_change (change_of tp (rq_handler rq)) T"
proof (rule good_request_body [OF assms(1)])
  fix cmds assume "expects (rq_handler rq) cmds" and body: "rq_body rq = enc cmds"
  then show ?thesis
    unfolding body using assms(2,3)
    by (cases "rq_handler rq") (force simp: run_apply run_remove run_remove_clear)+
qed

lemma run_lookup_request:
  assumes "good_request V rq" and "rank (rq_handler rq) = 1"
  shows "run (rq_body rq) T = T"
proof (rule good_request_body [OF assms(1)])
  fix cmds assume "expects (rq_handler rq) cmds" and body: "rq_body rq = enc cmds"
  then show ?thesis unfolding body using assms(2) by (cases "rq_handler rq") (simp_all add: run_lookup)
qed

end

section \<open>Runs of the exporter with the switch\<close>

lemma command_request_sel [simp]:
  "rq_url (command_request c b h) = cp_url (mc_params c)"
  "rq_handler (command_request c b h) = h"
  "rq_body (command_request c b h) = b"
  "(command_request c b h)\<lparr>rq_handler := h'\<rparr> = command_request c b h'"
  by (simp_all add: command_request_def)

lemma lookup_request_sel [simp]:
  "rq_url (lookup_request V enc c a h) = cp_url (mc_params c)"
  "rq_handler (lookup_request V enc c a h) = AddressLookup (host_text V a) relay_address h"
  "rq_body (lookup_request V enc c a h) = enc [(1, createMappingVlanAddrToVlanIdCommand (host_text V a))]"
  by (simp_all add: lookup_request_def command_request_def)

text \<open>A lookup is answered with the interface and the next hop of its address.\<close>

definition lookup_body :: "('j, 'e) env \<Rightarrow> topology \<Rightarrow> string \<Rightarrow> string \<Rightarrow> bool" where
  "lookup_body V tp a body \<longleftrightarrow> body \<noteq> [] \<and> (\<exists>i v af pfx att.
     j_parse (nl V) body = Ok (response_object (nl V) \<lparr>resp_id = i, resp_result = j_object (nl V)
         [(''body'', lookup_doc (nl V) v af pfx att (hop_object (nl V) (t_hop tp a, Some (t_interface tp a))))]\<rparr>))"

definition answered :: "('j, 'e) env \<Rightarrow> topology \<Rightarrow> 'e request \<Rightarrow> reply \<Rightarrow> bool" where
  "answered V tp rq rep \<longleftrightarrow> (\<forall>a lt h. rq_handler rq = AddressLookup a lt h \<longrightarrow>
     (\<exists>st body. rep = Reply st body \<and> lookup_body V tp a body))"

text \<open>No two pending requests are for the same destination.\<close>

definition calm :: "topology \<Rightarrow> ('e, 'z) world_scheme \<Rightarrow> bool" where
  "calm tp s \<longleftrightarrow> distinct (map ch_dest (changes tp (posted s)))"

text \<open>
  The history of a run: the changes the hooks and the restores have asked for, in order, each with
  whether it still stands.  \<open>refuse\<close> strikes out the last standing entry of a change.
\<close>

type_synonym history = "(change \<times> bool) list"

definition asked :: "change list \<Rightarrow> history" where
  "asked cs = map (\<lambda>c. (c, True)) cs"

definition standing :: "history \<Rightarrow> change list" where
  "standing h = map fst (filter snd h)"

fun strike_first :: "change \<Rightarrow> history \<Rightarrow> history" where
  "strike_first c [] = []"
| "strike_first c (e # h) = (if e = (c, True) then (c, False) # h else e # strike_first c h)"

fun refuse :: "change list \<Rightarrow> history \<Rightarrow> history" where
  "refuse [] h = h"
| "refuse (c # cs) h = refuse cs (rev (strike_first c (rev h)))"

text \<open>A message that a change was made.\<close>

definition confirms :: "('e, 'z) world_scheme \<Rightarrow> ('e, 'z) world_scheme \<Rightarrow> bool" where
  "confirms s s' \<longleftrightarrow>
     (\<exists>e \<in> set (drop (length (logged s)) (logged s')). log_id e \<in> {ROUTE_APPLY_SUCCESS, ROUTE_REMOVE_SUCCESS})"

text \<open>
  A run from a state and a table: the history so far, the state and the table.  The pending requests
  are answered in any order.  A change is executed, and then answered by any reply or none, or it is
  refused, with a reply that does not make the program confirm it.  A lookup is answered with the
  switch's interface and next hop, or it fails in any way that leads to no change; a change that is
  refused or whose lookup fails no longer stands.  A \<open>strict\<close> run stays calm.
\<close>

inductive net_run ::
    "bool \<Rightarrow> ('j, 'e) env \<Rightarrow> topology \<Rightarrow> ('e \<Rightarrow> route_table \<Rightarrow> route_table) \<Rightarrow> ('e, 'z) impl_world_scheme \<Rightarrow> route_table
      \<Rightarrow> history \<Rightarrow> ('e, 'z) impl_world_scheme \<Rightarrow> route_table \<Rightarrow> bool"
  for strict V tp run s0 T0 where
  net_start: "net_run strict V tp run s0 T0 [] s0 T0"
| net_hook: "net_run strict V tp run s0 T0 ops s T \<Longrightarrow> ready s \<Longrightarrow> well_formed k h \<Longrightarrow>
    run_hook V M k h s = (Ok code, s') \<Longrightarrow> strict \<longrightarrow> calm tp s' \<Longrightarrow>
    net_run strict V tp run s0 T0 (ops @ asked (hook_changes V M tp k h)) s' T"
| net_change: "net_run strict V tp run s0 T0 ops s T \<Longrightarrow> posted s = xs @ rq # ys \<Longrightarrow> rank (rq_handler rq) = 0 \<Longrightarrow>
    run_request V (handle_response V M cfg) rq rep (s\<lparr>posted := xs @ ys\<rparr>) = (r, s') \<Longrightarrow> \<nexists>u. r = Stuck u \<Longrightarrow>
    net_run strict V tp run s0 T0 ops s' (run (rq_body rq) T)"
| net_refused: "net_run strict V tp run s0 T0 ops s T \<Longrightarrow> posted s = xs @ rq # ys \<Longrightarrow> rank (rq_handler rq) = 0 \<Longrightarrow>
    run_request V (handle_response V M cfg) rq rep (s\<lparr>posted := xs @ ys\<rparr>) = (r, s') \<Longrightarrow> \<nexists>u. r = Stuck u \<Longrightarrow>
    \<not> confirms s s' \<Longrightarrow> net_run strict V tp run s0 T0 (refuse (change_of tp (rq_handler rq)) ops) s' T"
| net_lookup: "net_run strict V tp run s0 T0 ops s T \<Longrightarrow> posted s = xs @ rq # ys \<Longrightarrow> rank (rq_handler rq) = 1 \<Longrightarrow>
    run_request V (handle_response V M cfg) rq rep (s\<lparr>posted := xs @ ys\<rparr>) = (r, s') \<Longrightarrow> \<nexists>u. r = Stuck u \<Longrightarrow>
    answered V tp rq rep \<Longrightarrow> net_run strict V tp run s0 T0 ops s' (run (rq_body rq) T)"
| net_unresolved: "net_run strict V tp run s0 T0 ops s T \<Longrightarrow> posted s = xs @ rq # ys \<Longrightarrow> rank (rq_handler rq) = 1 \<Longrightarrow>
    run_request V (handle_response V M cfg) rq rep (s\<lparr>posted := xs @ ys\<rparr>) = (r, s') \<Longrightarrow> \<nexists>u. r = Stuck u \<Longrightarrow>
    posted s' = xs @ ys \<Longrightarrow> net_run strict V tp run s0 T0 (refuse (change_of tp (rq_handler rq)) ops) s' T"
| net_restore: "net_run strict V tp run s0 T0 ops s T \<Longrightarrow> posted s = xs @ rq # ys \<Longrightarrow> rank (rq_handler rq) \<ge> 2 \<Longrightarrow>
    run_request V (handle_response V M cfg) rq rep (s\<lparr>posted := xs @ ys\<rparr>) = (r, s') \<Longrightarrow> \<nexists>u. r = Stuck u \<Longrightarrow>
    posted s' = xs @ ys @ new \<Longrightarrow> strict \<longrightarrow> calm tp s' \<Longrightarrow>
    net_run strict V tp run s0 T0 (ops @ asked (changes tp new)) s' T"
| net_timer: "net_run strict V tp run s0 T0 ops s T \<Longrightarrow> m_service s \<Longrightarrow> hb_timer (hb s) = Some (Running n) \<Longrightarrow>
    heartbeatLoop V s = (Ok (), s') \<Longrightarrow> net_run strict V tp run s0 T0 ops s' T"


section \<open>The table follows the history\<close>

text \<open>The changes of one destination; they alone decide about its routes.\<close>

definition about :: "string \<Rightarrow> change list \<Rightarrow> change list" where
  "about d cs = filter (\<lambda>c. ch_dest c = d) cs"

definition entries :: "string \<Rightarrow> history \<Rightarrow> history" where
  "entries d h = filter (\<lambda>e. ch_dest (fst e) = d) h"

lemma about_simps [simp]:
  "about d [] = []" "about d (c # cs) = (if ch_dest c = d then c # about d cs else about d cs)"
  "about d (cs @ cs') = about d cs @ about d cs'"
  by (simp_all add: about_def)

lemma history_simps [simp]:
  "asked [] = []" "asked (c # cs) = (c, True) # asked cs" "asked (cs @ cs') = asked cs @ asked cs'" "entries d [] = []"
  "entries d (h @ h') = entries d h @ entries d h'" "entries d (asked cs) = asked (about d cs)"
  "standing [] = []" "standing (h @ h') = standing h @ standing h'" "standing (asked cs) = cs"
  "standing ((c, b) # h) = (if b then c # standing h else standing h)"
  by (induction cs) (simp_all add: asked_def entries_def standing_def)

lemma about_standing: "about d (standing h) = standing (entries d h)"
  by (induction h) (auto simp: standing_def entries_def)

lemma same_destination:
  "(d, n) \<in> fold apply_change cs T \<longleftrightarrow> (d, n) \<in> fold apply_change (about d cs) T"
proof (induction cs arbitrary: T)
  case (Cons c cs)
  have other: "(d, n) \<in> fold apply_change bs T \<longleftrightarrow> (d, n) \<in> fold apply_change bs T'"
    if "\<And>n. (d, n) \<in> T \<longleftrightarrow> (d, n) \<in> T'" for bs T T'
    using that
  proof (induction bs arbitrary: T T')
    case (Cons b bs)
    have "(d, n) \<in> apply_change b T \<longleftrightarrow> (d, n) \<in> apply_change b T'" for n
      using Cons.prems by (cases b) auto
    from Cons.IH [OF this] show ?case by simp
  qed simp
  show ?case
  proof (cases "ch_dest c = d")
    case False
    then have "(d, m) \<in> apply_change c T \<longleftrightarrow> (d, m) \<in> T" for m by (cases c) auto
    with False Cons other [of "apply_change c T" T] show ?thesis by simp
  qed (simp add: Cons)
qed simp

lemma fold_about: "(\<And>d. about d cs = about d cs') \<Longrightarrow> fold apply_change cs T = fold apply_change cs' T"
  by (auto simp: same_destination [of _ _ cs] same_destination [of _ _ cs'])

text \<open>Striking out the last entry of a destination.\<close>

lemma strike_entries:
  "entries d h = (c, True) # h' \<Longrightarrow> entries d (strike_first c h) = (c, False) # h'"
  "d \<noteq> ch_dest c \<Longrightarrow> entries d (strike_first c h) = entries d h"
  by (induction h) (auto simp: entries_def split: if_splits)

lemma rev_entries: "entries d (rev h) = rev (entries d h)"
  by (simp add: entries_def rev_filter)

lemma refuse_entries:
  assumes "entries (ch_dest c) h = pre @ [(c, True)]"
  shows "entries (ch_dest c) (refuse [c] h) = pre @ [(c, False)]"
    and "d \<noteq> ch_dest c \<Longrightarrow> entries d (refuse [c] h) = entries d h"
proof -
  have "entries (ch_dest c) (rev h) = (c, True) # rev pre" using assms by (simp add: rev_entries)
  from strike_entries(1) [OF this] show "entries (ch_dest c) (refuse [c] h) = pre @ [(c, False)]"
    by (simp add: rev_entries)
qed (simp add: rev_entries strike_entries(2))

text \<open>A history and the changes executed and pending so far: for each destination the pending one is the last.\<close>

definition accounts :: "history \<Rightarrow> change list \<Rightarrow> change list \<Rightarrow> bool" where
  "accounts h executed pending \<longleftrightarrow>
     (\<forall>d. \<exists>pre. entries d h = pre @ asked (about d pending) \<and> standing pre = about d executed)"

lemma accounts_table:
  assumes "accounts h executed pending"
  shows "fold apply_change pending (fold apply_change executed T) = fold apply_change (standing h) T"
proof -
  have "about d (executed @ pending) = about d (standing h)" for d
  proof -
    obtain pre where "entries d h = pre @ asked (about d pending)" "standing pre = about d executed"
      using assms unfolding accounts_def by blast
    then show ?thesis by (simp add: about_standing)
  qed
  from fold_about [of "executed @ pending" "standing h", OF this] show ?thesis by simp
qed

lemma accounts_ask:
  assumes "accounts h executed pending"
  shows "accounts (h @ asked new) executed (pending @ new)"
  unfolding accounts_def
proof
  fix d
  obtain pre where "entries d h = pre @ asked (about d pending)" "standing pre = about d executed"
    using assms unfolding accounts_def by blast
  then show "\<exists>pre. entries d (h @ asked new) = pre @ asked (about d (pending @ new)) \<and> standing pre = about d executed"
    by (intro exI [of _ pre]) simp
qed

text \<open>While no two pending changes have the same destination, one of them is executed, refused or handed on.\<close>

lemma about_only:
  assumes "distinct (map ch_dest (X @ c # Y))"
  shows "about (ch_dest c) X = []" "about (ch_dest c) Y = []"
proof -
  from assms have "ch_dest c \<notin> ch_dest ` set X" "ch_dest c \<notin> ch_dest ` set Y" by simp_all
  then show "about (ch_dest c) X = []" "about (ch_dest c) Y = []"
    by (metis (mono_tags, lifting) about_def filter_False image_eqI)+
qed

lemma accounts_execute:
  assumes "accounts h executed (X @ c # Y)" and "distinct (map ch_dest (X @ c # Y))"
  shows "accounts h (executed @ [c]) (X @ Y)"
  unfolding accounts_def
proof
  fix d
  obtain pre where pre: "entries d h = pre @ asked (about d (X @ c # Y))" "standing pre = about d executed"
    using assms(1) unfolding accounts_def by blast
  show "\<exists>pre. entries d h = pre @ asked (about d (X @ Y)) \<and> standing pre = about d (executed @ [c])"
  proof (cases "ch_dest c = d")
    case True
    with about_only [OF assms(2)] pre show ?thesis by (intro exI [of _ "pre @ [(c, True)]"]) auto
  qed (use pre in auto)
qed

lemma accounts_refuse:
  assumes "accounts h executed (X @ c # Y)" and "distinct (map ch_dest (X @ c # Y))"
  shows "accounts (refuse [c] h) executed (X @ Y)"
  unfolding accounts_def
proof
  fix d
  note only = about_only [OF assms(2)]
  obtain pre where "entries (ch_dest c) h = pre @ asked (about (ch_dest c) (X @ c # Y))"
      "standing pre = about (ch_dest c) executed"
    using assms(1) unfolding accounts_def by blast
  with only have pre: "entries (ch_dest c) h = pre @ [(c, True)]" "standing pre = about (ch_dest c) executed" by simp_all
  note struck = refuse_entries [OF pre(1)]
  show "\<exists>pre. entries d (refuse [c] h) = pre @ asked (about d (X @ Y)) \<and> standing pre = about d executed"
  proof (cases "ch_dest c = d")
    case True
    with only pre(2) struck(1) show ?thesis by (intro exI [of _ "pre @ [(c, False)]"]) auto
  next
    case False
    obtain pre' where "entries d h = pre' @ asked (about d (X @ c # Y))" "standing pre' = about d executed"
      using assms(1) unfolding accounts_def by blast
    with False struck(2) show ?thesis by auto
  qed
qed

lemma accounts_hand_on:
  assumes "accounts h executed (X @ c # Y)" and "distinct (map ch_dest (X @ c # Y))"
  shows "accounts h executed (X @ Y @ [c])"
proof -
  have "about d (X @ c # Y) = about d (X @ Y @ [c])" for d
    using about_only [OF assms(2)] by (cases "ch_dest c = d") auto
  with assms(1) show ?thesis by (simp add: accounts_def)
qed

lemma change_of_single: "change_of tp h = [] \<or> (\<exists>c. change_of tp h = [c])"
  by (induction tp h rule: change_of.induct) (simp_all split: option.split)

text \<open>The answer to a lookup hands its change on; the answer to a change posts nothing.\<close>

lemma fuzzy_of_object:
  "fuzzy_vlan_of_lookup (lookup_of v af pfx att \<lparr>ipnexthop = [hop], ifname = [Some ifn]\<rparr>) =
    (if isValidVlanName ifn then Ok ifn else Throw (BadValue ''can't find vlan interface id''))"
  "hop_of_lookup (lookup_of v af pfx att \<lparr>ipnexthop = [hop], ifname = [Some ifn]\<rparr>) =
    (case hop of Some n \<Rightarrow> Ok n | None \<Rightarrow> Throw (BadValue ''can't find IA_NA address''))"
  by (simp_all add: fuzzy_vlan_of_lookup_def hop_of_lookup_def lookup_path_of find_or_throw_def split: option.split)

lemma answer_lookup:
  assumes "json_api (nl V)" and "requests_encoded V enc" and "started (m_client s)" and "url_scheme (rq_url rq) = HTTP"
    and "rq_handler rq = AddressLookup a lt h" and "answered V tp rq rep"
  shows "posts tp s (run_request V (handle_response V M cfg) rq rep) (change_of tp (rq_handler rq))"
proof -
  from assms(5,6) obtain st body i v af pfx att where rep: "rep = Reply st body" "body \<noteq> []"
    and parse: "j_parse (nl V) body = Ok (response_object (nl V) \<lparr>resp_id = i, resp_result = j_object (nl V)
         [(''body'', lookup_doc (nl V) v af pfx att (hop_object (nl V) (t_hop tp a, Some (t_interface tp a))))]\<rparr>)"
    unfolding answered_def lookup_body_def by blast
  have run: "run_request V (handle_response V M cfg) rq rep s = run_lookup_handler V (m_client s) h
      (lookup_of v af pfx att \<lparr>ipnexthop = [t_hop tp a], ifname = [Some (t_interface tp a)]\<rparr>) s"
    unfolding rep(1) run_request_document [OF assms(1,4) rep(2) parse] assms(5)
    by (simp add: handleAddressLookup_body [OF assms(1) vlan_of_object(1) [OF assms(1)]])
  show ?thesis
    unfolding posts_def run assms(5)
    by (cases h) (auto simp: apply_vlan_def remove_vlan_def fuzzy_vlan_def fuzzy_hop_def mapping_errors_def post_removal_def
        vlan_of_object [OF assms(1)] fuzzy_of_object post_commands_encoded [OF assms(2,3)] command_request_def
        split: option.split)
qed

lemma answer_change:
  assumes "rank (rq_handler rq) = 0" and "run_request V (handle_response V M cfg) rq rep s = (r, s')"
  shows "posted s' = posted s"
  using followsD [OF low.follows_run_request [OF low_handle_response] assms(2)] assms(1) by (auto simp: low_def)


text \<open>A restore, too, asks only for destinations without blanks.\<close>

definition posts_plain :: "topology \<Rightarrow> ('e, 'z) world_scheme \<Rightarrow> ('e, 'z) world_scheme \<Rightarrow> bool" where
  "posts_plain tp s s' \<longleftrightarrow> (\<exists>new. posted s' = posted s @ new \<and> plain (changes tp new))"

interpretation restoring: impl_local "posts_plain tp"
proof unfold_locales
  show "posts_plain tp s u" if "posts_plain tp s t" "posts_plain tp t u" for s t u :: "('a, 'b) impl_world_scheme"
    using that unfolding posts_plain_def by (metis append.assoc changes_simps(3) plain_simps(3))
qed (simp_all add: posts_plain_def)

lemma plain_post_commands: "plain (change_of tp h) \<Longrightarrow> follows (posts_plain tp) (post_commands V c cmds h)"
  by (cases "createRequestFromCommands V cmds")
    (auto simp: follows_def post_commands_def mbind_def posts_plain_def)

lemma plain_send:
  assumes "toText_ok V"
  shows "follows (posts_plain tp) (\<lambda>s. sendRoutesToSwitch V (m_client s) route (s :: ('e, 'z) impl_world_scheme))"
  unfolding sendRoutesToSwitch_def send_route_def asyncLookupAddressInternal_def
  by (rule follows_at) (intro follows_intros plain_post_commands;
      simp add: host_text_blank_free [OF assms] subnet_text_blank_free [OF assms])

lemma restore_plain:
  fixes V :: "('j, 'e) env"
  assumes "toText_ok V" and "rank h \<ge> 2"
  shows "follows (posts_plain tp) (handle_response V M cfg h a :: ('j, ('e, 'z) impl_world_scheme, unit) prog)"
proof -
  have "follows (posts_plain tp) (\<lambda>s. handleNeighborLookup V (m_client s)
      (restoreFromMapping V M cfg (nxos_ops V M) handlerFailedCallback) a (s :: ('e, 'z) impl_world_scheme))"
    by (rule follows_at) (intro follows_intros restoring.follows_restoreFromMapping; simp add: nxos_ops_def plain_send [OF assms(1)])
  moreover have "follows (posts_plain tp) (handleHeartbeat V (ret ())
      (restoreLeasesFromLeaseDatabase (nxos_ops V M)) a :: ('j, ('e, 'z) impl_world_scheme, unit) prog)"
  proof -
    have "follows (posts_plain tp) (\<lambda>s. asyncGetHWAddrToInterfaceNameMapping V (m_client s) (s :: ('e, 'z) impl_world_scheme))"
      unfolding asyncGetHWAddrToInterfaceNameMapping_def by (rule follows_at) (intro plain_post_commands; simp)
    then show ?thesis
      by (intro follows_intros) (simp_all add: restoreLeasesFromLeaseDatabase_def nxos_ops_def)
  qed
  ultimately show ?thesis using assms(2) by (cases h) (auto simp: follows_def)
qed

text \<open>The invariant of a strict run.\<close>

definition tracks ::
    "('j, 'e) env \<Rightarrow> topology \<Rightarrow> route_table \<Rightarrow> history \<Rightarrow> ('e, 'z) impl_world_scheme \<Rightarrow> route_table \<Rightarrow> bool" where
  "tracks V tp T0 ops s T \<longleftrightarrow> exporter_ok V s \<and> calm tp s \<and> plain (changes tp (posted s)) \<and>
     (\<exists>executed. T = fold apply_change executed T0 \<and> accounts ops executed (changes tp (posted s)))"

context route_switch
begin

text \<open>The answer to a change or a lookup, by the changes pending before and after it.\<close>

lemma tracks_step:
  assumes tracks: "tracks V tp T0 ops s T" and p: "posted s = xs @ rq # ys" and r: "\<nexists>u. r = Stuck u"
    and run: "run_request V (handle_response V M cfg) rq rep (s\<lparr>posted := xs @ ys\<rparr>) = (r, s')"
    and pending: "changes tp (posted s') = changes tp xs @ changes tp ys @ C" "C = [] \<or> C = change_of tp (rq_handler rq)"
    and T': "\<And>executed. T = fold apply_change executed T0 \<Longrightarrow>
      accounts ops executed (changes tp xs @ change_of tp (rq_handler rq) @ changes tp ys) \<Longrightarrow>
      distinct (map ch_dest (changes tp xs @ change_of tp (rq_handler rq) @ changes tp ys)) \<Longrightarrow>
      \<exists>executed'. T' = fold apply_change executed' T0 \<and> accounts ops' executed' (changes tp xs @ changes tp ys @ C)"
  shows "tracks V tp T0 ops' s' T'"
proof -
  have "exporter_ok V s'"
    by (rule reply_step_ok [OF reply_step.intros [OF p run r]]) (use tracks in \<open>simp add: tracks_def\<close>)
  moreover have "calm tp s'" "plain (changes tp (posted s'))"
    using tracks p pending by (auto simp: tracks_def calm_def)
  moreover from tracks p obtain executed where "T = fold apply_change executed T0"
    "accounts ops executed (changes tp xs @ change_of tp (rq_handler rq) @ changes tp ys)"
    by (auto simp: tracks_def)
  ultimately show ?thesis
    using T' tracks p pending(1) by (auto simp: tracks_def calm_def)
qed

lemma tracks_facts:
  assumes "tracks V tp T0 ops s T" and "posted s = xs @ rq # ys"
  shows "good_request V rq" "url_scheme (rq_url rq) = HTTP" "started (m_client s)" "plain (change_of tp (rq_handler rq))"
proof -
  from assms have "service_ok V s" by (auto simp: tracks_def exporter_ok_def split: if_splits)
  with assms(2) show "good_request V rq" "url_scheme (rq_url rq) = HTTP" "started (m_client s)"
    by (auto simp: service_ok_def Let_def request_of_def started_def)
  show "plain (change_of tp (rq_handler rq))" using assms by (simp add: tracks_def)
qed

lemma tracks_refuse:
  assumes "tracks V tp T0 ops s T" and "posted s = xs @ rq # ys" and "\<nexists>u. r = Stuck u"
    and "run_request V (handle_response V M cfg) rq rep (s\<lparr>posted := xs @ ys\<rparr>) = (r, s')" and "posted s' = xs @ ys"
  shows "tracks V tp T0 (refuse (change_of tp (rq_handler rq)) ops) s' T"
proof (rule tracks_step [OF assms(1-4), where C = "[]"])
  fix executed
  let ?C = "change_of tp (rq_handler rq)"
  assume T: "T = fold apply_change executed T0" and acc: "accounts ops executed (changes tp xs @ ?C @ changes tp ys)"
    and distinct: "distinct (map ch_dest (changes tp xs @ ?C @ changes tp ys))"
  show "\<exists>executed'. T = fold apply_change executed' T0 \<and> accounts (refuse ?C ops) executed' (changes tp xs @ changes tp ys @ [])"
    using change_of_single [of tp "rq_handler rq"] T acc distinct accounts_refuse [of ops executed "changes tp xs" _ "changes tp ys"]
    by auto
qed (simp_all add: assms(5))

lemma tracks_change:
  assumes tracks: "tracks V tp T0 ops s T" and p: "posted s = xs @ rq # ys" and rank: "rank (rq_handler rq) = 0"
    and run: "run_request V (handle_response V M cfg) rq rep (s\<lparr>posted := xs @ ys\<rparr>) = (r, s')" and r: "\<nexists>u. r = Stuck u"
  shows "tracks V tp T0 ops s' (run (rq_body rq) T)"
proof (rule tracks_step [OF tracks p r run, where C = "[]"])
  fix executed
  let ?C = "change_of tp (rq_handler rq)"
  assume T: "T = fold apply_change executed T0" and acc: "accounts ops executed (changes tp xs @ ?C @ changes tp ys)"
    and distinct: "distinct (map ch_dest (changes tp xs @ ?C @ changes tp ys))"
  obtain c where c: "?C = [c]" using rank by (cases "rq_handler rq") auto
  have "run (rq_body rq) T = fold apply_change (executed @ [c]) T0"
    unfolding run_change [OF tracks_facts(1) [OF tracks p] rank tracks_facts(4) [OF tracks p]] by (simp add: c T)
  moreover have "accounts ops (executed @ [c]) (changes tp xs @ changes tp ys)"
    by (rule accounts_execute) (use acc distinct c in simp_all)
  ultimately show "\<exists>executed'. run (rq_body rq) T = fold apply_change executed' T0 \<and>
      accounts ops executed' (changes tp xs @ changes tp ys @ [])"
    by (intro exI [of _ "executed @ [c]"]) simp
qed (use answer_change [OF rank run] in simp_all)

lemma tracks_lookup:
  assumes "json_api (nl V)" and tracks: "tracks V tp T0 ops s T" and p: "posted s = xs @ rq # ys"
    and rank: "rank (rq_handler rq) = 1" and "answered V tp rq rep" and r: "\<nexists>u. r = Stuck u"
    and run: "run_request V (handle_response V M cfg) rq rep (s\<lparr>posted := xs @ ys\<rparr>) = (r, s')"
  shows "tracks V tp T0 ops s' (run (rq_body rq) T)"
proof (rule tracks_step [OF tracks p r run, where C = "change_of tp (rq_handler rq)"])
  let ?C = "change_of tp (rq_handler rq)"
  note facts = tracks_facts [OF tracks p]
  obtain a lt h where h: "rq_handler rq = AddressLookup a lt h" using rank by (cases "rq_handler rq") auto
  have "started (m_client (s\<lparr>posted := xs @ ys\<rparr>))" using facts(3) by simp
  from answer_lookup [OF assms(1) encoded this facts(2) h assms(5), of M cfg] run
  show "changes tp (posted s') = changes tp xs @ changes tp ys @ ?C" by (auto simp: posts_def)
  fix executed
  assume T: "T = fold apply_change executed T0" and acc: "accounts ops executed (changes tp xs @ ?C @ changes tp ys)"
    and distinct: "distinct (map ch_dest (changes tp xs @ ?C @ changes tp ys))"
  have "accounts ops executed (changes tp xs @ changes tp ys @ ?C)"
    using change_of_single [of tp "rq_handler rq"] acc distinct accounts_hand_on [of ops executed "changes tp xs" _ "changes tp ys"]
    by auto
  then show "\<exists>executed'. run (rq_body rq) T = fold apply_change executed' T0 \<and>
      accounts ops executed' (changes tp xs @ changes tp ys @ ?C)"
    using T run_lookup_request [OF facts(1) rank] by auto
qed simp

lemma tracks_ask:
  assumes "tracks V tp T0 ops s T" and "exporter_ok V s'" and "calm tp s'"
    and "changes tp (posted s') = changes tp (posted s) @ new" and "plain new"
  shows "tracks V tp T0 (ops @ asked new) s' T"
  using assms accounts_ask [of ops _ "changes tp (posted s)" new] by (auto simp: tracks_def)

lemma tracks_run:
  assumes "net_run True V tp run s0 T0 ops s T" and "json_api (nl V)" and "toText_ok V" and "exporter_ok V s0" and "posted s0 = []"
  shows "tracks V tp T0 ops s T"
  using assms(1)
proof (induction rule: net_run.induct)
  case net_start
  have "accounts [] [] []" by (simp add: accounts_def)
  then show ?case using assms(4,5) by (auto simp: tracks_def calm_def intro!: exI [of _ "[]"])
next
  case (net_hook ops s T k h M code s')
  have "posts tp s (run_hook V M k h) (hook_changes V M tp k h)"
    by (rule posts_run_hook [OF encoded net_hook(2,3)])
  then have new: "changes tp (posted s') = changes tp (posted s) @ hook_changes V M tp k h"
    using net_hook(4) by (auto simp: posts_def)
  have ok: "exporter_ok V s'" using run_hook_ok [OF net_hook(4)] net_hook.IH by (simp add: tracks_def)
  show ?case
    by (rule tracks_ask [OF net_hook.IH ok _ new plain_hook_changes [OF assms(3)]]) (use net_hook(5) in simp)
next
  case (net_change ops s T xs rq ys M cfg rep r s')
  show ?case by (rule tracks_change [OF net_change.IH net_change(2-5)])
next
  case (net_refused ops s T xs rq ys M cfg rep r s')
  show ?case
    by (rule tracks_refuse [OF net_refused.IH net_refused(2,5,4)]) (use answer_change [OF net_refused(3,4)] in simp)
next
  case (net_lookup ops s T xs rq ys M cfg rep r s')
  show ?case by (rule tracks_lookup [OF assms(2) net_lookup.IH net_lookup(2,3,6,5,4)])
next
  case (net_unresolved ops s T xs rq ys M cfg rep r s')
  show ?case by (rule tracks_refuse [OF net_unresolved.IH net_unresolved(2,5,4,6)])
next
  case (net_restore ops s T xs rq ys M cfg rep r s' new)
  have ok: "exporter_ok V s'"
    by (rule reply_step_ok [OF reply_step.intros [OF net_restore(2,4,5)]]) (use net_restore.IH in \<open>simp add: tracks_def\<close>)
  have none: "change_of tp (rq_handler rq) = []" using net_restore(3) by (cases "rq_handler rq") auto
  have "posts_plain tp (s\<lparr>posted := xs @ ys\<rparr>) s'"
    by (rule followsD [OF restoring.follows_run_request net_restore(4)]) (rule restore_plain [OF assms(3) net_restore(3)])
  then have plain: "plain (changes tp new)" using net_restore(6) by (auto simp: posts_plain_def)
  show ?case
    by (rule tracks_ask [OF net_restore.IH ok _ _ plain]) (use net_restore(2,6,7) none in simp_all)
next
  case (net_timer ops s T n s')
  have "exporter_ok V s'"
    by (rule life_step_ok [OF life_running [OF sys_timer [OF net_timer(2-4)]]]) (use net_timer.IH in \<open>simp add: tracks_def\<close>)
  moreover have "changes tp (posted s') = changes tp (posted s)"
    using net_timer(4) by (auto simp: heartbeatLoop_def mbind_def split: if_splits outcome.splits)
  ultimately show ?case using net_timer.IH by (simp add: tracks_def calm_def)
qed

end


text \<open>Steps of a run: the answer to a lookup, and the one to a change.\<close>

lemma net_confirmed:
  assumes "json_api (nl V)" and "net_run strict V tp run s0 T0 ops s T" and "posted s = xs @ rq # ys"
    and "rank (rq_handler rq) = 0" and "url_scheme (rq_url rq) = HTTP" and "lookup_body V tp a body"
  shows "\<exists>l. net_run strict V tp run s0 T0 ops (s\<lparr>posted := xs @ ys, logged := logged s @ [l]\<rparr>) (run (rq_body rq) T) \<and>
    log_id l \<in> {ROUTE_APPLY_SUCCESS, ROUTE_REMOVE_SUCCESS}"
proof -
  from assms(6) obtain i doc where body: "body \<noteq> []"
    "j_parse (nl V) body = Ok (response_object (nl V) \<lparr>resp_id = i, resp_result = j_object (nl V) [(''body'', doc)]\<rparr>)"
    unfolding lookup_body_def by blast
  have "\<exists>l. run_request V (handle_response V (list_db []) \<lparr>currentCfg = None\<rparr>) rq (Reply 200 body) (s\<lparr>posted := xs @ ys\<rparr>) =
      (Ok (), s\<lparr>posted := xs @ ys, logged := logged s @ [l]\<rparr>) \<and> log_id l \<in> {ROUTE_APPLY_SUCCESS, ROUTE_REMOVE_SUCCESS}"
    unfolding run_request_document [OF assms(1,5) body]
    using assms(4) by (cases "rq_handler rq") (auto simp: handleRouteApply_def handleRouteRemove_def check_route_response_def body_args_def)
  then obtain l where run: "run_request V (handle_response V (list_db []) \<lparr>currentCfg = None\<rparr>) rq (Reply 200 body) (s\<lparr>posted := xs @ ys\<rparr>) =
      (Ok (), s\<lparr>posted := xs @ ys, logged := logged s @ [l]\<rparr>)" and l: "log_id l \<in> {ROUTE_APPLY_SUCCESS, ROUTE_REMOVE_SUCCESS}"
    by blast
  from net_change [OF assms(2-4) run] l show ?thesis by blast
qed

context route_switch
begin

lemma net_resolved:
  assumes "json_api (nl V)" and "net_run strict V tp run s0 T0 ops s T" and "started (m_client s)"
    and "url_scheme (cp_url (mc_params (m_client s))) = HTTP" and "lookup_body V tp (host_text V relay) body"
  shows "posted s = xs @ lookup_request V enc (m_client s) relay (ApplyVlan na link ty) # ys \<Longrightarrow>
      net_run strict V tp run s0 T0 ops (s\<lparr>posted := xs @ ys @ [command_request (m_client s)
        (enc [(1, createApplyRouteIpv6Command na (t_interface tp (host_text V relay)))])
        (RouteApply ty na (t_interface tp (host_text V relay)))]\<rparr>) T"
    and "posted s = xs @ lookup_request V enc (m_client s) relay (RemoveVlan na link ty) # ys \<Longrightarrow>
      net_run strict V tp run s0 T0 ops (s\<lparr>posted := xs @ ys @ [command_request (m_client s)
        (enc [(1, createRemoveRouteIpv6Command na (t_interface tp (host_text V relay))),
          (2, createRemoveNDCacheEntryIpv6Command (t_interface tp (host_text V relay)))])
        (RouteRemove ty na (t_interface tp (host_text V relay)))]\<rparr>) T"
proof -
  from assms(5) obtain i v af pfx att where body: "body \<noteq> []"
    and parse: "j_parse (nl V) body = Ok (response_object (nl V) \<lparr>resp_id = i, resp_result = j_object (nl V)
         [(''body'', lookup_doc (nl V) v af pfx att (hop_object (nl V) (t_hop tp (host_text V relay), Some (t_interface tp (host_text V relay)))))]\<rparr>)"
    unfolding lookup_body_def by blast
  let ?s = "s\<lparr>posted := xs @ ys\<rparr>"
  have started: "started (m_client ?s)" using assms(3) by simp
  have ans: "answered V tp (lookup_request V enc (m_client s) relay h) (Reply 200 body)" for h
    using assms(5) by (auto simp: answered_def)
  have step: "run_request V (handle_response V (list_db []) \<lparr>currentCfg = None\<rparr>)
        (lookup_request V enc (m_client s) relay (ApplyVlan na link ty)) (Reply 200 body) ?s =
      (Ok (), ?s\<lparr>posted := posted ?s @ [command_request (m_client ?s)
        (enc [(1, createApplyRouteIpv6Command na (t_interface tp (host_text V relay)))])
        (RouteApply ty na (t_interface tp (host_text V relay)))]\<rparr>)"
    "run_request V (handle_response V (list_db []) \<lparr>currentCfg = None\<rparr>)
        (lookup_request V enc (m_client s) relay (RemoveVlan na link ty)) (Reply 200 body) ?s =
      (Ok (), ?s\<lparr>posted := posted ?s @ [command_request (m_client ?s)
        (enc [(1, createRemoveRouteIpv6Command na (t_interface tp (host_text V relay))),
          (2, createRemoveNDCacheEntryIpv6Command (t_interface tp (host_text V relay)))])
        (RouteRemove ty na (t_interface tp (host_text V relay)))]\<rparr>)"
    using lookup_answer [OF assms(1) encoded started _ body parse, of "lookup_request V enc (m_client s) relay h" for h] assms(4)
    by (simp_all add: lookup_request_def)
  show "net_run strict V tp run s0 T0 ops (s\<lparr>posted := xs @ ys @ [command_request (m_client s)
        (enc [(1, createApplyRouteIpv6Command na (t_interface tp (host_text V relay)))])
        (RouteApply ty na (t_interface tp (host_text V relay)))]\<rparr>) T"
    if p: "posted s = xs @ lookup_request V enc (m_client s) relay (ApplyVlan na link ty) # ys"
    using net_run.net_lookup [OF assms(2) p _ step(1) _ ans] by (simp add: run_lookup)
  show "net_run strict V tp run s0 T0 ops (s\<lparr>posted := xs @ ys @ [command_request (m_client s)
        (enc [(1, createRemoveRouteIpv6Command na (t_interface tp (host_text V relay))),
          (2, createRemoveNDCacheEntryIpv6Command (t_interface tp (host_text V relay)))])
        (RouteRemove ty na (t_interface tp (host_text V relay)))]\<rparr>) T"
    if p: "posted s = xs @ lookup_request V enc (m_client s) relay (RemoveVlan na link ty) # ys"
    using net_run.net_lookup [OF assms(2) p _ step(2) _ ans] by (simp add: run_lookup)
qed

end

section \<open>A concrete switch\<close>

text \<open>
  A switch for the witnesses: it reads the command of the first entry of the document, which is a
  quoted string at a fixed place, and executes it when it is a route command.
\<close>

fun unquote :: "string \<Rightarrow> string" where
  "unquote [] = []"
| "unquote (c # cs) =
     (if c = CHR 0x22 then []
      else if c = CHR 0x5C then (case cs of [] \<Rightarrow> [] | d # ds \<Rightarrow> d # unquote ds)
      else c # unquote cs)"

lemma unquote_quoted:
  "unquote (concat (map (\<lambda>c. if c \<in> {CHR 0x22, CHR 0x5C} then [CHR 0x5C, c] else [c]) s) @ CHR 0x22 # rest) = s"
  by (induction s) auto

definition std_command :: "kelem \<Rightarrow> string" where
  "std_command body = (case body of KText s \<Rightarrow> unquote (drop 57 s) | _ \<Rightarrow> [])"

lemma std_command_enc: "std_command (std_enc ((1, c) # cmds)) = c"
proof -
  obtain rest where "jval_text (JArr (map (command_object (std_json True (\<lambda>s. None))) ((1, c) # cmds))) =
      ''[{'' @ quoted ''method'' @ '':'' @ quoted ''cli'' @ '','' @ quoted ''id'' @ '':'' @ int_to_string 1 @ '','' @ quoted ''jsonrpc'' @ '':'' @
      quoted ''2.0'' @ '','' @ quoted ''params'' @ '':{'' @ quoted ''cmd'' @ '':'' @ quoted c @ rest"
    by (cases "map (command_object (std_json True (\<lambda>s. None))) cmds") (auto simp: command_object_def)
  then show ?thesis
    unfolding std_command_def std_enc_def using unquote_quoted [of c rest]
    by (simp add: quoted_def int_to_string_def to_string.simps [of "Suc 0"] digit_char_def)
qed

definition split_blank :: "string \<Rightarrow> string \<times> string" where
  "split_blank s = (takeWhile (\<lambda>c. c \<noteq> CHR '' '') s, tl (dropWhile (\<lambda>c. c \<noteq> CHR '' '') s))"

definition std_switch :: "kelem \<Rightarrow> route_table \<Rightarrow> route_table" where
  "std_switch body T = (let c = std_command body in
     if take 11 c = ''ipv6 route '' then insert (split_blank (drop 11 c)) T
     else if take 14 c = ''no ipv6 route '' then T - {split_blank (drop 14 c)}
     else T)"

lemma split_blank_eq: "blank_free d \<Longrightarrow> split_blank (d @ '' '' @ n) = (d, n)"
  by (simp add: split_blank_def blank_free_def takeWhile_sep dropWhile_sep)

interpretation std: route_switch "std_env (std_json b p)" std_enc std_switch
proof unfold_locales
  show "requests_encoded (std_env (std_json b p)) std_enc" by (rule std_encoded)
qed (simp_all add: std_switch_def std_command_enc createApplyRouteIpv6Command_def createRemoveRouteIpv6Command_def
    createMappingVlanAddrToVlanIdCommand_def split_blank_eq [unfolded append_Cons append_Nil])


lemma sample_state_ok: "exporter_ok (doc_env doc) sample_state"
proof -
  have "\<exists>p. parseConfig (doc_env doc) (Some p) = Ok (mc_params sample_client)"
    unfolding doc_env_def using sample_parse by blast
  then show ?thesis
    by (simp add: exporter_ok_def service_ok_def Let_def sample_heartbeat_def) (simp add: sample_client_def std_url_def)
qed

definition sample_topology :: topology where
  "sample_topology = \<lparr>t_interface = (\<lambda>_. ''Vlan10''), t_hop = (\<lambda>_. None)\<rparr>"

lemma sample_lookup_body: "lookup_body (doc_env sample_doc) sample_topology a ''{}''"
  using sample_doc_parse unfolding lookup_body_def sample_topology_def by fastforce

interpretation doc: route_switch "doc_env doc" std_enc std_switch for doc
  unfolding doc_env_def by (rule std.route_switch_axioms)

section \<open>Properties\<close>

text \<open>C2: every hook on a started exporter returns 0 and posts the requests for exactly the changes of the
  table the hook stands for: a selected lease is installed, a released or declined one withdrawn, a
  renewed or rebound one moved when the client names another, an expired one withdrawn by what the
  switch or the database knows of it; when the packet, the lease database or another argument throws,
  nothing is requested.\<close>

theorem hook_requests_changes:
  assumes "requests_encoded V enc" and "db_answers M" and "well_formed k h" and "ready s"
  shows "\<exists>s' new. run_hook V M k h s = (Ok 0, s') \<and> ready s' \<and> posted s' = posted s @ new \<and>
    changes tp new = hook_changes V M tp k h"
proof (rule hook_returns [OF assms])
  fix s' assume s': "run_hook V M k h s = (Ok 0, s')" "ready s'"
  with posts_run_hook [OF assms(1,4,3), of tp M] show ?thesis by (auto simp: posts_def)
qed

lemma hook_requests_changes_witness:
  "\<exists>s'. run_hook (doc_env sample_doc) (list_db [(1, sample_lease TYPE_NA 7 False)]) Rebind
      (sample_handle (sample_lease TYPE_PD 9 False)) sample_state = (Ok 0, s') \<and>
    changes sample_topology (posted s') = [Withdraw (subnet_text (doc_env sample_doc) 8 56) (toText (doc_env sample_doc) 1),
      Install (subnet_text (doc_env sample_doc) 9 56) (toText (doc_env sample_doc) 7)]"
proof -
  have db: "db_answers (list_db [(1, sample_lease TYPE_NA 7 False)])" by (simp add: db_answers_def)
  have wf: "well_formed Rebind (sample_handle (sample_lease TYPE_PD 9 False))"
    by (simp add: well_formed_def options_present_def has_ia_na_def)
  from hook_requests_changes [where tp = sample_topology, OF doc.encoded db wf sample_sel(1)] show ?thesis
    by (auto simp: hook_changes_def renew_changes_def has_ia_na_def findIA_NALeaseByDUID_IAID_def)
qed

text \<open>C1: the table of the switch follows the history of the requested changes, for a switch that answers
  each lookup it resolves with one route over one interface, the same for an address throughout.  In
  every run in which a hook or a restore only starts when no pending request is for its destination,
  and no answer leads to undefined behaviour, however the hooks, the timer and the answers interleave
  and whatever fails: executing the changes of the pending requests leads to the table that executing
  the standing changes of the history in their order gives.  A change stands unless its lookup fails
  or the switch refuses it, in which case it is not reported as a success; one the switch executes
  stands even when its confirmation is lost.  When nothing is pending, the table is that one; when
  nothing was refused either, it is the one of all requested changes.\<close>

theorem table_follows_history:
  assumes "route_switch V enc run" and "json_api (nl V)" and "toText_ok V" and "exporter_ok V s0" and "posted s0 = []"
    and "net_run True V tp run s0 T0 ops s T"
  shows "fold apply_change (changes tp (posted s)) T = fold apply_change (standing ops) T0 \<and>
    (posted s = [] \<longrightarrow> T = fold apply_change (standing ops) T0) \<and>
    (posted s = [] \<and> list_all snd ops \<longrightarrow> T = fold apply_change (map fst ops) T0)"
proof -
  have "tracks V tp T0 ops s T"
    by (rule route_switch.tracks_run [OF assms(1,6,2-5)])
  then have "fold apply_change (changes tp (posted s)) T = fold apply_change (standing ops) T0"
    unfolding tracks_def using accounts_table by blast
  moreover have "list_all snd ops \<Longrightarrow> standing ops = map fst ops"
    unfolding standing_def list_all_iff by (metis filter_True)
  ultimately show ?thesis by (intro conjI impI) simp_all
qed

text \<open>A selection is installed; its release is refused by the switch and leaves the route.\<close>

lemma table_follows_history_witness:
  "\<exists>ops s T. net_run True (doc_env sample_doc) sample_topology std_switch sample_state {} ops s T \<and> posted s = [] \<and>
    ops = [(Install (host_text (doc_env sample_doc) 7) ''Vlan10'', True), (Withdraw (host_text (doc_env sample_doc) 7) ''Vlan10'', False)] \<and>
    T = {(host_text (doc_env sample_doc) 7, ''Vlan10'')}"
proof -
  let ?V = "doc_env sample_doc" and ?h = "sample_handle (sample_lease TYPE_NA 7 False)" and ?d = "host_text (doc_env sample_doc) 7"
    and ?M = "list_db [] :: jval lease_mgr" and ?n = "''Vlan10''"
  let ?run = "net_run True ?V sample_topology std_switch sample_state {}"
  let ?lookup = "\<lambda>h. lookup_request ?V std_enc sample_client 1 (h ?d (host_text ?V 1) ''IA_NA'')"
  let ?remove = "command_request sample_client (std_enc [(1, createRemoveRouteIpv6Command ?d ?n), (2, createRemoveNDCacheEntryIpv6Command ?n)])
      (RouteRemove ''IA_NA'' ?d ?n)"
  have wf: "well_formed Select ?h" "well_formed Release ?h" by (simp_all add: well_formed_def)
  have na: "l_type (sample_lease TYPE_NA 7 False) = TYPE_NA" by simp
  have client: "started sample_client" "url_scheme (cp_url (mc_params sample_client)) = HTTP"
    by (simp_all add: started_def sample_client_def std_url_def)
  have ch: "hook_changes ?V ?M sample_topology Select ?h = [Install ?d ?n]" "hook_changes ?V ?M sample_topology Release ?h = [Withdraw ?d ?n]"
    by (simp_all add: hook_changes_def select_changes_def install_route_def withdraw_route_def lease_route_def sample_topology_def)
  obtain m where "run_hook ?V ?M Select ?h sample_state = (Ok 0, sample_state\<lparr>posted := [?lookup ApplyVlan], logged := m\<rparr>)"
    using select_address_posts [OF doc.encoded sample_sel(1-6) na] by auto
  from net_hook [OF net_start sample_sel(1) wf(1) this, of True sample_topology std_switch "{}"]
  have 1: "?run [(Install ?d ?n, True)] (sample_state\<lparr>posted := [?lookup ApplyVlan], logged := m\<rparr>) {}" by (simp add: calm_def ch)
  from doc.net_resolved(1) [OF doc_env_api 1, where xs = "[]" and ys = "[]" and na = ?d and ty = "''IA_NA''" and relay = 1
      and link = "host_text ?V 1" and body = "''{}''"] client sample_lookup_body
  have 2: "?run [(Install ?d ?n, True)] (sample_state\<lparr>logged := m, posted := [command_request sample_client
      (std_enc [(1, createApplyRouteIpv6Command ?d ?n)]) (RouteApply ''IA_NA'' ?d ?n)]\<rparr>) {}"
    by (simp add: sample_topology_def)
  obtain m3 T where 3: "?run [(Install ?d ?n, True)] (sample_state\<lparr>posted := [], logged := m3\<rparr>) T"
    using net_confirmed [OF doc_env_api 2, of "[]" _ "[]", OF _ _ _ sample_lookup_body] client by force
  let ?s3 = "sample_state\<lparr>posted := [], logged := m3\<rparr>"
  have r3: "ready ?s3" by simp
  obtain m4 where "run_hook ?V ?M Release ?h ?s3 = (Ok 0, ?s3\<lparr>posted := [?lookup RemoveVlan], logged := m4\<rparr>)"
    using release_address_posts [OF doc.encoded r3 sample_sel(2,4,6) na, where M = ?M] by auto
  from net_hook [OF 3 r3 wf(2) this]
  have 4: "?run [(Install ?d ?n, True), (Withdraw ?d ?n, True)] (?s3\<lparr>posted := [?lookup RemoveVlan], logged := m4\<rparr>) T"
    by (simp add: calm_def ch)
  from doc.net_resolved(2) [OF doc_env_api 4, where xs = "[]" and ys = "[]" and na = ?d and ty = "''IA_NA''" and relay = 1
      and link = "host_text ?V 1" and body = "''{}''"] client sample_lookup_body
  have 5: "?run [(Install ?d ?n, True), (Withdraw ?d ?n, True)] (sample_state\<lparr>logged := m4, posted := [?remove]\<rparr>) T"
    by (simp add: sample_topology_def)
  obtain l1 l2 where "run_request ?V (handle_response ?V ?M \<lparr>currentCfg = None\<rparr>) ?remove (NoReply HL_Connection) (sample_state\<lparr>logged := m4, posted := []\<rparr>) =
      (Ok (), sample_state\<lparr>posted := [], logged := m4 @ [l1, l2]\<rparr>)" "log_id l1 = UPDATE_INFO_COMMUNICATION_FAILED" "log_id l2 = ROUTE_REMOVE_FAILED"
    using client by (auto simp: run_request_def mseq_def mbind_def handleRouteRemove_def check_route_response_def)
  then have 6: "?run [(Install ?d ?n, True), (Withdraw ?d ?n, False)] (sample_state\<lparr>posted := [], logged := m4 @ [l1, l2]\<rparr>) T"
    using net_refused [OF 5, of "[]" ?remove "[]"] by (simp add: confirms_def)
  from table_follows_history [OF doc.route_switch_axioms doc_env_api _ sample_state_ok sample_sel(9) 6]
  have "T = {(?d, ?n)}" by (simp add: doc_env_def std_env_toText_ok)
  with 6 show ?thesis by fastforce
qed

text \<open>C31: without that condition it does not.  When an address is released before the switch has answered the
  lookup of its selection, the four threads of the client may handle the two lookups in the other
  order: the route is removed before it is installed, and the switch keeps the route of a lease
  that is gone.\<close>

theorem overtaken_release_keeps_route:
  fixes V :: "('j, 'e) env" and h :: "'j callout_handle"
  assumes "route_switch V enc run" and "json_api (nl V)" and "ready s" and "posted s = []"
    and "url_scheme (cp_url (mc_params (m_client s))) = HTTP" and "toText_ok V"
    and "well_formed Select h" and "h_query6 h = Arg (Some q)" and "h_subnet6 h = Arg sub" and "h_lease6 h = Arg (Some l)"
    and "h_fake_allocation h = Arg False" and "getRelay6LinkAddress0 q = Ok relay" and "l_type l = TYPE_NA"
    and "lookup_body V tp (host_text V relay) body"
  defines "d \<equiv> host_text V (l_addr l)" and "n \<equiv> t_interface tp (host_text V relay)"
  shows "\<exists>s'. net_run False V tp run s {} (asked [Install d n, Withdraw d n]) s' {(d, n)} \<and> posted s' = [] \<and>
    fold apply_change [Install d n, Withdraw d n] {} = {}"
proof -
  note encoded = route_switch.encoded [OF assms(1)]
  let ?M = "list_db [] :: 'j lease_mgr" and ?c = "m_client s"
  let ?L1 = "lookup_request V enc ?c relay (ApplyVlan d (host_text V relay) ''IA_NA'')"
    and ?L2 = "lookup_request V enc ?c relay (RemoveVlan d (host_text V relay) ''IA_NA'')"
  have started: "started ?c" using assms(3) by (simp add: ready_def)
  have d: "blank_free d" by (simp add: d_def host_text_blank_free [OF assms(6)])
  have wf: "well_formed Release h" using assms(7) by (simp add: well_formed_def)
  have ch: "hook_changes V ?M tp Select h = [Install d n]" "hook_changes V ?M tp Release h = [Withdraw d n]"
    using assms(8-13) by (simp_all add: hook_changes_def select_changes_def install_route_def withdraw_route_def lease_route_def d_def n_def)
  obtain m1 where "run_hook V ?M Select h s = (Ok 0, s\<lparr>posted := [?L1], logged := logged s @ m1\<rparr>)" (is "_ = (_, ?s1)")
    using select_address_posts [OF encoded assms(3,8-13), of ?M] assms(4) unfolding d_def by auto
  from net_hook [OF net_start assms(3,7) this, of False tp run "{}"] have 1: "net_run False V tp run s {} (asked [Install d n]) ?s1 {}"
    by (simp add: ch)
  have r1: "ready ?s1" using assms(3) by simp
  obtain m2 where "run_hook V ?M Release h ?s1 = (Ok 0, ?s1\<lparr>posted := [?L1, ?L2], logged := logged ?s1 @ m2\<rparr>)" (is "_ = (_, ?s2)")
    using release_address_posts [OF encoded r1 assms(8,10,12,13), of ?M] unfolding d_def by auto
  from net_hook [OF 1 r1 wf this] have 2: "net_run False V tp run s {} (asked [Install d n, Withdraw d n]) ?s2 {}" by (simp add: ch)
  note lookup = route_switch.net_resolved [OF assms(1,2)]
  have 3: "net_run False V tp run s {} (asked [Install d n, Withdraw d n]) (?s2\<lparr>posted := [?L1, command_request ?c
      (enc [(1, createRemoveRouteIpv6Command d n), (2, createRemoveNDCacheEntryIpv6Command n)]) (RouteRemove ''IA_NA'' d n)]\<rparr>) {}"
    using lookup(2) [OF 2 _ _ assms(14), of "[?L1]" d "host_text V relay" "''IA_NA''" "[]"] started assms(5) by (simp add: n_def)
  obtain m3 where 4: "net_run False V tp run s {} (asked [Install d n, Withdraw d n]) (?s2\<lparr>posted := [?L1], logged := m3\<rparr>) {}"
    using net_confirmed [OF assms(2) 3, of "[?L1]" _ "[]", OF _ _ _ assms(14)] assms(5) route_switch.run_remove_clear [OF assms(1) d, of n n "{}"] by auto
  have 5: "net_run False V tp run s {} (asked [Install d n, Withdraw d n]) (s\<lparr>logged := m3, posted := [command_request ?c
      (enc [(1, createApplyRouteIpv6Command d n)]) (RouteApply ''IA_NA'' d n)]\<rparr>) {}"
    using lookup(1) [OF 4 _ _ assms(14), of "[]" d "host_text V relay" "''IA_NA''" "[]"] started assms(5) by (simp add: n_def)
  show ?thesis
    using net_confirmed [OF assms(2) 5, of "[]" _ "[]", OF _ _ _ assms(14)] assms(5) route_switch.run_apply [OF assms(1) d, of n "{}"] by fastforce
qed


lemma overtaken_release_keeps_route_witness:
  "\<exists>s'. net_run False (doc_env sample_doc) sample_topology std_switch sample_state {}
      (asked [Install (host_text (doc_env sample_doc) 7) ''Vlan10'', Withdraw (host_text (doc_env sample_doc) 7) ''Vlan10'']) s'
      {(host_text (doc_env sample_doc) 7, ''Vlan10'')} \<and> posted s' = []"
proof -
  have wf: "well_formed Select (sample_handle (sample_lease TYPE_NA 7 False))" by (simp add: well_formed_def)
  have na: "l_type (sample_lease TYPE_NA 7 False) = TYPE_NA" by simp
  have http: "url_scheme (cp_url (mc_params (m_client sample_state))) = HTTP" by (simp add: sample_client_def std_url_def)
  have plain: "toText_ok (doc_env sample_doc)" by (simp add: doc_env_def std_env_toText_ok)
  from overtaken_release_keeps_route [OF doc.route_switch_axioms doc_env_api sample_sel(1) sample_sel(9) http plain wf
      sample_sel(2-6) na sample_lookup_body]
  show ?thesis by (auto simp: sample_topology_def)
qed

end
