(* ===== verification/Restore_Table.thy ===== *)
theory Restore_Table
  imports Switch_Table
begin

text \<open>
  What a restore asks for: the changes of the route table for a lease, a subnet and a configuration
  (\<open>lease_restore\<close>, \<open>subnet_restore\<close>), each with whether the loops go on, and that
  \<open>restoreFromMapping\<close> requests exactly these.
\<close>

section \<open>The changes of a restore\<close>

text \<open>The changes of the elements up to the first one that ends the loop.\<close>

fun while_continues :: "('a \<Rightarrow> change list \<times> bool) \<Rightarrow> 'a list \<Rightarrow> change list \<times> bool" where
  "while_continues f [] = ([], True)"
| "while_continues f (x # xs) = (case f x of
     (cs, True) \<Rightarrow> (case while_continues f xs of (cs', go) \<Rightarrow> (cs @ cs', go))
   | (cs, False) \<Rightarrow> (cs, False))"

text \<open>
  An address goes to the interface the mapping has for the client's hardware address; a prefix goes
  to the address of its client and ends everything, as does a lease without a hardware address.
\<close>

definition lease_restore :: "('j, 'e) env \<Rightarrow> 'j lease_mgr \<Rightarrow> hwaddr_map \<Rightarrow> lease \<Rightarrow> change list \<times> bool" where
  "lease_restore V M m l = (case l_hwaddr l of
     None \<Rightarrow> ([], False)
   | Some hw \<Rightarrow> (case l_type l of
       TYPE_NA \<Rightarrow> (install_route (map_option (\<lambda>ifn. (host_text V (l_addr l), ifn)) (hw_find (hwaddr_eq V) hw m)), True)
     | TYPE_PD \<Rightarrow> (case findIA_NALeaseByDUID_IAID M (l_duid l) (l_iaid l) of
           Ok (Some na) \<Rightarrow> ([Install (subnet_text V (l_addr l) (l_prefixlen l)) (toText V (l_addr na))], False)
         | _ \<Rightarrow> ([], False))
     | _ \<Rightarrow> ([], True)))"

definition subnet_restore :: "('j, 'e) env \<Rightarrow> 'j lease_mgr \<Rightarrow> hwaddr_map \<Rightarrow> subnet_id \<Rightarrow> change list \<times> bool" where
  "subnet_restore V M m subnet = (case getLeases6_subnet M subnet of
     Ok ls \<Rightarrow> while_continues (lease_restore V M m) ls
   | _ \<Rightarrow> ([], False))"

section \<open>The loops request these changes\<close>

text \<open>
  \<open>asks c m (cs, go)\<close>: with the client \<open>c\<close> the loop body requests the changes \<open>cs\<close>, and goes on
  exactly if \<open>go\<close>.
\<close>

definition asks :: "mgmt_client \<Rightarrow> ('j, ('e, 'z) svc_world_scheme, bool) prog \<Rightarrow> change list \<times> bool \<Rightarrow> bool" where
  "asks c m r \<longleftrightarrow> (\<forall>s. m_client s = c \<longrightarrow> (\<exists>o' s' new. m s = (o', s') \<and> m_client s' = c \<and>
     posted s' = posted s @ new \<and> (\<forall>tp. changes tp new = fst r) \<and> (o' = Ok False \<longleftrightarrow> snd r)))"

lemma asksD:
  assumes "asks c m r" and "m_client s = c"
  obtains o' s' new where "m s = (o', s')" "m_client s' = c" "posted s' = posted s @ new" "\<And>tp. changes tp new = fst r"
    "o' = Ok False \<longleftrightarrow> snd r"
  using assms unfolding asks_def by blast

lemma asks_until_return:
  assumes "\<And>x. asks c (f x) (g x)"
  shows "asks c (until_return f xs) (while_continues g xs)"
proof (induction xs)
  case (Cons x xs)
  show ?case
    unfolding asks_def
  proof (intro allI impI)
    fix s :: "('b, 'c) svc_world_scheme" assume s: "m_client s = c"
    obtain o' t new where f: "f x s = (o', t)" "m_client t = c" "posted t = posted s @ new" "\<And>tp. changes tp new = fst (g x)"
      "o' = Ok False \<longleftrightarrow> snd (g x)" using asksD [OF assms s] by metis
    show "\<exists>o' s' new. until_return f (x # xs) s = (o', s') \<and> m_client s' = c \<and> posted s' = posted s @ new \<and>
        (\<forall>tp. changes tp new = fst (while_continues g (x # xs))) \<and> (o' = Ok False) = snd (while_continues g (x # xs))"
    proof (cases "snd (g x)")
      case True
      obtain o'' u new' where "until_return f xs t = (o'', u)" "m_client u = c" "posted u = posted t @ new'"
        "\<And>tp. changes tp new' = fst (while_continues g xs)" "o'' = Ok False \<longleftrightarrow> snd (while_continues g xs)"
        using asksD [OF Cons f(2)] by metis
      then show ?thesis
        using f True by (cases "g x") (auto simp: mbind_def split: prod.split)
    next
      case False
      then show ?thesis
        using f by (cases "g x"; cases o') (auto simp: mbind_def)
    qed
  qed
qed (simp add: asks_def)

lemma asks_restore_lease:
  assumes "requests_encoded V enc" and "started c"
  shows "asks c (restore_lease V M (nxos_ops V M) m l) (lease_restore V M m l)"
  unfolding asks_def
proof (intro allI impI)
  fix s :: "('b, 'c) svc_world_scheme" assume s: "m_client s = c"
  have prefix: "sendRoutesToSwitch V c \<lparr>re_tid = t, re_iaid = i, re_duid = d, routeInfo = IA_PDInfo na pd len\<rparr> s =
      (Ok (), s\<lparr>posted := posted s @ [command_request c (enc [(1, createApplyRouteIpv6Command (subnet_text V pd len) (toText V na))])
        (RouteApply ''IA_PD'' (subnet_text V pd len) (toText V na))]\<rparr>)" for t i d na pd len
    using assms by (simp add: sendRoutesToSwitch_def send_route_def catching_def post_commands_encoded toDHCPv6IATypeString_def)
  show "\<exists>o' s' new. restore_lease V M (nxos_ops V M) m l s = (o', s') \<and> m_client s' = c \<and> posted s' = posted s @ new \<and>
      (\<forall>tp. changes tp new = fst (lease_restore V M m l)) \<and> (o' = Ok False) = snd (lease_restore V M m l)"
    using assms s
    by (cases "l_hwaddr l"; cases "l_type l"; cases "findIA_NALeaseByDUID_IAID M (l_duid l) (l_iaid l)")
      (auto simp: restore_lease_def lease_restore_def install_route_def mseq_def mbind_def send_fast prefix split: option.split)
qed


lemma asks_restore_subnet:
  assumes "requests_encoded V enc" and "started c"
  shows "asks c (restore_subnet V M (nxos_ops V M) m subnet) (subnet_restore V M m subnet)"
proof (cases "getLeases6_subnet M subnet")
  case (Ok ls)
  have "asks c (until_return (restore_lease V M (nxos_ops V M) m) ls) (while_continues (lease_restore V M m) ls)"
    by (rule asks_until_return) (rule asks_restore_lease [OF assms])
  with Ok show ?thesis by (simp add: restore_subnet_def subnet_restore_def asks_def)
qed (simp_all add: restore_subnet_def subnet_restore_def asks_def)

lemma restore_posts:
  assumes "requests_encoded V enc" and "started (m_client s)" and "currentCfg cfg = Some (Some (Some subnets))"
  shows "posts tp s (restoreFromMapping V M cfg (nxos_ops V M) h (Some m) False) (fst (while_continues (subnet_restore V M m) subnets))"
proof -
  have "asks (m_client s) (until_return (restore_subnet V M (nxos_ops V M) m) subnets) (while_continues (subnet_restore V M m) subnets)"
    by (rule asks_until_return) (rule asks_restore_subnet [OF assms(1,2)])
  from asksD [OF this refl] obtain o' s' new where
    u: "until_return (restore_subnet V M (nxos_ops V M) m) subnets s = (o', s')" and p: "posted s' = posted s @ new"
    and c: "\<And>tp. changes tp new = fst (while_continues (subnet_restore V M m) subnets)" by metis
  have "snd (restoreFromMapping V M cfg (nxos_ops V M) h (Some m) False s) = s'"
    using u by (cases o') (simp_all add: restoreFromMapping_def assms(3) mseq_def mbind_def)
  then show ?thesis using p c unfolding posts_def by auto
qed

text \<open>For addresses with hardware addresses nothing ends the loops.\<close>

lemma while_continues_all:
  "(\<And>x. x \<in> set xs \<Longrightarrow> snd (f x)) \<Longrightarrow> while_continues f xs = (concat (map (\<lambda>x. fst (f x)) xs), True)"
proof (induction xs)
  case (Cons x xs)
  from Cons.prems [of x] obtain cs where "f x = (cs, True)" by (cases "f x") auto
  with Cons show ?case by simp
qed simp

lemma fold_install_route:
  "fold apply_change (concat (map (\<lambda>x. install_route (f x)) xs)) T = T \<union> {r. \<exists>x \<in> set xs. f x = Some r}"
  by (induction xs arbitrary: T) (auto simp: install_route_def split: option.split)

lemma concat_map_concat: "concat (map (\<lambda>x. concat (map f (g x))) xs) = concat (map f (concat (map g xs)))"
  by (induction xs) simp_all

lemma lease_restore_address:
  "l_type l = TYPE_NA \<Longrightarrow> l_hwaddr l = Some hw \<Longrightarrow>
    lease_restore V M m l = (install_route (map_option (\<lambda>ifn. (host_text V (l_addr l), ifn)) (hw_find (hwaddr_eq V) hw m)), True)"
  by (simp add: lease_restore_def)

section \<open>Properties\<close>

text \<open>C11: a restore requests exactly the routes its specification names: going through the subnets and their
  leases in order, the route of an address whose hardware address is in the mapping, nothing for
  another address, and at the first prefix its route and then no more; it ends without a further
  request at the first lease without a hardware address, or where the lease database throws.\<close>

theorem restore_requests_changes:
  assumes "requests_encoded V enc" and "started (m_client s)" and "currentCfg cfg = Some (Some (Some subnets))"
  shows "\<exists>r s' new. restoreFromMapping V M cfg (nxos_ops V M) h (Some m) False s = (r, s') \<and> posted s' = posted s @ new \<and>
    changes tp new = fst (while_continues (subnet_restore V M m) subnets)"
  using restore_posts [OF assms, where tp = tp and M = M and h = h and m = m] unfolding posts_def
  by (metis prod.collapse)

lemma restore_requests_changes_witness:
  "\<exists>r s'. restoreFromMapping (doc_env sample_doc) (list_db [(1, sample_lease TYPE_PD 9 False), (1, sample_lease TYPE_NA 7 False),
        (2, sample_lease TYPE_NA 8 False)]) \<lparr>currentCfg = Some (Some (Some [1, 2]))\<rparr>
      (nxos_ops (doc_env sample_doc) (list_db [(1, sample_lease TYPE_PD 9 False), (1, sample_lease TYPE_NA 7 False),
        (2, sample_lease TYPE_NA 8 False)])) handlerFailedCallback (Some []) False sample_state = (r, s') \<and>
    changes sample_topology (posted s') =
      [Install (subnet_text (doc_env sample_doc) 9 56) (toText (doc_env sample_doc) 7)]"
proof -
  let ?M = "list_db [(1, sample_lease TYPE_PD 9 False), (1, sample_lease TYPE_NA 7 False), (2, sample_lease TYPE_NA 8 False)]"
  have started: "started (m_client sample_state)" by (simp add: started_def sample_client_def)
  have cfg: "currentCfg \<lparr>currentCfg = Some (Some (Some [1, 2]))\<rparr> = Some (Some (Some [1, 2]))" by simp
  from restore_requests_changes [where M = ?M and h = handlerFailedCallback and m = "[]" and tp = sample_topology,
      OF doc.encoded started cfg]
  show ?thesis
    by (simp add: subnet_restore_def lease_restore_def findIA_NALeaseByDUID_IAID_def sample_lease_def)
qed

text \<open>C10: when all leases are addresses with a hardware address, a restore rebuilds the table: the requests it
  posts add exactly the routes of the leases whose hardware address the mapping knows, to the
  interfaces the mapping gives, in every subnet.\<close>

theorem restore_rebuilds_table:
  assumes "requests_encoded V enc" and "started (m_client s)" and "currentCfg cfg = Some (Some (Some subnets))"
    and "\<And>i. i \<in> set subnets \<Longrightarrow> getLeases6_subnet M i = Ok (leases i)"
    and "\<And>i l. i \<in> set subnets \<Longrightarrow> l \<in> set (leases i) \<Longrightarrow> l_type l = TYPE_NA \<and> l_hwaddr l = Some (hw l)"
  shows "\<exists>r s' new. restoreFromMapping V M cfg (nxos_ops V M) h (Some m) False s = (r, s') \<and> posted s' = posted s @ new \<and>
    fold apply_change (changes tp new) T = T \<union> {(host_text V (l_addr l), ifn) | l ifn.
      \<exists>i \<in> set subnets. l \<in> set (leases i) \<and> hw_find (hwaddr_eq V) (hw l) m = Some ifn}"
proof -
  let ?route = "\<lambda>l. map_option (\<lambda>ifn. (host_text V (l_addr l), ifn)) (hw_find (hwaddr_eq V) (hw l) m)"
  have subnet: "subnet_restore V M m i = (concat (map (\<lambda>l. install_route (?route l)) (leases i)), True)" if "i \<in> set subnets" for i
  proof -
    have each: "lease_restore V M m l = (install_route (?route l), True)" if "l \<in> set (leases i)" for l
      using assms(5) [OF \<open>i \<in> set subnets\<close> that] by (simp add: lease_restore_address)
    then have "map (\<lambda>l. fst (lease_restore V M m l)) (leases i) = map (\<lambda>l. install_route (?route l)) (leases i)" by simp
    with each while_continues_all [of "leases i" "lease_restore V M m"] show ?thesis
      by (simp add: subnet_restore_def assms(4) [OF that])
  qed
  then have "map (\<lambda>i. fst (subnet_restore V M m i)) subnets = map (\<lambda>i. concat (map (\<lambda>l. install_route (?route l)) (leases i))) subnets"
    by simp
  with subnet while_continues_all [of subnets "subnet_restore V M m"]
  have cs: "fst (while_continues (subnet_restore V M m) subnets) =
      concat (map (\<lambda>l. install_route (?route l)) (concat (map leases subnets)))"
    by (simp add: concat_map_concat)
  have table: "fold apply_change (fst (while_continues (subnet_restore V M m) subnets)) T =
      T \<union> {(host_text V (l_addr l), ifn) | l ifn. \<exists>i \<in> set subnets. l \<in> set (leases i) \<and> hw_find (hwaddr_eq V) (hw l) m = Some ifn}"
    unfolding cs fold_install_route by auto
  from restore_posts [OF assms(1-3), where tp = tp and M = M and h = h and m = m] obtain new where
    "posted (snd (restoreFromMapping V M cfg (nxos_ops V M) h (Some m) False s)) = posted s @ new"
    "changes tp new = fst (while_continues (subnet_restore V M m) subnets)"
    unfolding posts_def by blast
  with table show ?thesis by (metis prod.collapse)
qed

lemma doc_env_hwaddr_eq: "hwaddr_eq (doc_env doc) a a"
  by (simp add: doc_env_def)

lemma restore_rebuilds_table_witness:
  "\<exists>r s' new. restoreFromMapping (doc_env sample_doc) (list_db [(1, sample_lease TYPE_NA 7 False)])
      \<lparr>currentCfg = Some (Some (Some [1]))\<rparr> (nxos_ops (doc_env sample_doc) (list_db [(1, sample_lease TYPE_NA 7 False)]))
      handlerFailedCallback (Some [(\<lparr>hw_bytes = [1, 2, 3, 4, 5, 6], hw_type = 1, hw_source = 0\<rparr>, ''Vlan10'')]) False sample_state =
      (r, s') \<and> posted s' = new \<and>
    fold apply_change (changes sample_topology new) {} = {(host_text (doc_env sample_doc) 7, ''Vlan10'')}"
proof -
  let ?M = "list_db [(1, sample_lease TYPE_NA 7 False)]" and ?hw = "\<lparr>hw_bytes = [1, 2, 3, 4, 5, 6], hw_type = 1, hw_source = 0\<rparr>"
  have started: "started (m_client sample_state)" by (simp add: started_def sample_client_def)
  have cfg: "currentCfg \<lparr>currentCfg = Some (Some (Some [1]))\<rparr> = Some (Some (Some [1]))" by simp
  from restore_rebuilds_table [where M = ?M and h = handlerFailedCallback and m = "[(?hw, ''Vlan10'')]" and tp = sample_topology
      and leases = "\<lambda>_. [sample_lease TYPE_NA 7 False]" and hw = "\<lambda>_. ?hw" and T = "{}" and V = "doc_env sample_doc",
      OF doc.encoded started cfg]
    doc_env_hwaddr_eq [of sample_doc ?hw]
  show ?thesis by simp
qed

end
