(* ===== verification/Reconnect.thy ===== *)
theory Reconnect
  imports Life_Cycle
begin

text \<open>
  How the exporter keeps track of the connection to the switch: the heartbeat of
  \<^verbatim>\<open>src/nxos_heartbeat_service.cpp\<close>, the restore it starts in \<^verbatim>\<open>src/dhcp6_exporter_service.cpp\<close>,
  and the callback that takes the connection as lost again, run together with everything else the
  exporter does.

  \<open>hb_spec\<close> is the abstract contract, an automaton with the states \<open>Lost\<close> and \<open>Up\<close>.  The steps of
  \<open>connection_step\<close> are the hooks, the timer and the answers of the running exporter, each run by
  its definition; the output of a step is the number of requests for the neighbor table it posts,
  which is what a restore does first.  The interpretation of the locale \<open>simulation\<close> shows that the
  exporter implements the contract.
\<close>

section \<open>What an answer tells\<close>

text \<open>What \<open>run_request\<close> hands to the response handler, or how it ends before that.\<close>

definition delivered :: "('j, 'e) env \<Rightarrow> reply \<Rightarrow> ('j, 'j response_args) outcome" where
  "delivered V rep = (case rep of
     NoReply e \<Rightarrow> Ok \<lparr>ra_response = Some [], ra_error = HttplibErrorToNXOSHttpClientMapper e, ra_status = 200, ra_exn = None\<rparr>
   | Reply status body \<Rightarrow> (case validateResponse (nl V) body of
       Ok rs \<Rightarrow> Ok \<lparr>ra_response = Some rs, ra_error = SUCCESS, ra_status = status, ra_exn = None\<rparr>
     | Throw (JsonRpcExn x) \<Rightarrow> Ok \<lparr>ra_response = Some [], ra_error = SUCCESS, ra_status = status, ra_exn = Some x\<rparr>
     | Throw e \<Rightarrow> Throw e
     | Stuck u \<Rightarrow> Stuck u))"

text \<open>The answer to the request for the neighbor table gives no table: the HTTP library reports an error,
  the status is not 200, the answer is a JSON-RPC error, or it is not a table.\<close>

definition mapping_failed :: "('j, 'e) env \<Rightarrow> 'j response_args \<Rightarrow> bool" where
  "mapping_failed V a \<longleftrightarrow> ra_error a \<noteq> SUCCESS \<or> ra_status a \<noteq> 200 \<or> ra_exn a \<noteq> None \<or>
     (\<exists>r rs e. ra_response a = Some (r # rs) \<and>
       rbind (j_sub (nl V) (resp_result r) ''body'') (NeighborLookupResponse_from_json (nl V)) = Throw e)"

datatype ('j, 'e) event =
    Answer "'j lease_mgr" cfg_mgr "'e request" reply \<comment> \<open>with the database and configuration the handler finds\<close>
  | Hook "'j lease_mgr" hook "'j callout_handle"
  | Timer

datatype sighting =
    Alive uint64 \<comment> \<open>an answered heartbeat, with the uptime in seconds\<close>
  | Failed \<comment> \<open>a failed heartbeat, or a failed request for the neighbor table\<close>
  | Nothing

fun seen :: "('j, 'e) env \<Rightarrow> ('j, 'e) event \<Rightarrow> sighting" where
  "seen V (Answer M cfg rq rep) = (case delivered V rep of
     Ok a \<Rightarrow> (case rq_handler rq of
         HeartbeatResponse \<Rightarrow> (case observed V a of Some u \<Rightarrow> Alive u | None \<Rightarrow> Failed)
       | NeighborMapping \<Rightarrow> if mapping_failed V a then Failed else Nothing
       | _ \<Rightarrow> Nothing)
   | _ \<Rightarrow> Nothing)"
| "seen V (Hook M k h) = Nothing"
| "seen V Timer = Nothing"

section \<open>The contract\<close>

datatype hb_view = Lost | Up uint64

definition view_of :: "heartbeat \<Rightarrow> hb_view" where
  "view_of h = (if m_prevLostConnection h then Lost else Up (m_prevUptimeSecs h))"

text \<open>
  One event in the abstract: how often the neighbor table is requested, and the next state.  After
  a restore the stored uptime is zero, not the uptime just seen.
\<close>

fun hb_spec :: "sighting \<Rightarrow> hb_view \<Rightarrow> nat \<times> hb_view" where
  "hb_spec (Alive u) Lost = (1, Up 0)"
| "hb_spec (Alive u) (Up n) = (if u < n then (1, Up 0) else (0, Up u))"
| "hb_spec Failed v = (0, Lost)"
| "hb_spec Nothing v = (0, v)"

section \<open>The steps of the exporter\<close>

text \<open>The requests for the neighbor table that came to the pending ones.\<close>

definition mapping_requests :: "'e request list \<Rightarrow> ('e, 'z) world_scheme \<Rightarrow> nat" where
  "mapping_requests old s = length (filter (\<lambda>rq. rq_handler rq = NeighborMapping) (drop (length old) (posted s)))"

inductive connection_step ::
    "('j, 'e) env \<Rightarrow> ('j, 'e) event \<Rightarrow> ('e, 'z) impl_world_scheme \<Rightarrow> nat \<Rightarrow> ('e, 'z) impl_world_scheme \<Rightarrow> bool" for V where
  step_answer: "posted s = xs @ rq # ys \<Longrightarrow>
    run_request V (handle_response V M cfg) rq rep (s\<lparr>posted := xs @ ys\<rparr>) = (r, s') \<Longrightarrow>
    \<nexists>u. r = Stuck u \<Longrightarrow> connection_step V (Answer M cfg rq rep) s (mapping_requests (xs @ ys) s') s'"
| step_hook: "run_hook V M k h s = (Ok code, s') \<Longrightarrow> connection_step V (Hook M k h) s (mapping_requests (posted s) s') s'"
| step_timer: "hb_timer (hb s) = Some (Running n) \<Longrightarrow> heartbeatLoop V s = (Ok (), s') \<Longrightarrow>
    connection_step V Timer s (mapping_requests (posted s) s') s'"

inductive_cases connection_stepE: "connection_step V e s n s'"

lemma connection_step_sys: "connection_step V e s n s' \<Longrightarrow> m_service s \<Longrightarrow> sys_step V s s'"
  by (cases rule: connection_step.cases) (auto intro: sys_step.intros reply_step.intros)

text \<open>A started exporter whose timer runs.\<close>

definition connected :: "('j, 'e) env \<Rightarrow> ('e, 'z) impl_world_scheme \<Rightarrow> bool" where
  "connected V s \<longleftrightarrow> m_service s \<and> service_ok V s \<and> started (m_client s) \<and> hb_running V (hb s) \<and>
     hb_timer (hb s) = Some (Running (interval_ms (hb s)))"

text \<open>Answers that arrive and stay inside defined behaviour; the timer may always fire.\<close>

fun answerable :: "('j, 'e) env \<Rightarrow> ('e, 'z) impl_world_scheme \<Rightarrow> ('j, 'e) event \<Rightarrow> bool" where
  "answerable V s (Answer M cfg rq rep) \<longleftrightarrow> rq \<in> set (posted s) \<and> rq_handler rq = HeartbeatResponse \<and>
     (\<forall>u. delivered V rep \<noteq> Stuck u) \<and> (\<forall>a. delivered V rep = Ok a \<longrightarrow> answer_defined V a)"
| "answerable V s (Hook M k h) \<longleftrightarrow> False"
| "answerable V s Timer \<longleftrightarrow> True"


section \<open>What leaves the heartbeat alone\<close>

text \<open>The heartbeat stays as it is, and the neighbor table is not requested.\<close>

definition calm_step :: "('e, 'z) hb_world_scheme \<Rightarrow> ('e, 'z) hb_world_scheme \<Rightarrow> bool" where
  "calm_step s s' \<longleftrightarrow> hb s' = hb s \<and>
     (\<exists>new. posted s' = posted s @ new \<and> (\<forall>rq \<in> set new. rq_handler rq \<noteq> NeighborMapping))"

lemma calm_step_requests: "calm_step s s' \<Longrightarrow> mapping_requests (posted s) s' = 0"
  by (auto simp: calm_step_def mapping_requests_def filter_empty_conv)

interpretation calm: impl_frame calm_step
proof unfold_locales
  show "calm_step s u" if "calm_step s t" "calm_step t u" for s t u :: "('a, 'b) impl_world_scheme"
    using that unfolding calm_step_def by (metis UnE append.assoc set_append)
qed (auto simp: calm_step_def)

lemma calm_post_commands: "h \<noteq> NeighborMapping \<Longrightarrow> follows calm_step (post_commands V c cmds h)"
  by (cases "createRequestFromCommands V cmds")
    (auto simp: follows_def post_commands_def mbind_def calm_step_def)

lemma calm_send: "follows calm_step (\<lambda>s. sendRoutesToSwitch V (m_client s) route (s :: ('e, 'z) impl_world_scheme))"
  unfolding sendRoutesToSwitch_def send_route_def asyncLookupAddressInternal_def
  by (rule follows_at) (intro follows_intros calm_post_commands; simp)

lemma calm_remove: "follows calm_step (\<lambda>s. removeRoutesFromSwitch V M (m_client s) route (s :: ('e, 'z) impl_world_scheme))"
  unfolding removeRoutesFromSwitch_def remove_prefix_fuzzy_def asyncLookupAddressInternal_def
  by (rule follows_at) (intro follows_intros calm_post_commands; simp)

lemma calm_export_route:
  "follows calm_step (export_route (nxos_ops V M) r :: ('j, ('e, 'z) impl_world_scheme, unit) prog)"
  unfolding exportRoute_def nxos_ops_def management_client_ops.select_convs by (intro follows_intros calm_send)

lemma calm_remove_route:
  "follows calm_step (remove_route (nxos_ops V M) r :: ('j, ('e, 'z) impl_world_scheme, unit) prog)"
proof -
  have "follows calm_step (mseq (log_msg REMOVE_INFO_ON_DEVICE l)
      (\<lambda>s. removeRoutesFromSwitch V M (m_client s) r s) :: ('j, ('e, 'z) impl_world_scheme, unit) prog)" for l
    by (intro follows_intros calm_remove)
  then show ?thesis by (simp add: follows_def service_call_def removeRoute_def nxos_ops_def calm.R_refl)
qed

interpretation calm: hook_effects calm_step V for V
  by unfold_locales (rule calm_export_route calm_remove_route)+

lemma calm_lookup_handler:
  "follows calm_step (run_lookup_handler V c h lookup :: ('j, ('e, 'z) impl_world_scheme, unit) prog)"
  by (cases h) (auto simp: apply_vlan_def remove_vlan_def fuzzy_vlan_def fuzzy_hop_def post_removal_def
      intro!: follows_intros calm_post_commands)

text \<open>The answers to lookups and changes, and a neighbor table that could be read.\<close>

lemma calm_handle_response:
  fixes V :: "('j, 'e) env"
  assumes "h \<noteq> HeartbeatResponse" and "h \<noteq> NeighborMapping"
  shows "follows calm_step (handle_response V M cfg h a :: ('j, ('e, 'z) impl_world_scheme, unit) prog)"
proof -
  have "follows calm_step (\<lambda>s. handleRouteApply V (m_client s) ty src dst a (s :: ('e, 'z) impl_world_scheme))" for ty src dst
    unfolding handleRouteApply_def by (rule follows_at) (intro follows_intros)
  moreover have "follows calm_step (\<lambda>s. handleRouteRemove V (m_client s) ty src dst a (s :: ('e, 'z) impl_world_scheme))" for ty src dst
    unfolding handleRouteRemove_def by (rule follows_at) (intro follows_intros)
  moreover have "follows calm_step (\<lambda>s. handleAddressLookup V (m_client s) lh a (s :: ('e, 'z) impl_world_scheme))" for lh
    unfolding handleAddressLookup_def by (rule follows_at) (intro follows_intros calm_lookup_handler)
  ultimately show ?thesis using assms by (cases h) (simp_all add: follows_def)
qed

lemma calm_restore:
  "follows calm_step (restoreFromMapping V M cfg (nxos_ops V M) handler m False ::
    ('j, ('e, 'z) impl_world_scheme, unit) prog)"
proof -
  have "restoreFromMapping V M cfg (nxos_ops V M) handler m False =
      (restoreFromMapping V M cfg (nxos_ops V M) (ret ()) m False :: ('j, ('e, 'z) impl_world_scheme, unit) prog)"
    by (simp add: restoreFromMapping_def)
  then show ?thesis
    by (simp add: calm.follows_restoreFromMapping follows_intros nxos_ops_def calm_send calm.follows_ret)
qed

lemma mapping_read:
  fixes V :: "('j, 'e) env" and s :: "('e, 'z) impl_world_scheme"
  assumes "handle_response V M cfg NeighborMapping a s = (r, s')" and "\<nexists>u. r = Stuck u" and "\<not> mapping_failed V a"
  shows "calm_step s s'"
proof -
  let ?read = "\<lambda>q. rbind (j_sub (nl V) (resp_result q) ''body'') (NeighborLookupResponse_from_json (nl V))"
  have ok: "ra_error a = SUCCESS" "ra_status a = 200" "ra_exn a = None" using assms(3) by (auto simp: mapping_failed_def)
  obtain q qs nb where q: "ra_response a = Some (q # qs)" "?read q = Ok nb"
    using assms ok
    by (auto simp: mapping_failed_def handleNeighborLookup_def read_neighbors_def mbind_def
        split: option.splits list.splits outcome.splits)
  then have "handle_response V M cfg NeighborMapping a s = mbind (lift (collect_mapping V [] (adj_objects nb)))
      (\<lambda>m. restoreFromMapping V M cfg (nxos_ops V M) handlerFailedCallback (Some m) False) s"
    using ok by (simp add: handleNeighborLookup_def read_neighbors_def mbind_def)
  moreover have "follows calm_step (mbind (lift (collect_mapping V [] (adj_objects nb)))
      (\<lambda>m. restoreFromMapping V M cfg (nxos_ops V M) handlerFailedCallback (Some m) False) ::
      ('j, ('e, 'z) impl_world_scheme, unit) prog)"
    by (intro follows_intros calm_restore)
  ultimately show ?thesis using followsD assms(1) by metis
qed

lemma mapping_failure:
  assumes "mapping_failed V a"
  shows "\<exists>ms. handle_response V M cfg NeighborMapping a s =
    (Ok (), s\<lparr>logged := logged s @ ms, hb := (hb s)\<lparr>m_prevLostConnection := True\<rparr>\<rparr>)"
proof -
  have lost: "restoreFromMapping V M cfg C handlerFailedCallback m True t =
      (Ok (), t\<lparr>hb := (hb t)\<lparr>m_prevLostConnection := True\<rparr>\<rparr>)" for C m t
    by (simp add: restoreFromMapping_def handlerFailedCallback_def)
  show ?thesis
  proof (cases "ra_error a = SUCCESS \<and> ra_status a = 200")
    case True
    then have "\<exists>l. read_neighbors V (m_client s) a s = (Ok (\<lparr>nb_table_vrf = []\<rparr>, True), s\<lparr>logged := logged s @ [l]\<rparr>)"
      using assms by (cases "ra_exn a") (auto simp: mapping_failed_def read_neighbors_def mseq_def mbind_def)
    then obtain l where "read_neighbors V (m_client s) a s = (Ok (\<lparr>nb_table_vrf = []\<rparr>, True), s\<lparr>logged := logged s @ [l]\<rparr>)" ..
    then show ?thesis
      using True by (auto simp: handleNeighborLookup_def mbind_def adj_objects_def lost intro: exI [of _ "[l]"])
  next
    case False
    then show ?thesis
      by (auto simp: handleNeighborLookup_def lost intro: exI [of _ "[]"])
  qed
qed


section \<open>One step against the contract\<close>

lemma run_request_delivered:
  assumes "url_scheme (rq_url rq) = HTTP"
  shows "\<exists>ms. run_request V handle rq rep s = (case delivered V rep of
      Ok a \<Rightarrow> handle (rq_handler rq) a (s\<lparr>logged := logged s @ ms\<rparr>)
    | Throw e \<Rightarrow> (Throw e, s)
    | Stuck u \<Rightarrow> (Stuck u, s))"
proof (cases rep)
  case (NoReply e)
  then show ?thesis
    using assms by (auto simp: run_request_def delivered_def mseq_def mbind_def)
next
  case (Reply status body)
  show ?thesis
  proof (cases "validateResponse (nl V) body")
    case (Ok rs)
    then show ?thesis
      using assms Reply by (auto simp: run_request_def delivered_def validated_def mbind_def
          HttplibStatusCodeToNXOSHttpClientMapper_def intro: exI [of _ "[]"])
  next
    case (Throw e)
    then show ?thesis
      using assms Reply by (cases e) (auto simp: run_request_def delivered_def validated_def mbind_def mseq_def
          HttplibStatusCodeToNXOSHttpClientMapper_def)
  next
    case (Stuck u)
    then show ?thesis
      using assms Reply by (simp add: run_request_def delivered_def validated_def mbind_def)
  qed
qed

text \<open>The request a restore posts.\<close>

definition neighbor_request :: "((int32 \<times> string) list \<Rightarrow> 'e) \<Rightarrow> mgmt_client \<Rightarrow> 'e request" where
  "neighbor_request enc c = command_request c (enc [(1, createShowIPv6NeighbourCommand)]) NeighborMapping"

lemma restore_requests:
  "requests_encoded V enc \<Longrightarrow> started (m_client s) \<Longrightarrow>
    restoreLeasesFromLeaseDatabase (nxos_ops V M) s = (Ok (), s\<lparr>posted := posted s @ [neighbor_request enc (m_client s)]\<rparr>)"
  by (simp add: restoreLeasesFromLeaseDatabase_def asyncGetHWAddrToInterfaceNameMapping_def post_commands_encoded
      neighbor_request_def)

lemma interval_ms_update [simp]:
  "interval_ms (h\<lparr>hb_timer := t\<rparr>) = interval_ms h" "interval_ms (h\<lparr>m_prevUptimeSecs := u\<rparr>) = interval_ms h"
  "interval_ms (h\<lparr>m_prevLostConnection := b\<rparr>) = interval_ms h"
  by (simp_all add: interval_ms_def)

lemma hb_running_update [simp]:
  "hb_running V (h\<lparr>m_prevLostConnection := b\<rparr>) = hb_running V h" "hb_running V (h\<lparr>m_prevUptimeSecs := u\<rparr>) = hb_running V h"
  "hb_running V h \<Longrightarrow> hb_running V (h\<lparr>hb_timer := Some t\<rparr>)"
  by (simp_all add: hb_running_def)

text \<open>A heartbeat's answer, through the handler.\<close>

lemma heartbeat_answer:
  fixes V :: "('j, 'e) env"
  assumes "requests_encoded V enc" and "started (m_client s)" and "hb_running V (hb s)"
    and "hb_timer (hb s) = Some (Running (interval_ms (hb s)))" and "answer_defined V a"
  obtains (silent) ms where "observed V a = None"
    "handle_response V M cfg HeartbeatResponse a s = (Ok (), s\<lparr>logged := logged s @ ms, hb := (hb s)\<lparr>m_prevLostConnection := True\<rparr>\<rparr>)"
  | (alive) u where "observed V a = Some u" "\<not> restored_needed (hb s) u"
    "handle_response V M cfg HeartbeatResponse a s = (Ok (), s\<lparr>hb := (hb s)\<lparr>m_prevUptimeSecs := u, m_prevLostConnection := False\<rparr>\<rparr>)"
  | (restores) u ms where "observed V a = Some u" "restored_needed (hb s) u"
    "handle_response V M cfg HeartbeatResponse a s = (Ok (), s\<lparr>logged := logged s @ ms,
      posted := posted s @ [neighbor_request enc (m_client s)], hb := (hb s)\<lparr>m_prevUptimeSecs := 0, m_prevLostConnection := False\<rparr>\<rparr>)"
proof -
  obtain uptime where check: "checkForFailedConnectionOrRPCResponse V a = Ok uptime"
    using assms(5) by (auto simp: answer_defined_def)
  show ?thesis
  proof (cases uptime)
    case None
    with check assms(3) show ?thesis
      by (intro silent) (auto simp: observed_def hb_running_def handleHeartbeat_failed)
  next
    case (Some v)
    let ?u = "getUptimeSecondsFromResponse v"
    have u: "observed V a = Some ?u" using check Some by (simp add: observed_def)
    show ?thesis
    proof (cases "restored_needed (hb s) ?u")
      case True
      let ?t = "s\<lparr>hb := (hb s)\<lparr>hb_timer := Some Cancelled\<rparr>,
        logged := logged s @ [Log HEARTBEAT_RESTORED_CONNECTION [hb_connectionName (hb s)]]\<rparr>"
      have t: "restoreLeasesFromLeaseDatabase (nxos_ops V M) ?t =
          (Ok (), ?t\<lparr>posted := posted s @ [neighbor_request enc (m_client s)]\<rparr>)"
        using restore_requests [OF assms(1), of ?t M] assms(2) by simp
      have "hb (?t\<lparr>posted := posted s @ [neighbor_request enc (m_client s)]\<rparr>) = (hb s)\<lparr>hb_timer := Some Cancelled\<rparr>" by simp
      with handleHeartbeat_restores [of V a v s "restoreLeasesFromLeaseDatabase (nxos_ops V M)", OF _ True assms(3) t] check Some
      have "handle_response V M cfg HeartbeatResponse a s = (Ok (), s\<lparr>
          logged := logged s @ [Log HEARTBEAT_RESTORED_CONNECTION [hb_connectionName (hb s)]],
          posted := posted s @ [neighbor_request enc (m_client s)],
          hb := (hb s)\<lparr>hb_timer := Some (Running (interval_ms (hb s))), m_prevUptimeSecs := 0, m_prevLostConnection := False\<rparr>\<rparr>)"
        by simp
      moreover have "(hb s)\<lparr>hb_timer := Some (Running (interval_ms (hb s)))\<rparr> = hb s"
        using assms(4) by (metis heartbeat.surjective heartbeat.update_convs(3) heartbeat.select_convs(3))
      ultimately show ?thesis using restores [OF u True] by simp
    next
      case False
      with check Some alive [OF u False] show ?thesis by (simp add: handleHeartbeat_alive)
    qed
  qed
qed


lemma heartbeat_undefined:
  assumes "\<not> answer_defined V a"
  shows "\<exists>u. handle_response V M cfg HeartbeatResponse a s = (Stuck u, s)"
  using assms
  by (cases "checkForFailedConnectionOrRPCResponse V a") (simp_all add: answer_defined_def check_not_Throw handleHeartbeat_def)

text \<open>Of the heartbeat a running exporter changes only these two fields.\<close>

lemma connected_serves:
  assumes "connected V s" and "serves V s s'" and "hb s' = (hb s)\<lparr>m_prevUptimeSecs := u, m_prevLostConnection := b\<rparr>"
  shows "connected V s'"
  using assms by (simp add: connected_def serves_def same_parts_def)

lemma connected_calm: "connected V s \<Longrightarrow> serves V s s' \<Longrightarrow> hb s' = hb s \<Longrightarrow> connected V s'"
  by (simp add: connected_def serves_def same_parts_def)

lemma connected_request:
  assumes "connected V s" and "posted s = xs @ rq # ys"
  shows "url_scheme (rq_url rq) = HTTP" and "connected V (s\<lparr>posted := xs @ ys\<rparr>)"
proof -
  from assms(1) have ok: "service_ok V s" and started: "mc_httpClient (m_client s) \<noteq> None"
    by (auto simp: connected_def started_def)
  from ok assms(2) have "request_of V (mc_params (m_client s)) rq" by (simp add: service_ok_def Let_def)
  moreover from ok started have "url_scheme (cp_url (mc_params (m_client s))) = HTTP" by (auto simp: service_ok_def Let_def)
  ultimately show "url_scheme (rq_url rq) = HTTP" by (simp add: request_of_def)
  from service_ok_fewer [OF assms(2) ok] assms(1) show "connected V (s\<lparr>posted := xs @ ys\<rparr>)" by (simp add: connected_def)
qed

lemma mapping_requests_none [simp]: "posted s' = old \<Longrightarrow> mapping_requests old s' = 0"
  by (simp add: mapping_requests_def)

lemma neighbor_request_handler [simp]: "rq_handler (neighbor_request enc c) = NeighborMapping"
  by (simp add: neighbor_request_def command_request_def)

lemma mapping_requests_one [simp]: "posted s' = old @ [neighbor_request enc c] \<Longrightarrow> mapping_requests old s' = 1"
  by (simp add: mapping_requests_def)

text \<open>An answer, handled by a connected exporter.\<close>

lemma answer_implements:
  fixes V :: "('j, 'e) env" and s :: "('e, 'z) impl_world_scheme"
  assumes "requests_encoded V enc" and "connected V s" and "url_scheme (rq_url rq) = HTTP"
    and run: "run_request V (handle_response V M cfg) rq rep s = (r, s')" and defined: "\<nexists>u. r = Stuck u"
  shows "connected V s' \<and> hb_spec (seen V (Answer M cfg rq rep)) (view_of (hb s)) = (mapping_requests (posted s) s', view_of (hb s'))"
proof -
  have serves: "serves V s s'"
    by (rule followsD [OF serves.follows_run_request [OF serves.follows_handle_response] run])
  obtain ms where eq: "run_request V (handle_response V M cfg) rq rep s = (case delivered V rep of
      Ok a \<Rightarrow> handle_response V M cfg (rq_handler rq) a (s\<lparr>logged := logged s @ ms\<rparr>)
    | Throw e \<Rightarrow> (Throw e, s) | Stuck u \<Rightarrow> (Stuck u, s))"
    using run_request_delivered [OF assms(3)] by blast
  show ?thesis
  proof (cases "delivered V rep")
    case (Ok a)
    let ?t = "s\<lparr>logged := logged s @ ms\<rparr>"
    have h: "handle_response V M cfg (rq_handler rq) a ?t = (r, s')" using run eq Ok by simp
    have t: "hb ?t = hb s" "posted ?t = posted s" "m_client ?t = m_client s" by simp_all
    have calm: ?thesis if "seen V (Answer M cfg rq rep) = Nothing" and "calm_step ?t s'"
      using that connected_calm [OF assms(2) serves] calm_step_requests [of ?t s'] by (simp add: calm_step_def)
    consider (heartbeat) "rq_handler rq = HeartbeatResponse" | (mapping) "rq_handler rq = NeighborMapping"
      | (other) "rq_handler rq \<noteq> HeartbeatResponse" "rq_handler rq \<noteq> NeighborMapping" by blast
    then show ?thesis
    proof cases
      case heartbeat
      have def: "answer_defined V a"
        using heartbeat_undefined [of V a M cfg ?t] h heartbeat defined by auto
      from assms(2) have c: "started (m_client ?t)" "hb_running V (hb ?t)" "hb_timer (hb ?t) = Some (Running (interval_ms (hb ?t)))"
        by (simp_all add: connected_def)
      from assms(1) c def show ?thesis
      proof (cases rule: heartbeat_answer [where M = M and cfg = cfg])
        case (silent ms')
        then have "hb s' = (hb s)\<lparr>m_prevUptimeSecs := m_prevUptimeSecs (hb s), m_prevLostConnection := True\<rparr>" "posted s' = posted s"
          using h heartbeat by auto
        with connected_serves [OF assms(2) serves this(1)] silent(1) heartbeat Ok show ?thesis
          by (simp add: view_of_def)
      next
        case (alive u)
        then have "hb s' = (hb s)\<lparr>m_prevUptimeSecs := u, m_prevLostConnection := False\<rparr>" "posted s' = posted s"
          using h heartbeat by auto
        with connected_serves [OF assms(2) serves this(1)] alive(1,2) heartbeat Ok show ?thesis
          by (simp add: view_of_def restored_needed_def)
      next
        case (restores u ms')
        then have "hb s' = (hb s)\<lparr>m_prevUptimeSecs := 0, m_prevLostConnection := False\<rparr>"
          "posted s' = posted s @ [neighbor_request enc (m_client s)]"
          using h heartbeat by auto
        with connected_serves [OF assms(2) serves this(1)] restores(1,2) heartbeat Ok show ?thesis
          by (auto simp: view_of_def restored_needed_def)
      qed
    next
      case mapping
      show ?thesis
      proof (cases "mapping_failed V a")
        case True
        with mapping_failure [of V a M cfg ?t] h mapping
        have "hb s' = (hb s)\<lparr>m_prevUptimeSecs := m_prevUptimeSecs (hb s), m_prevLostConnection := True\<rparr>" "posted s' = posted s"
          by auto
        with connected_serves [OF assms(2) serves this(1)] True mapping Ok show ?thesis by (simp add: view_of_def)
      next
        case False
        with calm [OF _ mapping_read [OF h [unfolded mapping] defined False]] mapping Ok show ?thesis by simp
      qed
    next
      case other
      then have "seen V (Answer M cfg rq rep) = Nothing" using Ok by (cases "rq_handler rq") simp_all
      with calm followsD [OF calm_handle_response [OF other] h] show ?thesis by simp
    qed
  next
    case (Throw e)
    with run eq assms(2) show ?thesis by simp
  next
    case (Stuck u)
    with run eq defined show ?thesis by auto
  qed
qed

lemma connection_step_sim:
  assumes "requests_encoded V enc \<and> connected V s" and "connection_step V e s n s'"
  shows "(requests_encoded V enc \<and> connected V s') \<and> hb_spec (seen V e) (view_of (hb s)) = (n, view_of (hb s'))"
  using assms(2)
proof cases
  case (step_answer xs rq ys M cfg rep r)
  note c = connected_request [OF conjunct2 [OF assms(1)] step_answer(3)]
  from answer_implements [OF conjunct1 [OF assms(1)] c(2,1) step_answer(4,5)] assms(1) show ?thesis
    by (simp add: step_answer(1,2))
next
  case (step_hook M k h code)
  note r = step_hook(3)
  have calm: "calm_step s s'" by (rule followsD [OF calm.follows_run_hook r])
  have "serves V s s'" by (rule followsD [OF serves.follows_run_hook r])
  with calm connected_calm [of V s s'] assms(1) calm_step_requests [OF calm] show ?thesis
    by (simp add: step_hook(1,2) calm_step_def)
next
  case (step_timer k)
  note r = step_timer(4)
  have "serves V s s'" by (rule followsD [OF serves.follows_heartbeatLoop r])
  moreover have "hb s' = hb s" "mapping_requests (posted s) s' = 0"
    using r by (auto simp: heartbeatLoop_def mbind_def mapping_requests_def sendRequest_def post_def
        split: outcome.splits option.splits if_splits)
  ultimately show ?thesis using connected_calm [of V s s'] assms(1) by (simp add: step_timer(1,2))
qed


lemma connection_step_progress:
  fixes V :: "('j, 'e) env"
  assumes "requests_encoded V enc \<and> connected V s" and "answerable V s e"
  shows "\<exists>n s'. connection_step V e s n s'"
proof (cases e)
  case (Answer M cfg rq rep)
  with assms(2) obtain xs ys where p: "posted s = xs @ rq # ys" and h: "rq_handler rq = HeartbeatResponse"
    and defined: "\<forall>u. delivered V rep \<noteq> Stuck u" "\<forall>a. delivered V rep = Ok a \<longrightarrow> answer_defined V a"
    by (auto dest: split_list)
  let ?t = "s\<lparr>posted := xs @ ys\<rparr>"
  note c = connected_request [OF conjunct2 [OF assms(1)] p]
  obtain ms where eq: "run_request V (handle_response V M cfg) rq rep ?t = (case delivered V rep of
      Ok a \<Rightarrow> handle_response V M cfg (rq_handler rq) a (?t\<lparr>logged := logged ?t @ ms\<rparr>)
    | Throw e \<Rightarrow> (Throw e, ?t) | Stuck u \<Rightarrow> (Stuck u, ?t))"
    using run_request_delivered [OF c(1)] by blast
  have "\<exists>r s'. run_request V (handle_response V M cfg) rq rep ?t = (r, s') \<and> (\<nexists>u. r = Stuck u)"
  proof (cases "delivered V rep")
    case (Ok a)
    let ?l = "?t\<lparr>logged := logged ?t @ ms\<rparr>"
    have "requests_encoded V enc" "started (m_client ?l)" "hb_running V (hb ?l)"
      "hb_timer (hb ?l) = Some (Running (interval_ms (hb ?l)))" "answer_defined V a"
      using assms(1) defined(2) Ok by (simp_all add: connected_def)
    then have "\<exists>s'. handle_response V M cfg HeartbeatResponse a ?l = (Ok (), s')"
      by (cases rule: heartbeat_answer [where M = M and cfg = cfg]) blast+
    with eq Ok h show ?thesis by auto
  qed (use eq defined(1) in auto)
  then obtain r s' where "run_request V (handle_response V M cfg) rq rep ?t = (r, s')" "\<nexists>u. r = Stuck u" by blast
  from connection_step.step_answer [OF p this] show ?thesis unfolding Answer by blast
next
  case Timer
  obtain b where "createRequestFromCommands V [(1, createUptimeCommand)] = Ok b"
    using assms(1) by (auto simp: requests_encoded_def)
  moreover obtain c where "hb_httpClient (hb s) = Some c"
    using assms(1) by (auto simp: connected_def started_def service_ok_def Let_def)
  ultimately have "\<exists>s'. heartbeatLoop V s = (Ok (), s')"
    by (simp add: heartbeatLoop_def mbind_def)
  with assms(1) show ?thesis by (auto simp: Timer connected_def intro: connection_step.step_timer)
qed (use assms(2) in simp)

interpretation connection: simulation
  "\<lambda>s. requests_encoded V enc \<and> connected V s" "answerable V" "\<lambda>s. view_of (hb s)" "seen V" "connection_step V" hb_spec
  for V enc
  by unfold_locales (rule connection_step_sim connection_step_progress; assumption)+

section \<open>The contract by position\<close>

text \<open>Which events restore: a heartbeat that is the first sighting, or follows a failure, or reports a
  smaller uptime than the heartbeat before it, which itself must not have restored.\<close>

definition last_sighting :: "sighting list \<Rightarrow> nat \<Rightarrow> nat \<Rightarrow> bool" where
  "last_sighting bs i j \<longleftrightarrow> j < i \<and> bs ! j \<noteq> Nothing \<and> (\<forall>k. j < k \<and> k < i \<longrightarrow> bs ! k = Nothing)"

definition restores_at :: "nat list \<Rightarrow> sighting list \<Rightarrow> nat \<Rightarrow> bool" where
  "restores_at ns bs i \<longleftrightarrow> (\<exists>u. bs ! i = Alive u \<and>
     ((\<forall>j < i. bs ! j = Nothing) \<or> (\<exists>j. last_sighting bs i j \<and>
        (bs ! j = Failed \<or> (ns ! j = 0 \<and> (\<exists>w. bs ! j = Alive w \<and> u < w))))))"

abbreviation view_after :: "sighting list \<Rightarrow> hb_view" where
  "view_after bs \<equiv> foldl (\<lambda>v b. snd (hb_spec b v)) Lost bs"

lemma last_sighting_unique: "last_sighting bs i j \<Longrightarrow> last_sighting bs i j' \<Longrightarrow> j = j'"
  unfolding last_sighting_def by (metis linorder_neqE_nat)

lemma last_sighting_take: "i \<le> length bs \<Longrightarrow> last_sighting (take i bs) i j = last_sighting bs i j"
  by (auto simp: last_sighting_def)

lemma last_sighting_snoc:
  "last_sighting (bs @ [b]) (Suc (length bs)) j \<longleftrightarrow>
    (if b = Nothing then last_sighting bs (length bs) j else j = length bs)"
proof (cases "b = Nothing")
  case True
  then show ?thesis unfolding last_sighting_def by (cases "j = length bs") (auto simp: nth_append less_Suc_eq)
next
  case False
  have "j = length bs" if "last_sighting (bs @ [b]) (Suc (length bs)) j"
  proof (rule ccontr)
    assume "j \<noteq> length bs"
    with that have "j < length bs" by (simp add: last_sighting_def)
    with that have "(bs @ [b]) ! length bs = Nothing" unfolding last_sighting_def by blast
    with False show False by simp
  qed
  moreover have "last_sighting (bs @ [b]) (Suc (length bs)) (length bs)"
    using False by (auto simp: last_sighting_def)
  ultimately show ?thesis using False by auto
qed

text \<open>The state after some events, by the last sighting among them.\<close>

lemma view_after_sighting:
  "(\<forall>j < length bs. bs ! j = Nothing) \<and> view_after bs = Lost \<or>
   (\<exists>j. last_sighting bs (length bs) j \<and> (bs ! j = Failed \<and> view_after bs = Lost \<or>
     (\<exists>w. bs ! j = Alive w \<and> view_after bs = Up (if spec_outputs hb_spec Lost bs ! j = 0 then w else 0))))"
proof (induction bs rule: rev_induct)
  case (snoc b bs)
  have out: "spec_outputs hb_spec Lost (bs @ [b]) = spec_outputs hb_spec Lost bs @ [fst (hb_spec b (view_after bs))]"
    by (simp add: spec_outputs_append)
  show ?case
  proof (cases b)
    case (Alive u)
    then have "last_sighting (bs @ [b]) (length (bs @ [b])) (length bs)" by (simp add: last_sighting_snoc)
    moreover have "view_after (bs @ [b]) =
        Up (if spec_outputs hb_spec Lost (bs @ [b]) ! length bs = 0 then u else 0)"
      by (cases "view_after bs") (simp_all add: out [unfolded Alive] nth_append Alive)
    ultimately show ?thesis using Alive by (metis nth_append_length)
  next
    case Failed
    then have "last_sighting (bs @ [b]) (length (bs @ [b])) (length bs)" by (simp add: last_sighting_snoc)
    then show ?thesis using Failed by (intro disjI2 exI [of _ "length bs"]) simp
  next
    case Nothing
    then have same: "last_sighting (bs @ [b]) (length (bs @ [b])) j = last_sighting bs (length bs) j" for j
      by (simp add: last_sighting_snoc)
    have nth: "(bs @ [b]) ! j = bs ! j" "spec_outputs hb_spec Lost (bs @ [b]) ! j = spec_outputs hb_spec Lost bs ! j"
      if "last_sighting bs (length bs) j" for j
      using that by (simp_all add: out nth_append last_sighting_def)
    have view: "view_after (bs @ [b]) = view_after bs" using Nothing by simp
    from snoc show ?thesis
    proof (elim disjE exE conjE)
      assume none: "\<forall>j < length bs. bs ! j = Nothing" "view_after bs = Lost"
      then have "\<forall>j < length (bs @ [b]). (bs @ [b]) ! j = Nothing" using Nothing by (simp add: nth_append less_Suc_eq)
      with none(2) view show ?thesis by simp
    next
      fix j assume j: "last_sighting bs (length bs) j" "bs ! j = Failed" "view_after bs = Lost"
      then show ?thesis unfolding same view by (intro disjI2 exI [of _ j]) (simp add: nth)
    next
      fix j w assume j: "last_sighting bs (length bs) j" "bs ! j = Alive w"
        "view_after bs = Up (if spec_outputs hb_spec Lost bs ! j = 0 then w else 0)"
      then show ?thesis unfolding same view by (intro disjI2 exI [of _ j]) (simp add: nth)
    qed
  qed
qed simp

lemma contract_by_position:
  assumes "i < length bs"
  shows "spec_outputs hb_spec Lost bs ! i = (if restores_at (spec_outputs hb_spec Lost bs) bs i then 1 else 0)"
proof -
  let ?ns = "spec_outputs hb_spec Lost bs" and ?b = "take i bs"
  have bs: "bs = ?b @ bs ! i # drop (Suc i) bs" using assms by (rule id_take_nth_drop)
  have out: "?ns = spec_outputs hb_spec Lost ?b @
      fst (hb_spec (bs ! i) (view_after ?b)) # spec_outputs hb_spec (snd (hb_spec (bs ! i) (view_after ?b))) (drop (Suc i) bs)"
    by (subst bs) (simp add: spec_outputs_append)
  have len: "length ?b = i" using assms by simp
  have now: "?ns ! i = fst (hb_spec (bs ! i) (view_after ?b))"
    using assms by (subst out) (simp add: nth_append)
  have before: "spec_outputs hb_spec Lost ?b ! j = ?ns ! j" if "j < i" for j
    using that assms by (subst out) (simp add: nth_append)
  have sighting: "last_sighting ?b (length ?b) j = last_sighting bs i j" for j
    using last_sighting_take [of i bs j] assms by simp
  from view_after_sighting [of ?b] show ?thesis
  proof (elim disjE exE conjE)
    assume "\<forall>j < length ?b. ?b ! j = Nothing" "view_after ?b = Lost"
    then show ?thesis unfolding now restores_at_def using assms by (cases "bs ! i") simp_all
  next
    fix j assume j: "last_sighting ?b (length ?b) j" "?b ! j = Failed" "view_after ?b = Lost"
    then have s: "last_sighting bs i j" by (simp only: sighting)
    with j(2) have "bs ! j = Failed" by (simp add: last_sighting_def)
    with s have "(\<exists>u. bs ! i = Alive u) \<longrightarrow> restores_at ?ns bs i" unfolding restores_at_def by blast
    moreover have "restores_at ?ns bs i \<longrightarrow> (\<exists>u. bs ! i = Alive u)" unfolding restores_at_def by blast
    ultimately show ?thesis unfolding now using j(3) by (cases "bs ! i") auto
  next
    fix j w assume j: "last_sighting ?b (length ?b) j" "?b ! j = Alive w"
      and v: "view_after ?b = Up (if spec_outputs hb_spec Lost ?b ! j = 0 then w else 0)"
    have s: "last_sighting bs i j" using j(1) by (simp only: sighting)
    then have ij: "j < i" by (simp add: last_sighting_def)
    with j(2) have w: "bs ! j = Alive w" by simp
    have only: "last_sighting bs i k \<longleftrightarrow> k = j" for k using s last_sighting_unique by blast
    have "\<not> (\<forall>k < i. bs ! k = Nothing)" using ij w by (metis sighting.distinct(3))
    then have "restores_at ?ns bs i \<longleftrightarrow> (\<exists>u. bs ! i = Alive u \<and> ?ns ! j = 0 \<and> u < w)"
      unfolding restores_at_def only by (auto simp: w)
    with v show ?thesis unfolding now before [OF ij] by (cases "bs ! i") auto
  qed
qed


text \<open>Starting the service connects it.\<close>

lemma start_connects:
  assumes "exporter_ok V s" and "m_service s" and "\<not> connectionFailedHandler (hb s)"
    and "impl_startService V s = (Ok (), s')"
  shows "connected V s' \<and> m_prevLostConnection (hb s')"
proof -
  from startService_ok [OF assms(4,1)] have ok: "exporter_ok V s'" .
  have "m_service s' \<and> started (m_client s') \<and> hb_running V (hb s') \<and>
      hb_timer (hb s') = Some (Running (interval_ms (hb s'))) \<and> m_prevLostConnection (hb s')"
    using assms(2-4)
    by (cases "url_scheme (cp_url (mc_params (m_client s)))"; cases "timer_setup V (interval_ms (hb s))")
      (auto simp: impl_startService_def setIOService_def svc_startService_def mseq_def mbind_def
        setConnectionRestoredHandler_def hb_startService_def setup_timer_def startClient_def started_def hb_running_def
        interval_ms_def)
  with ok show ?thesis by (simp add: connected_def exporter_ok_def)
qed

text \<open>What a step of a connected exporter keeps, and what the timer posts.\<close>

lemma connection_step_parts: "connected V s \<Longrightarrow> connection_step V e s n s' \<Longrightarrow> same_parts s s'"
proof (erule connection_stepE)
  fix xs rq ys M cfg rep r s''
  assume r: "run_request V (handle_response V M cfg) rq rep (s\<lparr>posted := xs @ ys\<rparr>) = (r, s')"
  have "serves V (s\<lparr>posted := xs @ ys\<rparr>) s'"
    by (rule followsD [OF serves.follows_run_request [OF serves.follows_handle_response] r])
  then show "same_parts s s'" by (simp add: serves_def same_parts_def)
next
  fix M k h code assume r: "run_hook V M k h s = (Ok code, s')"
  show "same_parts s s'" using followsD [OF serves.follows_run_hook r] by (simp add: serves_def)
next
  fix n assume r: "heartbeatLoop V s = (Ok (), s')"
  show "same_parts s s'" using followsD [OF serves.follows_heartbeatLoop r] by (simp add: serves_def)
qed

definition heartbeat_request :: "((int32 \<times> string) list \<Rightarrow> 'e) \<Rightarrow> heartbeat \<Rightarrow> 'e request" where
  "heartbeat_request enc h = \<lparr>rq_url = cp_url (hb_params h), rq_endpoint = EndpointName, rq_tls = False,
     rq_body = enc [(1, createUptimeCommand)], rq_handler = HeartbeatResponse,
     rq_timeout = ucast (heartbeatIntervalSecs (hb_params h)), rq_auth = Option.bind (hb_httpClient h) m_basicAuth\<rparr>"

lemma timer_step:
  assumes "requests_encoded V enc" and "connected V s"
  shows "connection_step V Timer s 0 (s\<lparr>posted := posted s @ [heartbeat_request enc (hb s)]\<rparr>)"
proof -
  obtain c where c: "hb_httpClient (hb s) = Some c"
    using assms(2) by (auto simp: connected_def started_def service_ok_def Let_def)
  have "heartbeatLoop V s = (Ok (), s\<lparr>posted := posted s @ [heartbeat_request enc (hb s)]\<rparr>)"
    using assms(1) c by (simp add: heartbeatLoop_def mbind_def requests_encoded_def heartbeat_request_def)
  moreover have "hb_timer (hb s) = Some (Running (interval_ms (hb s)))" using assms(2) by (simp add: connected_def)
  ultimately show ?thesis
    using step_timer [of s "interval_ms (hb s)" V] by (simp add: mapping_requests_def heartbeat_request_def)
qed

text \<open>The timer fires and the switch answers at once.\<close>

lemma heartbeat_exchange:
  assumes "requests_encoded V enc" and "connected V s" and "delivered V rep = Ok a" and "answer_defined V a"
  shows "\<exists>n s'. step_run (connection_step V) s [Timer, Answer M cfg (heartbeat_request enc (hb s)) rep] [0, n] s' \<and>
    connected V s' \<and> heartbeat_request enc (hb s') = heartbeat_request enc (hb s)"
proof -
  let ?s = "s\<lparr>posted := posted s @ [heartbeat_request enc (hb s)]\<rparr>" and ?e = "Answer M cfg (heartbeat_request enc (hb s)) rep"
  note t = timer_step [OF assms(1,2)]
  have c: "connected V ?s" using connection_step_sim [OF conjI [OF assms(1,2)] t] by simp
  have "answerable V ?s ?e" using assms(3,4) by (simp add: heartbeat_request_def)
  with connection_step_progress [OF conjI [OF assms(1) c]] obtain n s' where a: "connection_step V ?e ?s n s'" by blast
  have "connected V s'" using connection_step_sim [OF conjI [OF assms(1) c] a] by simp
  moreover have "heartbeat_request enc (hb s') = heartbeat_request enc (hb s)"
    using connection_step_parts [OF c a] by (simp add: heartbeat_request_def same_parts_def)
  ultimately show ?thesis using t a by (auto simp: step_run_Cons_iff)
qed



section \<open>A conversation with the switch\<close>

definition uptime_doc :: "int32 \<Rightarrow> jval" where
  "uptime_doc secs = JObj [(''kern_uptm_days'', JInt 0), (''kern_uptm_hrs'', JInt 0), (''kern_uptm_mins'', JInt 0),
     (''kern_uptm_secs'', JInt secs)]"

text \<open>The parser of a switch whose answers are written as numbers of seconds.\<close>

definition talk_env :: "(jval, kelem) env" where
  "talk_env = std_env (std_json True (\<lambda>text. Some (response_object (std_json True (\<lambda>s. None))
     \<lparr>resp_id = IdInt 1, resp_result = JObj [(''body'', uptime_doc (of_nat (of_digits text)))]\<rparr>)))"

definition uptime_reply :: "nat \<Rightarrow> reply" where
  "uptime_reply secs = Reply 200 (to_string secs)"

lemma talk_env_encoded: "requests_encoded talk_env std_enc"
  by (simp add: talk_env_def std_encoded)

lemma uptime_delivered:
  "delivered talk_env (uptime_reply secs) = Ok (body_args (nl talk_env) 200 (IdInt 1) (uptime_doc (of_nat secs)))"
proof -
  let ?r = "\<lparr>resp_id = IdInt 1, resp_result = j_object (nl talk_env) [(''body'', uptime_doc (of_nat secs))]\<rparr>"
  have api: "json_api (nl talk_env)" by (simp add: talk_env_def std_json_api)
  have "j_parse (nl talk_env) (to_string secs) = Ok (response_object (nl talk_env) ?r)"
    by (simp add: talk_env_def response_object_def of_digits_to_string del: of_digits.simps)
  then have "handleResponse (nl talk_env) (to_string secs) = Ok [?r]"
    using json_api.handleResponse_object [OF api] json_api.type_response_object [OF api] json_api.validator_response_object [OF api]
    by simp
  then show ?thesis by (simp add: uptime_reply_def delivered_def validateResponse_def body_args_def)
qed

lemma uptime_check:
  "checkForFailedConnectionOrRPCResponse talk_env (body_args (nl talk_env) 200 (IdInt 1) (uptime_doc secs)) =
    Ok (Some \<lparr>kern_uptm_days = 0, kern_uptm_hrs = 0, kern_uptm_mins = 0, kern_uptm_secs = secs\<rparr>)"
  by (simp add: checkForFailedConnectionOrRPCResponse_def talk_env_def body_args_def first_body_def uptime_doc_def
      UptimeResponse_from_json_def at_int_def jval_ops)

lemma uptime_defined: "answer_defined talk_env (body_args (nl talk_env) 200 (IdInt 1) (uptime_doc secs))"
  by (simp add: answer_defined_def uptime_check)

lemma uptime_seen:
  "rq_handler rq = HeartbeatResponse \<Longrightarrow> seen talk_env (Answer M cfg rq (uptime_reply secs)) = Alive (scast (of_nat secs :: int32))"
  by (simp add: uptime_delivered observed_def uptime_check getUptimeSecondsFromResponse_def)

lemma sample_connected: "connected talk_env sample_state"
proof -
  have "\<exists>p. parseConfig talk_env (Some p) = Ok (mc_params sample_client)"
    unfolding talk_env_def using sample_parse by blast
  then have "service_ok talk_env sample_state"
    by (simp add: service_ok_def Let_def sample_heartbeat_def) (simp add: sample_client_def std_url_def)
  then show ?thesis
    by (simp add: connected_def talk_env_def started_def sample_client_def sample_heartbeat_def hb_running_def interval_ms_def)
qed

text \<open>The timer fires and the switch reports its uptime, as many times as the list is long.\<close>

definition talk :: "'j lease_mgr \<Rightarrow> cfg_mgr \<Rightarrow> 'e request \<Rightarrow> nat list \<Rightarrow> ('j, 'e) event list" where
  "talk M cfg rq ups = concat (map (\<lambda>up. [Timer, Answer M cfg rq (uptime_reply up)]) ups)"

lemma talk_runs:
  "connected talk_env s \<Longrightarrow> rq = heartbeat_request std_enc (hb s) \<Longrightarrow>
    \<exists>ns s'. step_run (connection_step talk_env) s (talk M cfg rq ups) ns s'"
proof (induction ups arbitrary: s)
  case Nil
  then show ?case by (auto simp: talk_def)
next
  case (Cons up ups)
  obtain n t where "step_run (connection_step talk_env) s [Timer, Answer M cfg rq (uptime_reply up)] [0, n] t"
    and t: "connected talk_env t" "rq = heartbeat_request std_enc (hb t)"
    using heartbeat_exchange [OF talk_env_encoded Cons.prems(1) uptime_delivered uptime_defined, of M cfg up, folded Cons.prems(2)]
    by metis
  moreover obtain ns s' where "step_run (connection_step talk_env) t (talk M cfg rq ups) ns s'" using Cons.IH [OF t] by blast
  ultimately have "step_run (connection_step talk_env) s ([Timer, Answer M cfg rq (uptime_reply up)] @ talk M cfg rq ups) ([0, n] @ ns) s'"
    unfolding step_run_append by blast
  then show ?case by (auto simp: talk_def)
qed

section \<open>Properties\<close>

text \<open>C7: whatever the switch answers and however hooks, the timer and the answers to all requests interleave,
  a connected exporter that takes the connection as lost requests the neighbor table, by which it starts
  restoring the routes, as its contract says: once on exactly those answered heartbeats that are the
  first sighting of the switch, or follow a failure, or report a smaller uptime than the heartbeat
  before, which itself must not have restored, and on no other event.  A failure is a failed heartbeat
  or a failed request for the neighbor table.  The exporter stays connected, and unless an answer is
  undefined behaviour, it handles the answer to any pending heartbeat and the timer at any time.\<close>

theorem restores_follow_contract:
  assumes "requests_encoded V enc" and "connected V s" and "m_prevLostConnection (hb s)"
    and "step_run (connection_step V) s events ns s'"
  shows "ns = spec_outputs hb_spec Lost (map (seen V) events) \<and>
    (\<forall>i < length events. ns ! i = (if restores_at ns (map (seen V) events) i then 1 else 0)) \<and>
    connected V s' \<and>
    (\<forall>e. answerable V s' e \<longrightarrow> (\<exists>n s''. step_run (connection_step V) s (events @ [e]) (ns @ [n]) s''))"
proof -
  have "view_of (hb s) = Lost" using assms(3) by (simp add: view_of_def)
  then have "ns = spec_outputs hb_spec Lost (map (seen V) events)" "connected V s'"
    using connection.run_outputs [OF assms(4)] assms(1,2) by auto
  moreover have "ns ! i = (if restores_at ns (map (seen V) events) i then 1 else 0)" if "i < length events" for i
    using contract_by_position [of i "map (seen V) events"] that calculation(1) by simp
  moreover have "\<exists>n s''. step_run (connection_step V) s (events @ [e]) (ns @ [n]) s''" if "answerable V s' e" for e
    using connection.run_goes_on [OF assms(4) conjI [OF assms(1,2)] that] .
  ultimately show ?thesis by blast
qed

lemma restores_follow_contract_witness:
  "\<exists>ns s'. step_run (connection_step talk_env) sample_state
      (talk (list_db []) \<lparr>currentCfg = None\<rparr> (heartbeat_request std_enc sample_heartbeat) [100, 50, 20]) ns s' \<and>
    ns = [0, 1, 0, 0, 0, 1]"
proof -
  let ?rq = "heartbeat_request std_enc sample_heartbeat"
  have h: "rq_handler ?rq = HeartbeatResponse" by (simp add: heartbeat_request_def)
  have lost: "m_prevLostConnection (hb sample_state)" by (simp add: sample_heartbeat_def)
  obtain ns s' where run: "step_run (connection_step talk_env) sample_state (talk (list_db []) \<lparr>currentCfg = None\<rparr> ?rq [100, 50, 20]) ns s'"
    using talk_runs [OF sample_connected, of ?rq "list_db []" "\<lparr>currentCfg = None\<rparr>" "[100, 50, 20]"] by auto
  from restores_follow_contract [OF talk_env_encoded sample_connected lost run] have "ns = [0, 1, 0, 0, 0, 1]"
    by (simp add: talk_def uptime_seen [OF h] del: seen.simps(1))
  with run show ?thesis by blast
qed

text \<open>C37: a heartbeat that restores the routes makes the exporter blind for the next one: it stores an
  uptime of zero, so as long as no heartbeat and no request for the neighbor table fails in between,
  the next heartbeat restores nothing whatever it reports, even an uptime that shows that the
  switch was restarted.\<close>

theorem reboot_after_restore_missed:
  assumes "requests_encoded V enc" and "connected V s"
    and "step_run (connection_step V) s (e # events @ [e']) (n # ns @ [n']) s'"
    and "0 < n" and "list_all (\<lambda>x. seen V x = Nothing) events"
  shows "n' = 0"
proof -
  have "n # ns @ [n'] = spec_outputs hb_spec (view_of (hb s)) (map (seen V) (e # events @ [e']))"
    using connection.run_outputs [OF assms(3)] assms(1,2) by auto
  then have n: "n = fst (hb_spec (seen V e) (view_of (hb s)))"
    and n': "n' = fst (hb_spec (seen V e') (foldl (\<lambda>v b. snd (hb_spec b v)) (snd (hb_spec (seen V e) (view_of (hb s)))) (map (seen V) events)))"
    by (simp_all add: spec_outputs_append)
  have "foldl (\<lambda>v b. snd (hb_spec b v)) v (map (seen V) events) = v" for v
    using assms(5) by (induction events arbitrary: v) simp_all
  moreover have "snd (hb_spec (seen V e) (view_of (hb s))) = Up 0"
    using assms(4) n by (cases "seen V e"; cases "view_of (hb s)") (auto split: if_splits)
  ultimately show ?thesis unfolding n' by (cases "seen V e'") simp_all
qed

lemma reboot_after_restore_missed_witness:
  "\<exists>(s :: kelem impl_world) s'. step_run (connection_step talk_env) s
      [Answer (list_db []) \<lparr>currentCfg = None\<rparr> (heartbeat_request std_enc sample_heartbeat) (uptime_reply 100), Timer,
       Answer (list_db []) \<lparr>currentCfg = None\<rparr> (heartbeat_request std_enc sample_heartbeat) (uptime_reply 50)] [1, 0, 0] s' \<and>
    connected talk_env s"
proof -
  let ?rq = "heartbeat_request std_enc sample_heartbeat" and ?M = "list_db [] :: jval lease_mgr" and ?cfg = "\<lparr>currentCfg = None\<rparr>"
  have h: "rq_handler ?rq = HeartbeatResponse" by (simp add: heartbeat_request_def)
  obtain ns s' where run: "step_run (connection_step talk_env) sample_state (talk ?M ?cfg ?rq [100, 50]) ns s'"
    using talk_runs [OF sample_connected, of ?rq ?M ?cfg "[100, 50]"] by auto
  have "view_of (hb sample_state) = Lost" by (simp add: view_of_def sample_heartbeat_def)
  with connection.run_outputs [OF run conjI [OF talk_env_encoded sample_connected]]
  obtain n where ns: "ns = [0, 1, 0, n]" by (simp add: talk_def uptime_seen [OF h] del: seen.simps(1))
  obtain t where first: "connection_step talk_env Timer sample_state 0 t"
    and rest: "step_run (connection_step talk_env) t (Answer ?M ?cfg ?rq (uptime_reply 100) # [Timer] @
      [Answer ?M ?cfg ?rq (uptime_reply 50)]) (1 # [0] @ [n]) s'"
    using run by (auto simp: ns talk_def step_run_Cons_iff)
  have t: "connected talk_env t"
    using connection_step_sim [OF conjI [OF talk_env_encoded sample_connected] first] by simp
  have "n = 0" by (rule reboot_after_restore_missed [OF talk_env_encoded t rest]) simp_all
  with rest t show ?thesis by (intro exI [of _ t] exI [of _ s']) simp
qed



end
