(* ===== verification/Shutdown.thy ===== *)
theory Shutdown
  imports Life_Cycle
begin

text \<open>
  Stopping an HTTP client with requests pending (\<^verbatim>\<open>setThreadsState(STOPPED)\<close> in
  \<^verbatim>\<open>src/nxos_http_client.cpp\<close>): \<^verbatim>\<open>poll()\<close> runs the pending requests of the client, and those their
  handlers post to it, on the stopping thread, until none is left or an exception leaves a handler,
  which is swallowed; \<^verbatim>\<open>stop()\<close> leaves the rest unrun; then the threads are awaited.  The stop
  operations of the layers are built from it: \<^verbatim>\<open>stopClient\<close> of the management client, \<^verbatim>\<open>stopService\<close> of
  the heartbeat, of the service and of the exporter.  Lemmas: when they return and what they leave
  behind.
\<close>

section \<open>Stopping a client\<close>

text \<open>The two HTTP clients, and the one a request was posted to.\<close>

datatype http_owner = Management_Client | Heartbeat_Service

fun owner :: "handler \<Rightarrow> http_owner" where
  "owner HeartbeatResponse = Heartbeat_Service"
| "owner h = Management_Client"

abbreviation owned :: "http_owner \<Rightarrow> 'e request \<Rightarrow> bool" where
  "owned k rq \<equiv> owner (rq_handler rq) = k"

text \<open>The first request of a client, with the requests before and after it.\<close>

fun next_request :: "http_owner \<Rightarrow> 'e request list \<Rightarrow> ('e request list \<times> 'e request \<times> 'e request list) option" where
  "next_request k [] = None"
| "next_request k (rq # rqs) =
     (if owned k rq then Some ([], rq, rqs)
      else map_option (\<lambda>(xs, q, ys). (rq # xs, q, ys)) (next_request k rqs))"

text \<open>\<open>answer\<close> says what the HTTP library gives for a request in a state; \<open>None\<close>: the call never returns.\<close>

partial_function (option) poll ::
    "('j, 'e) env \<Rightarrow> 'j lease_mgr \<Rightarrow> cfg_mgr \<Rightarrow> (('e, 'z) impl_world_scheme \<Rightarrow> 'e request \<Rightarrow> reply) \<Rightarrow> http_owner
      \<Rightarrow> ('e, 'z) impl_world_scheme \<Rightarrow> (('j, unit) outcome \<times> ('e, 'z) impl_world_scheme) option" where
  "poll V M cfg answer k s = (case next_request k (posted s) of
     None \<Rightarrow> Some (Ok (), s)
   | Some (xs, rq, ys) \<Rightarrow>
       (case run_request V (handle_response V M cfg) rq (answer s rq) (s\<lparr>posted := xs @ ys\<rparr>) of
          (Ok _, s') \<Rightarrow> poll V M cfg answer k s'
        | (Throw e, s') \<Rightarrow> Some (Ok (), s')
        | (Stuck u, s') \<Rightarrow> Some (Stuck u, s')))"

definition leave_requests :: "http_owner \<Rightarrow> ('e, 'z) world_scheme \<Rightarrow> ('e, 'z) world_scheme" where
  "leave_requests k s = s\<lparr>posted := filter (\<lambda>rq. \<not> owned k rq) (posted s)\<rparr>"

text \<open>The pointer to each client.\<close>

fun http_client_of :: "http_owner \<Rightarrow> ('e, 'z) impl_world_scheme \<Rightarrow> http_client option" where
  "http_client_of Management_Client s = mc_httpClient (m_client s)"
| "http_client_of Heartbeat_Service s = hb_httpClient (hb s)"

fun set_http_client :: "http_owner \<Rightarrow> http_client \<Rightarrow> ('e, 'z) impl_world_scheme \<Rightarrow> ('e, 'z) impl_world_scheme" where
  "set_http_client Management_Client c s = s\<lparr>m_client := (m_client s)\<lparr>mc_httpClient := Some c\<rparr>\<rparr>"
| "set_http_client Heartbeat_Service c s = s\<lparr>hb := (hb s)\<lparr>hb_httpClient := Some c\<rparr>\<rparr>"

text \<open>
  What may not return: \<open>None\<close> is a call that never does.  \<open>and_then\<close> runs a second call when the
  first returned normally.
\<close>

type_synonym ('j, 's) blocking = "'s \<Rightarrow> (('j, unit) outcome \<times> 's) option"

definition and_then :: "('j, 's) blocking \<Rightarrow> ('j, 's) blocking \<Rightarrow> ('j, 's) blocking" where
  "and_then m n s = (case m s of
     None \<Rightarrow> None
   | Some (Ok _, s') \<Rightarrow> n s'
   | Some r \<Rightarrow> Some r)"

text \<open>A stop: \<^verbatim>\<open>poll()\<close> and \<^verbatim>\<open>stop()\<close> unless the I/O service is stopped, and the wait for the threads.\<close>

definition poll_and_stop ::
    "('j, 'e) env \<Rightarrow> 'j lease_mgr \<Rightarrow> cfg_mgr \<Rightarrow> (('e, 'z) impl_world_scheme \<Rightarrow> 'e request \<Rightarrow> reply) \<Rightarrow> http_owner
      \<Rightarrow> ('j, ('e, 'z) impl_world_scheme) blocking" where
  "poll_and_stop V M cfg answer k = and_then (poll V M cfg answer k) (\<lambda>s. Some (Ok (), leave_requests k s))"

definition join_threads :: "http_owner \<Rightarrow> http_client \<Rightarrow> ('j, ('e, 'z) impl_world_scheme) blocking" where
  "join_threads k c s = map_option (\<lambda>c'. (Ok (), set_http_client k c' s)) (stop_threads c)"

definition stop_http_client ::
    "('j, 'e) env \<Rightarrow> 'j lease_mgr \<Rightarrow> cfg_mgr \<Rightarrow> (('e, 'z) impl_world_scheme \<Rightarrow> 'e request \<Rightarrow> reply) \<Rightarrow> http_owner
      \<Rightarrow> ('j, ('e, 'z) impl_world_scheme) blocking" where
  "stop_http_client V M cfg answer k s = (case http_client_of k s of
     None \<Rightarrow> Some (Stuck NullDeref, s)
   | Some c \<Rightarrow> and_then (if pool_stopped c then \<lambda>s. Some (Ok (), s) else poll_and_stop V M cfg answer k)
       (join_threads k c) s)"

section \<open>Stopping the service\<close>

definition stopClient where
  "stopClient V M cfg answer = stop_http_client V M cfg answer Management_Client"

definition hb_stopService where
  "hb_stopService V M cfg answer =
     and_then (stop_http_client V M cfg answer Heartbeat_Service) (\<lambda>s. Some (cancel_timer s))"

definition svc_stopService where
  "svc_stopService V M cfg answer = and_then (stopClient V M cfg answer) (hb_stopService V M cfg answer)"

text \<open>
  \<^verbatim>\<open>m_service.reset()\<close> destroys the heartbeat service and then the management client, and with them
  their HTTP clients, whose destructors stop them.  After \<open>svc_stopService\<close> they poll nothing.
\<close>

definition destroy_client where
  "destroy_client V M cfg answer k s =
     (if http_client_of k s = None then Some (Ok (), s) else stop_http_client V M cfg answer k s)"

definition impl_stopService where
  "impl_stopService V M cfg answer =
     and_then (\<lambda>s. if m_service s then svc_stopService V M cfg answer s else Some (Stuck NullDeref, s))
    (and_then (destroy_client V M cfg answer Heartbeat_Service)
    (and_then (destroy_client V M cfg answer Management_Client)
      (\<lambda>s. Some (Ok (), s\<lparr>m_service := False\<rparr>))))"

section \<open>Stopping comes to an end\<close>

lemma next_request_Some:
  "next_request k rqs = Some (xs, rq, ys) \<longleftrightarrow> rqs = xs @ rq # ys \<and> owned k rq \<and> (\<forall>q \<in> set xs. \<not> owned k q)"
proof (induction rqs arbitrary: xs)
  case (Cons q rqs)
  then show ?case by (cases xs) (auto split: option.splits)
qed simp

lemma next_request_None: "next_request k rqs = None \<longleftrightarrow> (\<forall>q \<in> set rqs. \<not> owned k q)"
  by (induction rqs) auto

text \<open>Polling in the steps of the system.\<close>

lemma poll_induct [case_names step]:
  assumes "\<And>s. (\<And>t. reply_step V s t \<Longrightarrow> P t) \<Longrightarrow> P s"
  shows "P s"
  using reply_step_wf [of V] assms by (induction s rule: wfp_induct_rule) blast

text \<open>An answer to the heartbeat asks for the mapping, or for nothing.\<close>

definition asks :: "('e, 'z) world_scheme \<Rightarrow> ('e, 'z) world_scheme \<Rightarrow> bool" where
  "asks s s' \<longleftrightarrow> (\<forall>rq \<in> set (posted s'). rq \<in> set (posted s) \<or> rq_handler rq = NeighborMapping)"

interpretation asks: impl_local asks
  by unfold_locales (auto simp: asks_def)

lemma asks_heartbeat:
  fixes V :: "('j, 'e) env"
  shows "follows asks (handle_response V M cfg HeartbeatResponse a :: ('j, ('e, 'z) impl_world_scheme, unit) prog)"
proof -
  have "follows asks (post_commands V c cmds NeighborMapping :: ('j, ('e, 'z) impl_world_scheme, unit) prog)" for c cmds
    by (cases "createRequestFromCommands V cmds") (auto simp: follows_def post_commands_def mbind_def asks_def)
  then have "follows asks (\<lambda>s. asyncGetHWAddrToInterfaceNameMapping V (m_client s) (s :: ('e, 'z) impl_world_scheme))"
    unfolding asyncGetHWAddrToInterfaceNameMapping_def by (rule follows_at)
  then have "follows asks (handleHeartbeat V (ret ())
      (restoreLeasesFromLeaseDatabase (nxos_ops V M)) a :: ('j, ('e, 'z) impl_world_scheme, unit) prog)"
    by (intro follows_intros) (simp_all add: restoreLeasesFromLeaseDatabase_def nxos_ops_def)
  then show ?thesis by (simp add: follows_def)
qed

text \<open>
  What polling keeps: the parts of the exporter, the messages, and the requests of the other client;
  and what it adds when the client is the heartbeat's.
\<close>

definition polls :: "http_owner \<Rightarrow> ('e, 'z) impl_world_scheme \<Rightarrow> ('e, 'z) impl_world_scheme \<Rightarrow> bool" where
  "polls k s s' \<longleftrightarrow> same_parts s s' \<and> prefix (logged s) (logged s') \<and>
     prefix (filter (\<lambda>rq. \<not> owned k rq) (posted s)) (filter (\<lambda>rq. \<not> owned k rq) (posted s')) \<and>
     (k = Heartbeat_Service \<longrightarrow> asks s s')"

lemma polls_refl: "polls k s s"
  by (simp add: polls_def asks_def)

lemma polls_trans: "polls k s t \<Longrightarrow> polls k t u \<Longrightarrow> polls k s u"
  unfolding polls_def by (meson prefix_order.trans asks.R_trans same_parts_trans)

lemma polls_run:
  assumes p: "posted s = xs @ rq # ys" and k: "owned k rq"
    and run: "run_request V (handle_response V M cfg) rq rep (s\<lparr>posted := xs @ ys\<rparr>) = (r, t)"
  shows "polls k s t"
proof -
  have "world_le (s\<lparr>posted := xs @ ys\<rparr>) t"
    by (rule followsD [OF grows.follows_run_request [OF grows.follows_handle_response] run])
  moreover have "same_parts s t"
    using followsD [OF serves.follows_run_request [OF serves.follows_handle_response] run]
    by (simp add: serves_def same_parts_def)
  moreover have "asks s t" if "k = Heartbeat_Service"
  proof -
    have h: "rq_handler rq = HeartbeatResponse" using k that by (cases "rq_handler rq") simp_all
    have "asks (s\<lparr>posted := xs @ ys\<rparr>) t"
      by (rule followsD [OF asks.follows_run_request run]) (simp only: h asks_heartbeat)
    then show ?thesis using p by (auto simp: asks_def)
  qed
  ultimately show ?thesis using p k by (auto simp: polls_def world_le_def prefix_def)
qed

lemma poll_returns:
  "\<exists>r s'. poll V M cfg answer k s = Some (r, s') \<and> (r = Ok () \<or> (\<exists>u. r = Stuck u)) \<and> polls k s s'"
proof (induction s rule: poll_induct [of V])
  case (step s)
  show ?case
  proof (cases "next_request k (posted s)")
    case (Some p)
    obtain xs rq ys where p: "p = (xs, rq, ys)" by (cases p)
    obtain r t where run: "run_request V (handle_response V M cfg) rq (answer s rq) (s\<lparr>posted := xs @ ys\<rparr>) = (r, t)" by fastforce
    have posted: "posted s = xs @ rq # ys" "owned k rq" using Some p by (simp_all add: next_request_Some)
    note polls = polls_run [OF posted run]
    show ?thesis
    proof (cases r)
      case (Ok a)
      with reply_step.intros [OF posted(1) run] step.IH obtain r' s' where
        "poll V M cfg answer k t = Some (r', s')" "r' = Ok () \<or> (\<exists>u. r' = Stuck u)" "polls k t s'" by blast
      with Some p run Ok polls show ?thesis by (subst poll.simps) (auto intro: polls_trans)
    qed (use Some p run polls in \<open>subst poll.simps; simp\<close>)+
  next
    case None
    then show ?thesis by (subst poll.simps) (simp add: polls_refl)
  qed
qed

lemma and_then_simps [simp]:
  "m s = None \<Longrightarrow> and_then m n s = None"
  "m s = Some (Ok (), s') \<Longrightarrow> and_then m n s = n s'"
  "m s = Some (Stuck u, s') \<Longrightarrow> and_then m n s = Some (Stuck u, s')"
  by (simp_all add: and_then_def)

text \<open>The parts of the state a stop changes.\<close>

lemma leave_requests_sel [simp]:
  "posted (leave_requests k s) = filter (\<lambda>rq. \<not> owned k rq) (posted s)" "logged (leave_requests k s) = logged s"
  "m_client (leave_requests k s) = m_client s" "hb (leave_requests k s) = hb s"
  by (simp_all add: leave_requests_def)

lemma set_http_client_sel [simp]:
  "posted (set_http_client k c s) = posted s" "logged (set_http_client k c s) = logged s"
  "hb_timer (hb (set_http_client k c s)) = hb_timer (hb s)"
  "http_client_of k' (set_http_client k c s) = (if k' = k then Some c else http_client_of k' s)"
  by (cases k; cases k'; simp)+

lemma same_parts_clients: "same_parts s s' \<Longrightarrow> http_client_of k s' = http_client_of k s"
  by (cases k) (simp_all add: same_parts_def)

text \<open>Stopping a started client, and a stopped one.\<close>

lemma stop_started:
  assumes "http_client_of k s = Some (started_client a)"
  obtains u t where "stop_http_client V M cfg answer k s = Some (Stuck u, t)"
  | t where "polls k s t" "stop_http_client V M cfg answer k s =
      Some (Ok (), set_http_client k (stopped_client a) (leave_requests k t))"
proof -
  obtain r t where t: "poll V M cfg answer k s = Some (r, t)" "r = Ok () \<or> (\<exists>u. r = Stuck u)" "polls k s t"
    using poll_returns by metis
  from t(2) show ?thesis
    using that t(1,3) assms by (auto simp: stop_http_client_def poll_and_stop_def join_threads_def)
qed

lemma stop_stopped:
  "http_client_of k s = Some (stopped_client a) \<Longrightarrow> stop_http_client V M cfg answer k s = None"
  by (simp add: stop_http_client_def join_threads_def and_then_def)

text \<open>
  Unloading destroys running clients; with nothing pending, as the step \<open>life_unload\<close> asks for, their
  destructors return and run no handler.
\<close>

lemma destroy_idle:
  assumes "posted s = []" and "http_client_of k s = Some (started_client a)"
  shows "destroy_client V M cfg answer k s = Some (Ok (), set_http_client k (stopped_client a) s)"
proof -
  have "poll V M cfg answer k s = Some (Ok (), s)" by (subst poll.simps) (simp add: assms(1))
  moreover have "leave_requests k s = s" using assms(1) by (simp add: leave_requests_def)
  ultimately show ?thesis
    using assms(2) by (simp add: destroy_client_def stop_http_client_def poll_and_stop_def join_threads_def)
qed

text \<open>Stopping the service of a started exporter.\<close>

definition stopped_service :: "('e, 'z) impl_world_scheme \<Rightarrow> ('e, 'z) impl_world_scheme \<Rightarrow> bool" where
  "stopped_service s s' \<longleftrightarrow> (\<forall>k. \<exists>a. http_client_of k s' = Some (stopped_client a)) \<and>
     hb_timer (hb s') = Some Cancelled \<and> prefix (logged s) (logged s') \<and>
     (\<forall>rq \<in> set (posted s'). rq_handler rq = NeighborMapping)"

lemma stop_service_cases:
  fixes s :: "('e, 'z) impl_world_scheme"
  assumes mgmt: "http_client_of Management_Client s = Some (started_client a)"
    and beat: "http_client_of Heartbeat_Service s = Some (started_client b)" and timer: "hb_timer (hb s) \<noteq> None"
  obtains u t where "svc_stopService V M cfg answer s = Some (Stuck u, t)"
  | t where "svc_stopService V M cfg answer s = Some (Ok (), t)" "stopped_service s t"
proof (rule stop_started [OF mgmt, of V M cfg answer])
  fix t :: "('e, 'z) impl_world_scheme"
  let ?s1 = "set_http_client Management_Client (stopped_client a) (leave_requests Management_Client t)"
  assume t: "polls Management_Client s t" "stop_http_client V M cfg answer Management_Client s = Some (Ok (), ?s1)"
  have "http_client_of Heartbeat_Service ?s1 = Some (started_client b)"
    using t(1) beat same_parts_clients [of s t Heartbeat_Service] by (simp add: polls_def same_parts_def)
  then show thesis
  proof (rule stop_started [of _ _ _ V M cfg answer])
    fix w :: "('e, 'z) impl_world_scheme"
    let ?s2 = "set_http_client Heartbeat_Service (stopped_client b) (leave_requests Heartbeat_Service w)"
    assume w: "polls Heartbeat_Service ?s1 w" "stop_http_client V M cfg answer Heartbeat_Service ?s1 = Some (Ok (), ?s2)"
    have "hb_timer (hb w) \<noteq> None" using timer t(1) w(1) by (auto simp: polls_def same_parts_def)
    then have "svc_stopService V M cfg answer s = Some (Ok (), ?s2\<lparr>hb := (hb ?s2)\<lparr>hb_timer := Some Cancelled\<rparr>\<rparr>)"
      using t(2) w(2) by (auto simp: svc_stopService_def stopClient_def hb_stopService_def cancel_timer_def)
    moreover have "stopped_service s (?s2\<lparr>hb := (hb ?s2)\<lparr>hb_timer := Some Cancelled\<rparr>\<rparr>)"
      unfolding stopped_service_def
    proof (intro conjI)
      show "\<forall>k. \<exists>a. http_client_of k (?s2\<lparr>hb := (hb ?s2)\<lparr>hb_timer := Some Cancelled\<rparr>\<rparr>) = Some (stopped_client a)"
        using w(1) by (intro allI, case_tac k) (auto simp: polls_def same_parts_def)
      show "prefix (logged s) (logged (?s2\<lparr>hb := (hb ?s2)\<lparr>hb_timer := Some Cancelled\<rparr>\<rparr>))"
        using t(1) w(1) by (auto simp: polls_def intro: prefix_order.trans)
      have "rq_handler rq = NeighborMapping" if "rq \<in> set (posted w)" "owner (rq_handler rq) = Management_Client" for rq
        using that w(1) by (auto simp: polls_def asks_def)
      then show "\<forall>rq \<in> set (posted (?s2\<lparr>hb := (hb ?s2)\<lparr>hb_timer := Some Cancelled\<rparr>\<rparr>)). rq_handler rq = NeighborMapping"
        by simp (metis http_owner.exhaust)
    qed simp
    ultimately show thesis using that(2) by blast
  qed (use that(1) t(2) in \<open>simp add: svc_stopService_def stopClient_def hb_stopService_def\<close>)
qed (use that(1) in \<open>simp add: svc_stopService_def stopClient_def\<close>)

text \<open>What holds in every reachable state with a started service.\<close>

lemma started_parts:
  assumes "exporter_ok V s" and "m_service s" and "mc_httpClient (m_client s) \<noteq> None"
  obtains a where "\<forall>k. http_client_of k s = Some (started_client a)" "hb_timer (hb s) \<noteq> None"
proof
  let ?a = "cp_auth (mc_params (m_client s))"
  have "http_client_of k s = Some (started_client ?a)" for k
    using assms by (cases k) (auto simp: exporter_ok_def service_ok_def Let_def)
  then show "\<forall>k. http_client_of k s = Some (started_client ?a)" ..
  show "hb_timer (hb s) \<noteq> None"
    using assms by (auto simp: exporter_ok_def service_ok_def Let_def)
qed

lemma sample_exporter_ok:
  "exporter_ok (std_env J) sample_state" "m_service sample_state" "mc_httpClient (m_client sample_state) \<noteq> None"
proof -
  show "exporter_ok (std_env J) sample_state"
    using sample_parse [of J]
    by (auto simp: exporter_ok_def service_ok_def Let_def sample_heartbeat_def)
      (simp_all add: sample_client_def std_url_def)
qed (simp_all add: sample_client_def)

section \<open>Properties\<close>

text \<open>C12: stopping the service of a running exporter always returns, whatever the switch answers to the
  requests that are run meanwhile: the handlers cannot keep it busy for ever, and an exception of
  a handler only ends the polling.  Unless a handler runs into undefined behaviour, both HTTP clients
  are stopped and the timer is cancelled afterwards, no message is lost, and no request is left but
  requests for the neighbor table, which the heartbeat's answers posted to the stopped client.\<close>

theorem stop_service_returns:
  assumes "exporter_ok V s" and "m_service s" and "mc_httpClient (m_client s) \<noteq> None"
  shows "\<exists>r s'. svc_stopService V M cfg answer s = Some (r, s') \<and>
    ((\<exists>u. r = Stuck u) \<or> r = Ok () \<and> stopped_service s s')"
proof -
  obtain a where parts: "\<forall>k. http_client_of k s = Some (started_client a)" "hb_timer (hb s) \<noteq> None"
    by (rule started_parts [OF assms])
  show ?thesis
    by (rule stop_service_cases [OF spec [OF parts(1)] spec [OF parts(1)] parts(2), of V M cfg answer]) blast+
qed

lemma stop_service_returns_witness:
  "\<exists>r s'. svc_stopService (std_env (std_json True (\<lambda>s. None))) (list_db []) \<lparr>currentCfg = None\<rparr> (\<lambda>s rq. NoReply HL_Canceled) sample_state =
      Some (r, s') \<and> ((\<exists>u. r = Stuck u) \<or> r = Ok () \<and> stopped_service sample_state s')"
  by (rule stop_service_returns [OF sample_exporter_ok])

text \<open>C40: stopping the exporter itself never returns normally: after its service was stopped, the
  destructors of the HTTP clients stop them again, and wait for threads that are gone.\<close>

theorem stop_exporter_hangs:
  assumes "exporter_ok V s" and "m_service s" and "mc_httpClient (m_client s) \<noteq> None"
  shows "impl_stopService V M cfg answer s = None \<or> (\<exists>u s'. impl_stopService V M cfg answer s = Some (Stuck u, s'))"
proof -
  obtain a where parts: "\<forall>k. http_client_of k s = Some (started_client a)" "hb_timer (hb s) \<noteq> None"
    by (rule started_parts [OF assms])
  show ?thesis
  proof (rule stop_service_cases [OF spec [OF parts(1)] spec [OF parts(1)] parts(2), of V M cfg answer])
    fix t assume t: "svc_stopService V M cfg answer s = Some (Ok (), t)" "stopped_service s t"
    then obtain b where "http_client_of Heartbeat_Service t = Some (stopped_client b)"
      unfolding stopped_service_def by blast
    then have "destroy_client V M cfg answer Heartbeat_Service t = None"
      by (simp add: destroy_client_def stop_stopped del: http_client_of.simps)
    then show ?thesis using t(1) assms(2) by (simp add: impl_stopService_def)
  qed (use assms(2) in \<open>simp add: impl_stopService_def\<close>)
qed

lemma stop_exporter_hangs_witness:
  "impl_stopService (std_env (std_json True (\<lambda>s. None))) (list_db []) \<lparr>currentCfg = None\<rparr> (\<lambda>s rq. NoReply HL_Canceled)
      sample_state = None \<or>
    (\<exists>u s'. impl_stopService (std_env (std_json True (\<lambda>s. None))) (list_db []) \<lparr>currentCfg = None\<rparr>
      (\<lambda>s rq. NoReply HL_Canceled) sample_state = Some (Stuck u, s'))"
  by (rule stop_exporter_hangs [OF sample_exporter_ok])

end
