(* ===== verification/Thread_Pool.thy ===== *)
theory Thread_Pool
  imports Prelude
begin

text \<open>
  The thread pool of \<^verbatim>\<open>NXOSHttpClientImpl\<close> (\<^verbatim>\<open>threadLoop\<close>, \<^verbatim>\<open>setThreadsState\<close>) in
  \<^verbatim>\<open>src/nxos_http_client.cpp\<close> as a transition system.  A step is what one thread does between
  two points where another may run: the body of a critical section of \<^verbatim>\<open>m_mutexThreadPool\<close>, the
  unguarded read of the state, or a return from \<^verbatim>\<open>m_ioService->run()\<close>.  The main thread holds the
  mutex from the start of \<^verbatim>\<open>setThreadsState\<close> to the wait, so the part before the wait is one step.
  A wait on the condition variable is left in any state that satisfies its predicate.

  Lemmas: an invariant on the counters, stopping a started pool always returns, and stopping a
  pool that was stopped before never does.
\<close>

section \<open>State\<close>

datatype thread_state = RUNNING | STOPPED

datatype thread_pc =
    AtLoop \<comment> \<open>before the \<^verbatim>\<open>switch\<close>\<close>
  | SawRunning \<comment> \<open>before the first critical section\<close>
  | InRun \<comment> \<open>in \<^verbatim>\<open>m_ioService->run()\<close>\<close>
  | Returned \<comment> \<open>before the second critical section\<close>
  | SawStopped \<comment> \<open>after the loop\<close>
  | Finished

datatype main_pc = Free | WaitRunning | WaitExited

record pool =
  m_threadPool :: "thread_pc list"
  m_poolSize :: nat
  m_threadsState :: thread_state
  m_runningThreads :: int
  m_exitedThreads :: int
  io_stopped :: bool
  main :: main_pc

definition new_pool :: "nat \<Rightarrow> pool" where
  "new_pool n = \<lparr>m_threadPool = [], m_poolSize = n, m_threadsState = STOPPED, m_runningThreads = 0,
     m_exitedThreads = 0, io_stopped = False, main = Free\<rparr>"

definition set_pc :: "nat \<Rightarrow> thread_pc \<Rightarrow> pool \<Rightarrow> pool" where
  "set_pc i pc p = p\<lparr>m_threadPool := (m_threadPool p)[i := pc]\<rparr>"

section \<open>Steps\<close>

text \<open>\<open>threadLoop\<close>, by thread \<open>i\<close>.  \<^verbatim>\<open>run()\<close> returns once the service is stopped.\<close>

inductive thread_step :: "nat \<Rightarrow> pool \<Rightarrow> pool \<Rightarrow> bool" for i p where
  see_running: "i < length (m_threadPool p) \<Longrightarrow> m_threadPool p ! i = AtLoop \<Longrightarrow> m_threadsState p = RUNNING \<Longrightarrow>
    thread_step i p (set_pc i SawRunning p)"
| see_stopped: "i < length (m_threadPool p) \<Longrightarrow> m_threadPool p ! i = AtLoop \<Longrightarrow> m_threadsState p = STOPPED \<Longrightarrow>
    thread_step i p (set_pc i SawStopped p)"
| count_up: "i < length (m_threadPool p) \<Longrightarrow> m_threadPool p ! i = SawRunning \<Longrightarrow>
    thread_step i p (set_pc i InRun (p\<lparr>m_runningThreads := m_runningThreads p + 1\<rparr>))"
| run_returns: "i < length (m_threadPool p) \<Longrightarrow> m_threadPool p ! i = InRun \<Longrightarrow> io_stopped p \<Longrightarrow>
    thread_step i p (set_pc i Returned p)"
| count_down: "i < length (m_threadPool p) \<Longrightarrow> m_threadPool p ! i = Returned \<Longrightarrow>
    thread_step i p (set_pc i AtLoop (p\<lparr>m_runningThreads := m_runningThreads p - 1\<rparr>))"
| exit_thread: "i < length (m_threadPool p) \<Longrightarrow> m_threadPool p ! i = SawStopped \<Longrightarrow>
    thread_step i p (set_pc i Finished (p\<lparr>m_exitedThreads := m_exitedThreads p + 1\<rparr>))"

text \<open>An exception of a handler leaves \<^verbatim>\<open>run()\<close> at any time, and is swallowed.\<close>

inductive handler_throws :: "nat \<Rightarrow> pool \<Rightarrow> pool \<Rightarrow> bool" for i p where
  "i < length (m_threadPool p) \<Longrightarrow> m_threadPool p ! i = InRun \<Longrightarrow> handler_throws i p (set_pc i Returned p)"

text \<open>\<^verbatim>\<open>setThreadsState\<close> up to the wait, and from the wait to the return.\<close>

definition begin_running :: "pool \<Rightarrow> pool" where
  "begin_running p = p\<lparr>m_threadsState := RUNNING, io_stopped := False,
     m_threadPool := m_threadPool p @ replicate (m_poolSize p - length (m_threadPool p)) AtLoop,
     main := WaitRunning\<rparr>"

definition end_running :: "pool \<Rightarrow> pool" where
  "end_running p = p\<lparr>m_exitedThreads := 0, main := Free\<rparr>"

definition begin_stopped :: "pool \<Rightarrow> pool" where
  "begin_stopped p = p\<lparr>m_threadsState := STOPPED, io_stopped := True, main := WaitExited\<rparr>"

definition end_stopped :: "pool \<Rightarrow> pool" where
  "end_stopped p = p\<lparr>m_threadPool := [], main := Free\<rparr>"

inductive main_step :: "pool \<Rightarrow> pool \<Rightarrow> bool" for p where
  start_pool: "main p = Free \<Longrightarrow> main_step p (begin_running p)"
| started_pool: "main p = WaitRunning \<Longrightarrow> m_runningThreads p = int (length (m_threadPool p)) \<Longrightarrow>
    main_step p (end_running p)"
| stop_pool: "main p = Free \<Longrightarrow> main_step p (begin_stopped p)"
| stopped_pool: "main p = WaitExited \<Longrightarrow> m_exitedThreads p = int (length (m_threadPool p)) \<Longrightarrow>
    list_all (\<lambda>t. t = Finished) (m_threadPool p) \<Longrightarrow> main_step p (end_stopped p)"

definition pool_step :: "pool \<Rightarrow> pool \<Rightarrow> bool" where
  "pool_step p p' \<longleftrightarrow> main_step p p' \<or> (\<exists>i. thread_step i p p') \<or> (\<exists>i. handler_throws i p p')"

text \<open>The steps that do not need a handler to throw.\<close>

definition quiet_step :: "pool \<Rightarrow> pool \<Rightarrow> bool" where
  "quiet_step p p' \<longleftrightarrow> main_step p p' \<or> (\<exists>i. thread_step i p p')"

lemma quiet_pool_step: "quiet_step p p' \<Longrightarrow> pool_step p p'"
  by (auto simp: quiet_step_def pool_step_def)

inductive_cases thread_stepE: "thread_step i p p'"
inductive_cases handler_throwsE: "handler_throws i p p'"
inductive_cases main_stepE: "main_step p p'"

section \<open>Counting threads\<close>

definition threads_at :: "thread_pc set \<Rightarrow> pool \<Rightarrow> int" where
  "threads_at A p = int (length (filter (\<lambda>t. t \<in> A) (m_threadPool p)))"

lemma count_update:
  "i < length xs \<Longrightarrow> int (length (filter P (xs[i := x]))) =
    int (length (filter P xs)) + (if P x then 1 else 0) - (if P (xs ! i) then 1 else 0)"
proof (induction xs arbitrary: i)
  case (Cons y ys)
  show ?case
  proof (cases i)
    case (Suc k)
    with Cons.IH [of k] Cons.prems show ?thesis by auto
  qed simp
qed simp

lemma threads_at_set_pc:
  "i < length (m_threadPool p) \<Longrightarrow> threads_at A (set_pc i pc p) =
    threads_at A p + (if pc \<in> A then 1 else 0) - (if m_threadPool p ! i \<in> A then 1 else 0)"
  unfolding threads_at_def set_pc_def pool.select_convs pool.update_convs
  by (simp add: count_update)

lemma threads_at_local [simp]:
  "threads_at A (p\<lparr>m_runningThreads := r\<rparr>) = threads_at A p"
  "threads_at A (p\<lparr>m_exitedThreads := e\<rparr>) = threads_at A p"
  by (simp_all add: threads_at_def)

lemma set_pc_sel [simp]:
  "main (set_pc i pc p) = main p" "m_threadsState (set_pc i pc p) = m_threadsState p"
  "m_runningThreads (set_pc i pc p) = m_runningThreads p" "m_exitedThreads (set_pc i pc p) = m_exitedThreads p"
  "m_poolSize (set_pc i pc p) = m_poolSize p" "io_stopped (set_pc i pc p) = io_stopped p"
  "length (m_threadPool (set_pc i pc p)) = length (m_threadPool p)"
  by (simp_all add: set_pc_def)

lemma threads_at_none: "threads_at A p = 0 \<longleftrightarrow> (\<forall>t \<in> set (m_threadPool p). t \<notin> A)"
  by (auto simp: threads_at_def filter_empty_conv)

lemma threads_at_nonneg [simp]: "0 \<le> threads_at A p"
  by (simp add: threads_at_def)

lemma threads_at_all: "threads_at A p = int (length (m_threadPool p)) \<longleftrightarrow> (\<forall>t \<in> set (m_threadPool p). t \<in> A)"
proof -
  have "length (filter (\<lambda>t. t \<in> A) xs) = length xs \<longleftrightarrow> (\<forall>t \<in> set xs. t \<in> A)" for xs :: "thread_pc list"
    using length_filter_less [of _ xs "\<lambda>t. t \<in> A"] by (auto simp: filter_id_conv) blast
  then show ?thesis by (simp add: threads_at_def)
qed

section \<open>Invariant\<close>

text \<open>
  The running counter counts the threads between the two critical sections; no thread leaves its
  loop while the state is \<open>RUNNING\<close>; the exit counter is exact from the end of a start on.
\<close>

definition pool_inv :: "pool \<Rightarrow> bool" where
  "pool_inv p \<longleftrightarrow> m_runningThreads p = threads_at {InRun, Returned} p \<and>
     (m_threadsState p = RUNNING \<longrightarrow> threads_at {SawStopped, Finished} p = 0) \<and>
     (main p = WaitRunning \<longrightarrow> m_threadsState p = RUNNING) \<and>
     (main p = WaitExited \<longrightarrow> m_threadsState p = STOPPED \<and> io_stopped p) \<and>
     (main p = Free \<and> m_threadsState p = STOPPED \<longrightarrow> m_threadPool p = []) \<and>
     (main p = Free \<and> m_threadsState p = RUNNING \<longrightarrow> m_exitedThreads p = 0) \<and>
     (main p = WaitExited \<and> m_threadPool p \<noteq> [] \<longrightarrow> m_exitedThreads p = threads_at {Finished} p)"

lemma pool_inv_new: "pool_inv (new_pool n)"
  by (simp add: pool_inv_def new_pool_def threads_at_def)

lemma thread_step_inv:
  assumes "thread_step i p p'" and "pool_inv p"
  shows "pool_inv p'"
  using assms(1)
proof cases
  case see_running
  with assms(2) show ?thesis by (auto simp: pool_inv_def threads_at_set_pc)
next
  case see_stopped
  with assms(2) show ?thesis by (auto simp: pool_inv_def threads_at_set_pc)
next
  case count_up
  with assms(2) show ?thesis by (auto simp: pool_inv_def threads_at_set_pc)
next
  case run_returns
  with assms(2) show ?thesis by (auto simp: pool_inv_def threads_at_set_pc)
next
  case count_down
  with assms(2) show ?thesis by (auto simp: pool_inv_def threads_at_set_pc)
next
  case exit_thread
  then have "threads_at {SawStopped, Finished} p \<noteq> 0"
    unfolding threads_at_none using nth_mem by fastforce
  then have "m_threadsState p = STOPPED"
    using assms(2) by (cases "m_threadsState p") (auto simp: pool_inv_def)
  moreover from this have "main p = WaitExited"
    using exit_thread assms(2) by (cases "main p") (auto simp: pool_inv_def)
  ultimately show ?thesis
    using exit_thread assms(2) by (auto simp: pool_inv_def threads_at_set_pc)
qed

lemma handler_throws_inv: "handler_throws i p p' \<Longrightarrow> pool_inv p \<Longrightarrow> pool_inv p'"
  by (erule handler_throwsE) (auto simp: pool_inv_def threads_at_set_pc)

lemma main_step_inv:
  assumes "main_step p p'" and "pool_inv p"
  shows "pool_inv p'"
  using assms(1)
proof cases
  case start_pool
  with assms(2) show ?thesis
    by (cases "m_threadsState p") (auto simp: pool_inv_def begin_running_def threads_at_def)
next
  case started_pool
  with assms(2) show ?thesis by (auto simp: pool_inv_def end_running_def threads_at_def)
next
  case stop_pool
  have "m_threadsState p = RUNNING \<Longrightarrow> threads_at {Finished} p = 0"
    using assms(2) by (auto simp: pool_inv_def threads_at_none)
  with stop_pool assms(2) show ?thesis
    by (cases "m_threadsState p") (auto simp: pool_inv_def begin_stopped_def threads_at_def)
next
  case stopped_pool
  then have "threads_at {InRun, Returned} p = 0"
    by (auto simp: threads_at_none list_all_iff)
  with stopped_pool assms(2) show ?thesis by (auto simp: pool_inv_def end_stopped_def threads_at_def)
qed

lemma pool_inv_reachable: "pool_step\<^sup>*\<^sup>* (new_pool n) p \<Longrightarrow> pool_inv p"
  by (induction rule: rtranclp_induct)
    (auto simp: pool_inv_new pool_step_def intro: thread_step_inv main_step_inv handler_throws_inv)

section \<open>Stopping\<close>

text \<open>How far a thread is from having finished, once the state is \<open>STOPPED\<close>.\<close>

fun distance :: "thread_pc \<Rightarrow> nat" where
  "distance SawRunning = 5"
| "distance InRun = 4"
| "distance Returned = 3"
| "distance AtLoop = 2"
| "distance SawStopped = 1"
| "distance Finished = 0"

definition stop_measure :: "pool \<Rightarrow> nat" where
  "stop_measure p = (if main p = WaitExited then Suc (sum_list (map distance (m_threadPool p))) else 0)"

lemma sum_list_update_less:
  fixes f :: "'a \<Rightarrow> nat"
  shows "i < length xs \<Longrightarrow> f x < f (xs ! i) \<Longrightarrow> sum_list (map f (xs[i := x])) < sum_list (map f xs)"
proof (induction xs arbitrary: i)
  case (Cons y ys)
  then show ?case by (cases i) auto
qed simp

lemma stop_measure_decreases:
  assumes "pool_step p p'" and "main p = WaitExited" and "m_threadsState p = STOPPED"
  shows "stop_measure p' < stop_measure p"
proof -
  have "stop_measure p' < stop_measure p" if "thread_step i p p'" for i
    using that assms(2,3)
    by cases (auto simp: stop_measure_def set_pc_def intro!: sum_list_update_less)
  moreover have "stop_measure p' < stop_measure p" if "handler_throws i p p'" for i
    using that assms(2) by cases (auto simp: stop_measure_def set_pc_def intro!: sum_list_update_less)
  moreover have "stop_measure p' < stop_measure p" if "main_step p p'"
    using that assms(2) by cases (auto simp: stop_measure_def end_stopped_def)
  ultimately show ?thesis using assms(1) by (auto simp: pool_step_def)
qed

lemma stop_progress:
  assumes "pool_inv p" and "main p = WaitExited" and "m_threadPool p \<noteq> []"
  shows "\<exists>p'. quiet_step p p'"
proof (cases "\<forall>t \<in> set (m_threadPool p). t = Finished")
  case True
  then have "threads_at {Finished} p = int (length (m_threadPool p))" by (simp add: threads_at_all)
  with assms True have "main_step p (end_stopped p)"
    by (intro stopped_pool) (auto simp: pool_inv_def list_all_iff)
  then show ?thesis by (auto simp: quiet_step_def)
next
  case False
  then obtain i where i: "i < length (m_threadPool p)" "m_threadPool p ! i \<noteq> Finished"
    by (auto simp: in_set_conv_nth)
  have st: "m_threadsState p = STOPPED" "io_stopped p" using assms by (simp_all add: pool_inv_def)
  have "\<exists>p'. thread_step i p p'"
  proof (cases "m_threadPool p ! i")
    case AtLoop
    with i st see_stopped show ?thesis by blast
  next
    case SawRunning
    with i count_up show ?thesis by blast
  next
    case InRun
    with i st run_returns show ?thesis by blast
  next
    case Returned
    with i count_down show ?thesis by blast
  next
    case SawStopped
    with i exit_thread show ?thesis by blast
  qed (use i in simp)
  then show ?thesis by (auto simp: quiet_step_def)
qed

text \<open>A step out of the wait is the last one of a stop.\<close>

lemma stop_step_cases:
  assumes "pool_step p p'" and "main p = WaitExited" and "m_threadPool p \<noteq> []"
  shows "(main p' = WaitExited \<and> m_threadPool p' \<noteq> []) \<or> (main p' = Free \<and> m_threadPool p' = [])"
proof -
  have "main p' = WaitExited \<and> m_threadPool p' \<noteq> []" if "thread_step i p p'" for i
    using that assms(2,3) by cases (auto simp: set_pc_def)
  moreover have "main p' = WaitExited \<and> m_threadPool p' \<noteq> []" if "handler_throws i p p'" for i
    using that assms(2,3) by cases (auto simp: set_pc_def)
  moreover have "main p' = Free \<and> m_threadPool p' = []" if "main_step p p'"
    using that assms(2) by cases (auto simp: end_stopped_def)
  ultimately show ?thesis using assms(1) by (auto simp: pool_step_def)
qed

lemma stop_completes:
  assumes "pool_inv p" and "main p = WaitExited" and "m_threadPool p \<noteq> []"
  shows "\<exists>p'. quiet_step\<^sup>*\<^sup>* p p' \<and> main p' = Free \<and> m_threadPool p' = []"
  using assms
proof (induction "stop_measure p" arbitrary: p rule: less_induct)
  case less
  obtain p1 where p1: "quiet_step p p1" using stop_progress less.prems by blast
  have inv1: "pool_inv p1"
    using p1 less.prems(1) by (auto simp: quiet_step_def intro: thread_step_inv main_step_inv)
  have st: "m_threadsState p = STOPPED" using less.prems by (simp add: pool_inv_def)
  from stop_step_cases [OF quiet_pool_step [OF p1] less.prems(2,3)] show ?case
  proof
    assume "main p1 = WaitExited \<and> m_threadPool p1 \<noteq> []"
    with less.hyps [OF stop_measure_decreases [OF quiet_pool_step [OF p1] less.prems(2) st] inv1]
    show ?thesis using p1 by (meson converse_rtranclp_into_rtranclp)
  next
    assume "main p1 = Free \<and> m_threadPool p1 = []"
    with p1 show ?thesis by blast
  qed
qed

section \<open>Properties\<close>

text \<open>C13: stopping a pool with threads always comes to an end, however the threads are scheduled: in every
  reachable state in which the main thread waits for them some step is possible that does not depend
  on a handler throwing, every step brings the stop closer to its end, and the stop can return
  without an exception, with all threads joined.\<close>

theorem stop_always_returns:
  assumes "pool_step\<^sup>*\<^sup>* (new_pool n) p" and "main p = WaitExited" and "m_threadPool p \<noteq> []"
  shows "(\<exists>p'. quiet_step p p') \<and> (\<forall>p'. pool_step p p' \<longrightarrow> stop_measure p' < stop_measure p) \<and>
    (\<exists>p'. quiet_step\<^sup>*\<^sup>* p p' \<and> main p' = Free \<and> m_threadPool p' = [])"
proof -
  have inv: "pool_inv p" using assms(1) by (rule pool_inv_reachable)
  then have "m_threadsState p = STOPPED" using assms(2) by (simp add: pool_inv_def)
  then show ?thesis
    using stop_progress [OF inv assms(2,3)] stop_measure_decreases [OF _ assms(2)] stop_completes [OF inv assms(2,3)]
    by blast
qed

lemma one_thread_started:
  "pool_step\<^sup>*\<^sup>* (new_pool 1) (\<lparr>m_threadPool = [InRun], m_poolSize = 1, m_threadsState = RUNNING,
     m_runningThreads = 1, m_exitedThreads = 0, io_stopped = False, main = Free\<rparr>)"
proof -
  let ?p1 = "\<lparr>m_threadPool = [AtLoop], m_poolSize = 1, m_threadsState = RUNNING, m_runningThreads = 0,
     m_exitedThreads = 0, io_stopped = False, main = WaitRunning\<rparr>"
  have "main_step (new_pool 1) (begin_running (new_pool 1))" by (rule start_pool) (simp add: new_pool_def)
  then have 1: "pool_step (new_pool 1) ?p1" by (simp add: pool_step_def begin_running_def new_pool_def)
  have "thread_step 0 ?p1 (set_pc 0 SawRunning ?p1)" by (rule see_running) simp_all
  then have 2: "pool_step ?p1 (?p1\<lparr>m_threadPool := [SawRunning]\<rparr>)" by (auto simp: pool_step_def set_pc_def)
  have "thread_step 0 (?p1\<lparr>m_threadPool := [SawRunning]\<rparr>)
      (set_pc 0 InRun (?p1\<lparr>m_threadPool := [SawRunning]\<rparr>\<lparr>m_runningThreads := m_runningThreads (?p1\<lparr>m_threadPool := [SawRunning]\<rparr>) + 1\<rparr>))"
    by (rule count_up) simp_all
  then have 3: "pool_step (?p1\<lparr>m_threadPool := [SawRunning]\<rparr>) (?p1\<lparr>m_threadPool := [InRun], m_runningThreads := 1\<rparr>)"
    by (auto simp: pool_step_def set_pc_def)
  have "main_step (?p1\<lparr>m_threadPool := [InRun], m_runningThreads := 1\<rparr>) (end_running (?p1\<lparr>m_threadPool := [InRun], m_runningThreads := 1\<rparr>))"
    by (rule started_pool) simp_all
  then have 4: "pool_step (?p1\<lparr>m_threadPool := [InRun], m_runningThreads := 1\<rparr>)
      (?p1\<lparr>m_threadPool := [InRun], m_runningThreads := 1, m_exitedThreads := 0, main := Free\<rparr>)"
    by (auto simp: pool_step_def end_running_def)
  show ?thesis
    using rtranclp.rtrancl_into_rtrancl [OF rtranclp.rtrancl_into_rtrancl [OF rtranclp.rtrancl_into_rtrancl
        [OF r_into_rtranclp [of pool_step, OF 1] 2] 3] 4] by simp
qed

lemma one_thread_stopping:
  "pool_step\<^sup>*\<^sup>* (new_pool 1) (\<lparr>m_threadPool = [InRun], m_poolSize = 1, m_threadsState = STOPPED,
     m_runningThreads = 1, m_exitedThreads = 0, io_stopped = True, main = WaitExited\<rparr>)"
proof -
  let ?p = "\<lparr>m_threadPool = [InRun], m_poolSize = 1, m_threadsState = RUNNING,
     m_runningThreads = 1, m_exitedThreads = 0, io_stopped = False, main = Free\<rparr>"
  have "main_step ?p (begin_stopped ?p)" by (rule stop_pool) simp
  then have "pool_step ?p (begin_stopped ?p)" by (simp add: pool_step_def)
  from rtranclp.rtrancl_into_rtrancl [OF one_thread_started this] show ?thesis
    by (simp add: begin_stopped_def)
qed

lemma stop_always_returns_witness:
  "\<exists>p'. quiet_step\<^sup>*\<^sup>* (\<lparr>m_threadPool = [InRun], m_poolSize = 1, m_threadsState = STOPPED,
     m_runningThreads = 1, m_exitedThreads = 0, io_stopped = True, main = WaitExited\<rparr>) p' \<and> main p' = Free"
  using stop_always_returns [OF one_thread_stopping] by auto

text \<open>C39: a pool that was started and stopped blocks its owner for ever when it is stopped a second time,
  as the destructor does after \<open>stopClient\<close>: the exit counter is only reset by a start, so the
  predicate of the wait is false, and no thread is left to change it.\<close>

theorem second_stop_hangs:
  assumes "main p = WaitExited" and "pool_step p p1" and "main p1 = Free" and "m_threadPool p \<noteq> []"
  shows "main_step p1 (begin_stopped p1) \<and> (\<nexists>p'. pool_step (begin_stopped p1) p')"
proof -
  have "\<not> thread_step i p p1" for i
  proof
    assume "thread_step i p p1"
    then show False using assms(1,3) by cases simp_all
  qed
  moreover have "\<not> handler_throws i p p1" for i
    using assms(1,3) by (auto elim!: handler_throwsE)
  ultimately have "main_step p p1" using assms(2) by (auto simp: pool_step_def)
  then have p1: "p1 = end_stopped p" using assms(1) by cases simp_all
  moreover have "m_exitedThreads p = int (length (m_threadPool p))"
    using \<open>main_step p p1\<close> assms(1) by cases simp_all
  ultimately have "m_threadPool p1 = []" and "m_exitedThreads p1 \<noteq> 0"
    using assms(4) by (auto simp: end_stopped_def)
  then have "\<nexists>p'. pool_step (begin_stopped p1) p'"
    by (auto simp: pool_step_def begin_stopped_def elim!: thread_stepE handler_throwsE main_stepE)
  with stop_pool [OF assms(3)] show ?thesis by blast
qed

lemma second_stop_hangs_witness:
  "\<nexists>p'. pool_step (begin_stopped (end_stopped \<lparr>m_threadPool = [Finished], m_poolSize = 1, m_threadsState = STOPPED,
     m_runningThreads = 0, m_exitedThreads = 1, io_stopped = True, main = WaitExited\<rparr>)) p'"
proof -
  let ?p = "\<lparr>m_threadPool = [Finished], m_poolSize = 1, m_threadsState = STOPPED,
     m_runningThreads = 0, m_exitedThreads = 1, io_stopped = True, main = WaitExited\<rparr>"
  have "main_step ?p (end_stopped ?p)" by (rule stopped_pool) simp_all
  then have step: "pool_step ?p (end_stopped ?p)" by (simp add: pool_step_def)
  have free: "main (end_stopped ?p) = Free" by (simp add: end_stopped_def)
  from second_stop_hangs [OF _ step free] show ?thesis by simp
qed

end
