(* ===== verification/Pool_Client.thy ===== *)
theory Pool_Client
  imports Thread_Pool Http_Client
begin

text \<open>
  The counters an \<open>http_client\<close> keeps between two calls and the thread pool with its steps: a start
  and a stop of the pool do to them what \<open>start_threads\<close> and \<open>stop_threads\<close> say, however the
  threads are scheduled while the caller waits.
\<close>

text \<open>The pool of a client between two calls.\<close>

definition pool_of :: "http_client \<Rightarrow> pool \<Rightarrow> bool" where
  "pool_of c p \<longleftrightarrow> main p = Free \<and> length (m_threadPool p) = pool_threads c \<and>
     m_exitedThreads p = int (pool_exited c) \<and> io_stopped p = pool_stopped c"

definition threads_run :: "pool \<Rightarrow> pool \<Rightarrow> bool" where
  "threads_run p q \<longleftrightarrow> (\<exists>i. thread_step i p q \<or> handler_throws i p q)"

text \<open>What the threads leave alone.\<close>

lemma threads_run_keep:
  "threads_run\<^sup>*\<^sup>* p q \<Longrightarrow> main q = main p \<and> length (m_threadPool q) = length (m_threadPool p) \<and>
    io_stopped q = io_stopped p \<and> (m_threadPool p = [] \<longrightarrow> m_exitedThreads q = m_exitedThreads p)"
proof (induction rule: rtranclp_induct)
  case (step q r)
  from step.hyps(2) obtain i where "thread_step i q r \<or> handler_throws i q r" by (auto simp: threads_run_def)
  then show ?case using step.IH by (auto simp: set_pc_def elim!: thread_stepE handler_throwsE)
qed simp

lemma threads_run_inv: "threads_run\<^sup>*\<^sup>* p q \<Longrightarrow> pool_inv p \<Longrightarrow> pool_inv q"
  by (induction rule: rtranclp_induct) (auto simp: threads_run_def intro: thread_step_inv handler_throws_inv)

lemma reachable_size: "pool_step\<^sup>*\<^sup>* (new_pool n) p \<Longrightarrow> m_poolSize p = n"
proof (induction rule: rtranclp_induct)
  case (step p q)
  have "m_poolSize q = m_poolSize p" if "thread_step i p q" for i
    using that by cases (simp_all add: set_pc_def)
  moreover have "m_poolSize q = m_poolSize p" if "handler_throws i p q" for i
    using that by cases (simp_all add: set_pc_def)
  moreover have "m_poolSize q = m_poolSize p" if "main_step p q"
    using that by cases (simp_all add: begin_running_def end_running_def begin_stopped_def end_stopped_def)
  ultimately show ?case using step by (auto simp: pool_step_def)
qed (simp add: new_pool_def)

lemma start_refines:
  assumes "pool_of c p" and "m_poolSize p = default_pool_size"
    and "threads_run\<^sup>*\<^sup>* (begin_running p) q" and "main_step q q'"
  shows "pool_of (start_threads c) q'"
  using assms(4)
proof cases
  case started_pool
  then show ?thesis
    using assms(1,2) threads_run_keep [OF assms(3)]
    by (auto simp: pool_of_def start_threads_def begin_running_def end_running_def)
qed (use threads_run_keep [OF assms(3)] in \<open>simp_all add: begin_running_def\<close>)

lemma stop_refines:
  assumes "pool_of c p" and "pool_inv p"
    and "threads_run\<^sup>*\<^sup>* (begin_stopped p) q" and "main_step q q'"
  shows "\<exists>c'. stop_threads c = Some c' \<and> pool_of c' q'"
  using assms(4)
proof cases
  case stopped_pool
  note keep = threads_run_keep [OF assms(3)]
  have free: "main p = Free" using assms(1) by (simp add: pool_of_def)
  then have "main_step p (begin_stopped p)" by (rule stop_pool)
  then have inv: "pool_inv q" using main_step_inv threads_run_inv assms(2,3) by blast
  have exited: "m_exitedThreads q = int (length (m_threadPool p))"
    using stopped_pool(3) keep by (simp add: begin_stopped_def)
  have "pool_exited c = 0"
  proof (cases "m_threadPool p = []")
    case True
    then have "m_exitedThreads p = 0" using exited keep by (simp add: begin_stopped_def)
    then show ?thesis using assms(1) by (simp add: pool_of_def)
  next
    case False
    then have "m_threadsState p = RUNNING" using assms(2) free by (cases "m_threadsState p") (auto simp: pool_inv_def)
    then show ?thesis using assms(1,2) free by (simp add: pool_of_def pool_inv_def)
  qed
  then show ?thesis
    using stopped_pool(1) assms(1) keep exited
    by (auto simp: stop_threads_def pool_of_def end_stopped_def begin_stopped_def)
qed (use threads_run_keep [OF assms(3)] in \<open>simp_all add: begin_stopped_def\<close>)

section \<open>Properties\<close>

text \<open>C14: the counters the model of an HTTP client keeps between two calls are those of its thread pool:
  from any state of the pool between two calls, a start that returns leaves the pool as
  \<open>start_threads\<close> says, and a stop that returns as \<open>stop_threads\<close> says, whatever the threads did
  while the caller waited.\<close>

theorem pool_calls_refined:
  assumes "pool_step\<^sup>*\<^sup>* (new_pool default_pool_size) p" and "pool_of c p"
  shows "(\<forall>q q'. threads_run\<^sup>*\<^sup>* (begin_running p) q \<and> main_step q q' \<longrightarrow> pool_of (start_threads c) q') \<and>
    (\<forall>q q'. threads_run\<^sup>*\<^sup>* (begin_stopped p) q \<and> main_step q q' \<longrightarrow>
      (\<exists>c'. stop_threads c = Some c' \<and> pool_of c' q'))"
  using start_refines [OF assms(2) reachable_size [OF assms(1)]]
    stop_refines [OF assms(2) pool_inv_reachable [OF assms(1)]] by blast

lemma pool_calls_refined_witness:
  "\<exists>c'. stop_threads new_http_client = Some c' \<and> pool_of c' (end_stopped (begin_stopped (new_pool default_pool_size)))"
proof -
  have new: "pool_of new_http_client (new_pool default_pool_size)"
    by (simp add: pool_of_def new_http_client_def new_pool_def)
  have "main_step (begin_stopped (new_pool default_pool_size)) (end_stopped (begin_stopped (new_pool default_pool_size)))"
    by (rule stopped_pool) (simp_all add: begin_stopped_def new_pool_def)
  with pool_calls_refined [OF rtranclp.rtrancl_refl new] show ?thesis by blast
qed

end
