(* ===== verification/Event_Queue.thy ===== *)
theory Event_Queue
  imports Prelude
begin

text \<open>
  \<^verbatim>\<open>EventQueue\<close> of \<^verbatim>\<open>src/event_queue.cpp\<close>, which no other part of the program uses.  The
  overload for temporaries drops the event, and \<^verbatim>\<open>popEvent\<close> has no return statement, which is
  undefined behaviour for a function with a result.
\<close>

datatype event_item = EventItem

definition pushEvent :: "event_item \<Rightarrow> ('j, event_item list, unit) prog" where
  "pushEvent event m_items = (Ok (), event # m_items)"

definition pushEvent_move :: "event_item \<Rightarrow> ('j, event_item list, unit) prog" where
  "pushEvent_move event m_items = (Ok (), m_items)"

definition popEvent :: "('j, event_item list, event_item) prog" where
  "popEvent m_items = (Stuck NoReturn, m_items)"

text \<open>An event is queued exactly when it is pushed from a variable.\<close>

lemma queued_events:
  "snd (forM (\<lambda>(moved, e). if moved then pushEvent_move e else pushEvent e) es q) =
    rev (map snd (filter (\<lambda>(moved, e). \<not> moved) es)) @ q"
  by (induction es arbitrary: q) (auto simp: pushEvent_def pushEvent_move_def mseq_def mbind_def)

end
