(* ===== verification/Post_Request.thy ===== *)
theory Post_Request
  imports Kea_Lib
begin

text \<open>
  \<^verbatim>\<open>PostHttpRequestJsonRpc\<close> and \<^verbatim>\<open>HttpResponseJsonRpc\<close> of
  \<^verbatim>\<open>src/post_request_jsonrpc.cpp\<close>, Kea HTTP messages with a JSON body; the exporter itself
  sends its requests with another library.  The base classes are the parameter \<open>http_lib\<close>.
  Lemmas: what a message returns after its body was set, and after it was cleared.
\<close>

record 'e http_message =
  created :: bool
  finalized :: bool
  body_text :: string \<comment> \<open>\<^verbatim>\<open>context_->body_\<close>\<close>
  headers :: "(string \<times> string) list" \<comment> \<open>\<^verbatim>\<open>context_->headers_\<close>\<close>
  required :: "(string \<times> string) list"
  remote :: string
  m_json :: "'e option"

record ('j, 'e) http_lib =
  hl_create :: "'e http_message \<Rightarrow> ('j, 'e http_message) outcome"
  hl_reset :: "'e http_message \<Rightarrow> 'e http_message"
  hl_set_string :: "'e \<Rightarrow> string \<Rightarrow> string \<Rightarrow> ('j, 'e) outcome" \<comment> \<open>\<^verbatim>\<open>set(key, Element::create(string))\<close>\<close>
  hl_map :: "(string \<times> (uint64 + string)) list \<Rightarrow> 'e" \<comment> \<open>a map element of integers and strings\<close>
  hl_status_text :: "nat \<Rightarrow> string"

text \<open>The base class promises that \<^verbatim>\<open>create\<close> keeps the body and the fields of the derived class.\<close>

locale message_base =
  fixes H :: "('j, 'e) http_lib"
  assumes create_keeps: "hl_create H m = Ok m' \<Longrightarrow>
      created m' \<and> body_text m' = body_text m \<and> remote m' = remote m \<and> m_json m' = m_json m"

definition json_rpc_type :: "string \<times> string" where
  "json_rpc_type = (''Content-Type'', ''application/json-rpc'')"

definition new_message :: "'e http_message" where
  "new_message = \<lparr>created = False, finalized = False, body_text = [], headers = [], required = [],
     remote = [], m_json = None\<rparr>"

definition checkFinalized :: "'e http_message \<Rightarrow> ('j, unit) outcome" where
  "checkFinalized m = (if finalized m then Ok () else Throw (LibraryError ''message not finalized''))"

text \<open>\<^verbatim>\<open>catch (const std::exception& ex)\<close> that rethrows with a prefix.\<close>

definition rethrow :: "(string \<Rightarrow> 'j exn) \<Rightarrow> string \<Rightarrow> ('j, 'a) outcome \<Rightarrow> ('j, 'a) outcome" where
  "rethrow cls msg r = (case r of Throw ex \<Rightarrow> Throw (cls (msg @ what ex)) | _ \<Rightarrow> r)"

section \<open>The request\<close>

definition new_request :: "'e http_message" where
  "new_request = new_message\<lparr>required := [json_rpc_type]\<rparr>"

definition new_request_with :: "'e http_message \<Rightarrow> 'e http_message" where
  "new_request_with base = base\<lparr>required := required base @ [json_rpc_type], headers := headers base @ [json_rpc_type]\<rparr>"

definition req_parseBodyAsJson ::
    "('j, 'e) elem_lib \<Rightarrow> ('j, 'e) http_lib \<Rightarrow> 'e http_message \<Rightarrow> ('j, 'e http_message) outcome" where
  "req_parseBodyAsJson L H m =
     rethrow HttpRequestJsonRpcError ''unable to parse the body of the HTTP request: ''
       (if m_json m = None \<and> body_text m \<noteq> [] then
          rbind (e_fromJSON L (body_text m)) (\<lambda>json.
          rmap (\<lambda>json. m\<lparr>m_json := Some json\<rparr>)
            (if remote m \<noteq> [] \<and> e_type L json = E_map
             then hl_set_string H json ''remote-address'' (remote m) else Ok json))
        else Ok m)"

definition req_finalize ::
    "('j, 'e) elem_lib \<Rightarrow> ('j, 'e) http_lib \<Rightarrow> 'e http_message \<Rightarrow> ('j, 'e http_message) outcome" where
  "req_finalize L H m =
     rbind (if created m then Ok m else hl_create H m) (\<lambda>m.
     rmap (\<lambda>m. m\<lparr>finalized := True\<rparr>) (req_parseBodyAsJson L H m))"

definition req_reset :: "('j, 'e) http_lib \<Rightarrow> 'e http_message \<Rightarrow> 'e http_message" where
  "req_reset H m = (hl_reset H m)\<lparr>m_json := None\<rparr>"

definition req_getBodyAsJson :: "'e http_message \<Rightarrow> ('j, 'e option) outcome" where
  "req_getBodyAsJson m = rmap (\<lambda>_. m_json m) (checkFinalized m)"

definition req_setBodyAsJson :: "('j, 'e) elem_lib \<Rightarrow> 'e option \<Rightarrow> 'e http_message \<Rightarrow> 'e http_message" where
  "req_setBodyAsJson L body m = (case body of
     Some b \<Rightarrow> m\<lparr>body_text := e_text L b, m_json := Some b\<rparr>
   | None \<Rightarrow> m\<lparr>body_text := []\<rparr>)"

text \<open>The lookup of a member, the same in both classes.\<close>

definition member_of :: "('j, 'e) elem_lib \<Rightarrow> string \<Rightarrow> 'e option \<Rightarrow> ('j, 'e option) outcome" where
  "member_of L element_name body = (case body of
     None \<Rightarrow> Ok None
   | Some b \<Rightarrow> rmap (\<lambda>map_value. map_value element_name) (e_mapValue L b))"

definition req_getJsonElement ::
    "('j, 'e) elem_lib \<Rightarrow> string \<Rightarrow> 'e http_message \<Rightarrow> ('j, 'e option) outcome" where
  "req_getJsonElement L element_name m =
     rethrow HttpRequestJsonRpcError (''unable to get JSON element '' @ element_name @ '': '')
       (rbind (req_getBodyAsJson m) (member_of L element_name))"

section \<open>The response\<close>

definition resp_setBodyAsJson :: "('j, 'e) elem_lib \<Rightarrow> 'e option \<Rightarrow> 'e http_message \<Rightarrow> 'e http_message" where
  "resp_setBodyAsJson L json_body m =
     m\<lparr>body_text := (case json_body of Some b \<Rightarrow> e_text L b | None \<Rightarrow> []), m_json := json_body\<rparr>"

text \<open>Client errors are the status codes 400 to 499, server errors 500 to 599.\<close>

definition setGenericBody ::
    "('j, 'e) elem_lib \<Rightarrow> ('j, 'e) http_lib \<Rightarrow> nat \<Rightarrow> 'e http_message \<Rightarrow> 'e http_message" where
  "setGenericBody L H status_code m =
     (if 400 \<le> status_code \<and> status_code < 600
      then resp_setBodyAsJson L (Some (hl_map H
        [(''result'', Inl (of_nat status_code)), (''text'', Inr (hl_status_text H status_code))])) m
      else m)"

definition new_response :: "'e http_message" where
  "new_response = new_message\<lparr>headers := [json_rpc_type]\<rparr>"

definition new_response_with ::
    "('j, 'e) elem_lib \<Rightarrow> ('j, 'e) http_lib \<Rightarrow> 'e http_message \<Rightarrow> nat \<Rightarrow> bool \<Rightarrow> 'e http_message" where
  "new_response_with L H base status_code generic_body =
     (let m = base\<lparr>headers := headers base @ [json_rpc_type]\<rparr> in
      if generic_body then setGenericBody L H status_code m else m)"

definition resp_parseBodyAsJson :: "('j, 'e) elem_lib \<Rightarrow> 'e http_message \<Rightarrow> ('j, 'e http_message) outcome" where
  "resp_parseBodyAsJson L m =
     rethrow HttpResponseJsonRpcError ''unable to parse the body of the HTTP response: ''
       (if m_json m = None \<and> body_text m \<noteq> []
        then rmap (\<lambda>json. m\<lparr>m_json := Some json\<rparr>) (e_fromJSON L (body_text m))
        else Ok m)"

definition resp_finalize ::
    "('j, 'e) elem_lib \<Rightarrow> ('j, 'e) http_lib \<Rightarrow> 'e http_message \<Rightarrow> ('j, 'e http_message) outcome" where
  "resp_finalize L H m =
     rbind (if created m then Ok m else hl_create H m) (\<lambda>m.
     rmap (\<lambda>m. m\<lparr>finalized := True\<rparr>) (resp_parseBodyAsJson L m))"

definition resp_reset :: "('j, 'e) http_lib \<Rightarrow> 'e http_message \<Rightarrow> 'e http_message" where
  "resp_reset H m = (hl_reset H m)\<lparr>m_json := None\<rparr>"

definition resp_getBodyAsJson :: "'e http_message \<Rightarrow> ('j, 'e option) outcome" where
  "resp_getBodyAsJson m = rmap (\<lambda>_. m_json m) (checkFinalized m)"

definition resp_getJsonElement ::
    "('j, 'e) elem_lib \<Rightarrow> string \<Rightarrow> 'e http_message \<Rightarrow> ('j, 'e option) outcome" where
  "resp_getJsonElement L element_name m =
     rethrow HttpResponseJsonRpcError (''unable to get JSON element '' @ element_name @ '': '')
       (rbind (resp_getBodyAsJson m) (member_of L element_name))"

section \<open>Lemmas\<close>

lemma rethrow_simps [simp]:
  "rethrow cls msg (Ok a) = Ok a" "rethrow cls msg (Stuck u) = Stuck u"
  "rethrow cls msg (Throw ex) = Throw (cls (msg @ what ex))"
  by (simp_all add: rethrow_def)

context message_base
begin

lemma create_cases:
  assumes "(if created m then Ok m else hl_create H m) = Ok c"
  shows "m_json c = m_json m \<and> body_text c = body_text m"
  using assms create_keeps [of m c] by (auto split: if_splits)

lemma finalize_set_body:
  assumes "m_json m = Some b" and "req_finalize L H m = Ok m'"
  shows "finalized m' \<and> m_json m' = Some b"
proof -
  obtain c where c: "(if created m then Ok m else hl_create H m) = Ok c"
    using assms(2) by (auto simp: req_finalize_def rbind_eq_Ok)
  with create_cases [OF this] assms show ?thesis
    by (auto simp: req_finalize_def req_parseBodyAsJson_def)
qed

lemma finalize_cleared_response:
  assumes "m_json m = None" and "body_text m = []" and "resp_finalize L H m = Ok m'"
  shows "finalized m' \<and> m_json m' = None"
proof -
  obtain c where c: "(if created m then Ok m else hl_create H m) = Ok c"
    using assms(3) by (auto simp: resp_finalize_def rbind_eq_Ok)
  with create_cases [OF this] assms show ?thesis
    by (auto simp: resp_finalize_def resp_parseBodyAsJson_def)
qed

end

text \<open>A base class that only sets the flag.\<close>

definition std_http :: "(jval, kelem) http_lib" where
  "std_http = \<lparr>hl_create = (\<lambda>m. Ok (m\<lparr>created := True\<rparr>)), hl_reset = (\<lambda>m. new_message),
     hl_set_string = (\<lambda>e k v. case e of KMap kvs \<Rightarrow> Ok (KMap (kvs @ [(k, KStr v)])) | _ \<Rightarrow> Throw (TypeError ''set'')),
     hl_map = (\<lambda>kvs. KMap (map (\<lambda>(k, v). (k, case v of Inl i \<Rightarrow> KInt i | Inr s \<Rightarrow> KStr s)) kvs)),
     hl_status_text = (\<lambda>n. to_string n)\<rparr>"

interpretation std_msg: message_base std_http
  by unfold_locales (auto simp: std_http_def)

section \<open>Properties\<close>

text \<open>Clearing the body of a request with a null element leaves the element that was set before: the
  finalized request still returns it, although its text is empty, while a response that is cleared
  the same way returns none.\<close>

theorem cleared_body_differs:
  assumes "message_base H"
    and "req_finalize L H (req_setBodyAsJson L None (req_setBodyAsJson L (Some b) m)) = Ok m1"
    and "resp_finalize L H (resp_setBodyAsJson L None (resp_setBodyAsJson L (Some b) m)) = Ok m2"
  shows "req_getBodyAsJson m1 = Ok (Some b) \<and> body_text (req_setBodyAsJson L None (req_setBodyAsJson L (Some b) m)) = []
    \<and> resp_getBodyAsJson m2 = Ok None"
  using message_base.finalize_set_body [OF assms(1) _ assms(2)]
    message_base.finalize_cleared_response [OF assms(1) _ _ assms(3)]
  by (simp add: req_setBodyAsJson_def resp_setBodyAsJson_def req_getBodyAsJson_def resp_getBodyAsJson_def
      checkFinalized_def)

lemma cleared_body_differs_witness:
  "\<exists>m1 m2. req_finalize kelem_lib std_http (req_setBodyAsJson kelem_lib None
        (req_setBodyAsJson kelem_lib (Some (KText ''[1]'')) new_request)) = Ok m1 \<and>
     resp_finalize kelem_lib std_http (resp_setBodyAsJson kelem_lib None
        (resp_setBodyAsJson kelem_lib (Some (KText ''[1]'')) new_request)) = Ok m2 \<and>
     req_getBodyAsJson m1 = (Ok (Some (KText ''[1]'')) :: (jval, kelem option) outcome) \<and>
     resp_getBodyAsJson m2 = (Ok None :: (jval, kelem option) outcome)"
proof -
  obtain m1 where m1: "req_finalize kelem_lib std_http (req_setBodyAsJson kelem_lib None
        (req_setBodyAsJson kelem_lib (Some (KText ''[1]'')) new_request)) = Ok m1"
    by (simp add: req_finalize_def req_setBodyAsJson_def req_parseBodyAsJson_def std_http_def new_request_def new_message_def)
  obtain m2 where m2: "resp_finalize kelem_lib std_http (resp_setBodyAsJson kelem_lib None
        (resp_setBodyAsJson kelem_lib (Some (KText ''[1]'')) new_request)) = Ok m2"
    by (simp add: resp_finalize_def resp_setBodyAsJson_def resp_parseBodyAsJson_def std_http_def new_request_def new_message_def)
  from cleared_body_differs [OF std_msg.message_base_axioms m1 m2] m1 m2 show ?thesis by blast
qed

end
