(* ===== verification/Spec2Isabelle.thy ===== *)
theory Spec2Isabelle
  imports Restore_Table Reconnect Shutdown Pool_Client Event_Queue Post_Request
begin

text \<open>
  A verification development for the NX-OS DHCPv6 exporter, a hook library of the Kea DHCPv6
  server.  When Kea leases, renews, declines, releases or expires an IPv6 address or prefix, the
  library installs or removes a static route on a Cisco NX-OS switch, by JSON-RPC commands over
  HTTP.  A heartbeat asks the switch for its uptime and restores all routes from the lease database
  after the connection was lost or the switch was restarted.

  \<^bold>\<open>The program and the theories.\<close>  File names are relative to the repository.

  \<^item> \<^verbatim>\<open>Prelude\<close>: outcomes (a value, an exception class the sources name, or a stuck state for
    undefined behaviour, \<^verbatim>\<open>std::abort\<close> and waits that never end), state-passing programs with
    \<open>catching\<close> for \<^verbatim>\<open>catch (const std::exception&)\<close>, runs of steps with outputs and the locale
    \<open>simulation\<close>, decimal printing, lists.
  \<^item> \<^verbatim>\<open>Json_Lib\<close>, \<^verbatim>\<open>Kea_Lib\<close>: the parameters of the model, see below.
  \<^item> \<^verbatim>\<open>Jsonrpc\<close> (\<^verbatim>\<open>include/jsonrpc/utils.hpp\<close>, \<^verbatim>\<open>src/jsonrpc/utils.cpp\<close>): the exception class,
    \<open>createRequestFromCommands\<close>, \<open>handleResponse\<close>.
  \<^item> \<^verbatim>\<open>Nxos_Structs\<close> (\<^verbatim>\<open>include/nxos/nxos_structs.hpp\<close>): the structures of the switch's answers, a record
    for each \<^verbatim>\<open>struct\<close>, a definition for each \<^verbatim>\<open>to_json\<close> and \<^verbatim>\<open>from_json\<close>.
  \<^item> \<^verbatim>\<open>Route_Export\<close> (\<^verbatim>\<open>route_export.hpp/.cpp\<close>), \<^verbatim>\<open>Lease_Utils\<close> (\<^verbatim>\<open>src/lease_utils.cpp\<close>), \<^verbatim>\<open>Conn_Params\<close>
    (\<^verbatim>\<open>src/nxos_connection_params.cpp\<close>): the data of a route, the search for a client's lease, the
    configuration parser.
  \<^item> \<^verbatim>\<open>World\<close>: the observable effects.  \<open>posted\<close> holds the requests whose answer was not handled yet,
    each with its response handler; the lambdas of the sources are the constructors of \<open>handler\<close> and
    \<open>lookup_handler\<close>, with the captured values as arguments.  \<open>logged\<close> holds the messages.
  \<^item> \<^verbatim>\<open>Http_Client\<close> and \<^verbatim>\<open>Thread_Pool\<close> (\<^verbatim>\<open>nxos_http_client.hpp/.cpp\<close>): posting a request and the work done
    for it once the HTTP library has answered (\<open>run_request\<close>); the threads that do this work, as an
    interleaving of steps.  \<^verbatim>\<open>Pool_Client\<close>: the counters an \<open>http_client\<close> keeps of its threads are those of
    the pool.
  \<^item> \<^verbatim>\<open>Mgmt_Client\<close> (\<^verbatim>\<open>src/nxos_management_client.cpp\<close>, \<^verbatim>\<open>src/management_client.cpp\<close>): the commands, the
    operations on routes and one definition for each response lambda.
  \<^item> \<^verbatim>\<open>Heartbeat\<close> (\<^verbatim>\<open>src/nxos_heartbeat_service.cpp\<close>, \<^verbatim>\<open>src/heartbeat_service.cpp\<close>), \<^verbatim>\<open>Exporter_Service\<close>
    (\<^verbatim>\<open>src/dhcp6_exporter_service.cpp\<close>), \<^verbatim>\<open>Exporter_Impl\<close> (\<^verbatim>\<open>src/dhcp6_exporter_impl.cpp\<close>), \<^verbatim>\<open>Callout\<close>
    (\<^verbatim>\<open>src/callout.cpp\<close>): the layers from the heartbeat up to the functions Kea calls.  The state of each
    layer extends the one below: \<open>world\<close>, \<open>hb_world\<close>, \<open>svc_world\<close>, \<open>impl_world\<close>.
  \<^item> \<^verbatim>\<open>System\<close>: hooks, timer events and answers in any order, with \<open>handle_response\<close> tying each handler
    to its definition.
  \<^item> \<^verbatim>\<open>Hook_Safety\<close>: when the hooks stay inside defined behaviour.
  \<^item> \<^verbatim>\<open>Life_Cycle\<close>: loading, configuring, running and unloading as steps, and the shape of every
    reachable state.
  \<^item> \<^verbatim>\<open>Reconnect\<close>: the contract of the heartbeat as an automaton, what an answer tells about the switch
    (\<open>seen\<close>), and the steps of a started exporter, every hook, timer event and answer run by its
    definition; the output of a step is the number of requests for the neighbor table it posts.
  \<^item> \<^verbatim>\<open>Switch_Table\<close>: the route table of the switch, the changes a hook stands for, and runs of the
    exporter together with the switch (\<open>net_run\<close>), in which the switch may execute or refuse a change
    and lookups may fail.  \<^verbatim>\<open>Restore_Table\<close>: the routes a restore asks for.
  \<^item> \<^verbatim>\<open>Shutdown\<close>: stopping an HTTP client with requests pending (\<^verbatim>\<open>poll()\<close>, \<^verbatim>\<open>stop()\<close> and the wait for
    the threads), and from there \<open>stopClient\<close>, \<open>hb_stopService\<close>, \<open>svc_stopService\<close> and
    \<open>impl_stopService\<close>, the stop operations of the layers.
  \<^item> \<^verbatim>\<open>Post_Request\<close> (\<^verbatim>\<open>src/post_request_jsonrpc.cpp\<close>), \<^verbatim>\<open>Event_Queue\<close> (\<^verbatim>\<open>src/event_queue.cpp\<close>): two parts
    nothing else in the program uses.

  \<^bold>\<open>How the parts interact.\<close>  A hook of \<^verbatim>\<open>Callout\<close> calls a handler of \<^verbatim>\<open>Exporter_Impl\<close>, which builds
  a \<open>route_export\<close> and passes it through \<open>exportRoute\<close> or \<open>removeRoute\<close> to the management client, which
  posts a request, for an address a lookup of the relay's interface first.  The answer runs the
  request's handler, which may post the next request.  The timer posts an uptime query; its answer may
  start a restore, which posts the request for the neighbor table; the answer to that one posts the
  routes of the lease database.

  \<^bold>\<open>Parameters.\<close>  Code that is not part of the repository is an argument of the definitions: the JSON
  library (\<open>json_lib\<close>, laws in the locale \<open>json_api\<close>, with \<open>json_brace_wraps\<close> and \<open>json_brace_copies\<close>
  for the two things compilers do with \<^verbatim>\<open>auto x{value}\<close>); Kea's elements, addresses, URLs, timers and
  authentication objects (\<open>elem_lib\<close>, \<open>env\<close>, with \<open>toText_ok\<close>); the lease database (\<open>lease_mgr\<close>, locale
  \<open>lease_db\<close>) and configuration (\<open>cfg_mgr\<close>); Kea's HTTP messages (\<open>http_lib\<close>, locale \<open>message_base\<close>);
  the switch as an executor of commands (locale \<open>route_switch\<close>, instantiated by \<open>std_switch\<close>) and its
  answers to lookups (\<open>topology\<close>).
  \<open>requests_encoded\<close> says that the configuration library reads back the text of a request.  Each is
  instantiated by concrete functions (\<open>std_json\<close>, \<open>std_env\<close>, \<open>list_db\<close>, \<open>std_http\<close>), on which the
  witnesses evaluate.

  \<^bold>\<open>What the lemmas show.\<close>  For the whole exporter: every hook requests exactly the changes of the
  switch's route table it stands for, and the table follows the history of these changes, less those
  the switch refuses and those whose lookup fails, as long as the pending requests are for different
  destinations; otherwise a release can overtake an installation.  In every state the library reaches
  its parts fit together, every pending request carries the commands its handler is for, and answering
  comes to an end.  For the heartbeat: in every run of the started exporter the requests that start a
  restore are posted on exactly the events an abstract automaton with the states lost and up names,
  and a request of this kind that fails is posted again by the next answered heartbeat.  For the
  hooks: no exception leaves the lease hooks, they stay inside defined behaviour for arguments that
  are present, when loading succeeds, and what starting establishes.  For the data: the request
  document, the decoding of responses with all error branches, what is left of a structure after
  writing and reading, which configurations are accepted.  For the thread pool: stopping comes to an
  end under every schedule, because the I/O service is stopped; stopping the exporter's service returns
  whatever requests are pending.  A group of properties pins down inputs on which the code does
  something its comments and messages do not intend, among them: the neighbor table of the switch is
  always read as empty, a restore ends at the first prefix lease, an expired or renewed prefix removes
  a route that was never installed, an HTTPS configuration aborts the server, a restart of the switch
  right after a restore goes unnoticed, a second stop of a client blocks for ever, and so does
  stopping the exporter.

  \<^bold>\<open>Interfaces.\<close>  Locales state what one part relies on in another: \<open>management_client\<close> (the virtual
  methods, interpreted on \<open>nxos_ops\<close>), \<open>keyed_map\<close> (the map of hardware addresses), \<open>codec\<close> (writers and
  readers of structures, with what a round trip keeps), \<open>simulation\<close> (the contract of the heartbeat), and
  the hierarchy from \<open>step_rel\<close> over \<open>impl_frame\<close> to \<open>impl_effects\<close> and \<open>impl_free\<close>, in which the operations of every layer are shown once to stay inside
  a relation on states.  It is interpreted for the growth of the world, for the frame of the
  management client, for the shape of pending requests, for the rank of the requests an answer may
  cause, for the fit of the exporter's parts, for what leaves the heartbeat alone, and for the
  destinations a restore may ask for.

  \<^bold>\<open>Specifications.\<close>  Contracts, runs and the switch (\<open>hb_spec\<close>, \<open>seen\<close>, \<open>connection_step\<close>, \<open>sys_step\<close>,
  \<open>life_step\<close>, \<open>net_run\<close>, \<open>hook_changes\<close> and what they are built from) stand for no lines of the sources;
  every state change in them is a run of the definitions that do.

  \<^bold>\<open>Bounds and termination.\<close>  No definition needs fuel: the loops of the sources run over finite
  containers and are structural; polling at a stop is a partial function, shown to return always, and
  a stop that never returns is \<open>None\<close>.  Machine integers keep their width: identifiers and codes 32
  bits, the uptime and the interval 64, prefix lengths 8, addresses 128.  The events of the system and
  the pool are inductive relations without a bound on their number.

  \<^bold>\<open>What is not modelled.\<close>  Messages at DEBUG level other than the failures of hooks, with the texts
  they would compute; pointers some messages print; loggers, build files and the version text.  TLS:
  the sources refuse HTTPS before anything is sent.  Hooks and answers run to their end one after the
  other, as the mutex of the heartbeat makes them for its state; interleavings inside the HTTP client
  are those of \<^verbatim>\<open>Thread_Pool\<close>; \<^verbatim>\<open>Shutdown\<close> has no other thread run a handler while a client is stopped.
  Unloading is a step only when no request is pending, because the handlers the destructors run use
  members already destroyed; runs with the switch take its answer to a lookup to be one route over one
  interface, the same throughout; and the server reports its configuration once, because a second start
  destroys running clients.  Moving an \<^verbatim>\<open>IOAddress\<close> copies its bytes and leaves the source as it was; a
  moved-from string is a parameter.
\<close>

section \<open>From a hook to the change on the switch\<close>

text \<open>The answer to the lookup a selection or a release has posted, as a step of the system.\<close>

lemma apply_reply_step:
  assumes "json_api (nl V)" and "requests_encoded V enc" and "started (m_client s)"
    and "url_scheme (cp_url (mc_params (m_client s))) = HTTP" and "body \<noteq> []"
    and "j_parse (nl V) body = Ok (response_object (nl V) \<lparr>resp_id = i, resp_result = j_object (nl V)
        [(''body'', lookup_doc (nl V) v af pfx att (hop_object (nl V) (hop, Some ifn)))]\<rparr>)"
    and "posted s = xs @ [lookup_request V enc (m_client s) relay (ApplyVlan na link ty)]"
  shows "reply_step V s (s\<lparr>posted := xs @ [command_request (m_client s) (enc [(1, createApplyRouteIpv6Command na ifn)])
      (RouteApply ty na ifn)]\<rparr>)" (is "reply_step V s (s\<lparr>posted := xs @ [?next]\<rparr>)")
proof -
  let ?rq = "lookup_request V enc (m_client s) relay (ApplyVlan na link ty)"
  have posted: "posted s = xs @ ?rq # []" using assms(7) by simp
  have "run_request V (handle_response V (list_db []) \<lparr>currentCfg = None\<rparr>) ?rq (Reply 200 body) (s\<lparr>posted := xs @ []\<rparr>) =
    (Ok (), s\<lparr>posted := xs @ [?next]\<rparr>)"
    using conjunct1 [OF lookup_answer [OF assms(1,2) _ _ assms(5,6), of "s\<lparr>posted := xs\<rparr>" ?rq
        "list_db []" "\<lparr>currentCfg = None\<rparr>" "host_text V relay" relay_address]] assms(3,4)
    by (simp add: lookup_request_def)
  from reply_step.intros [OF posted this] show ?thesis by simp
qed

lemma remove_reply_step:
  assumes "json_api (nl V)" and "requests_encoded V enc" and "started (m_client s)"
    and "url_scheme (cp_url (mc_params (m_client s))) = HTTP" and "body \<noteq> []"
    and "j_parse (nl V) body = Ok (response_object (nl V) \<lparr>resp_id = i, resp_result = j_object (nl V)
        [(''body'', lookup_doc (nl V) v af pfx att (hop_object (nl V) (hop, Some ifn)))]\<rparr>)"
    and "posted s = xs @ [lookup_request V enc (m_client s) relay (RemoveVlan na link ty)]"
  shows "reply_step V s (s\<lparr>posted := xs @ [command_request (m_client s) (enc [(1, createRemoveRouteIpv6Command na ifn),
      (2, createRemoveNDCacheEntryIpv6Command ifn)]) (RouteRemove ty na ifn)]\<rparr>)"
    (is "reply_step V s (s\<lparr>posted := xs @ [?next]\<rparr>)")
proof -
  let ?rq = "lookup_request V enc (m_client s) relay (RemoveVlan na link ty)"
  have posted: "posted s = xs @ ?rq # []" using assms(7) by simp
  have "run_request V (handle_response V (list_db []) \<lparr>currentCfg = None\<rparr>) ?rq (Reply 200 body) (s\<lparr>posted := xs @ []\<rparr>) =
    (Ok (), s\<lparr>posted := xs @ [?next]\<rparr>)"
    using conjunct2 [OF lookup_answer [OF assms(1,2) _ _ assms(5,6), of "s\<lparr>posted := xs\<rparr>" ?rq
        "list_db []" "\<lparr>currentCfg = None\<rparr>" "host_text V relay" relay_address]] assms(3,4)
    by (simp add: lookup_request_def)
  from reply_step.intros [OF posted this] show ?thesis by simp
qed

section \<open>Properties\<close>

text \<open>C3: an address that is selected and later released, behind a relay whose address the switch knows on
  one interface, leads through two hooks and two answers to exactly two changes: the command that
  routes the leased address to the interface, and a request that starts with this same command
  prefixed by \<open>no\<close> and then clears the neighbor entries of the interface.\<close>

theorem select_then_release:
  assumes "json_api (nl V)" and "requests_encoded V enc" and "ready s" and "posted s = []"
    and "url_scheme (cp_url (mc_params (m_client s))) = HTTP"
    and "h_query6 h = Arg (Some q)" and "h_subnet6 h = Arg sub" and "h_lease6 h = Arg (Some l)"
    and "h_fake_allocation h = Arg False" and "getRelay6LinkAddress0 q = Ok relay" and "l_type l = TYPE_NA"
    and "h_query6 h' = Arg (Some q')" and "h_lease6 h' = Arg (Some l)" and "getRelay6LinkAddress0 q' = Ok relay"
    and "body \<noteq> []"
    and "j_parse (nl V) body = Ok (response_object (nl V) \<lparr>resp_id = i, resp_result = j_object (nl V)
        [(''body'', lookup_doc (nl V) v af pfx att (hop_object (nl V) (hop, Some ifn)))]\<rparr>)"
  shows "\<exists>s1 s2 s3 s4 command. command = createApplyRouteIpv6Command (host_text V (l_addr l)) ifn \<and>
    run_hook V M Select h s = (Ok 0, s1) \<and> reply_step V s1 s2 \<and>
    run_hook V M Release h' s2 = (Ok 0, s3) \<and> reply_step V s3 s4 \<and>
    posted s4 =
      [command_request (m_client s) (enc [(1, command)]) (RouteApply ''IA_NA'' (host_text V (l_addr l)) ifn),
       command_request (m_client s) (enc [(1, ''no '' @ command), (2, createRemoveNDCacheEntryIpv6Command ifn)])
         (RouteRemove ''IA_NA'' (host_text V (l_addr l)) ifn)]"
proof -
  let ?na = "host_text V (l_addr l)" and ?c = "m_client s"
  let ?apply = "command_request ?c (enc [(1, createApplyRouteIpv6Command ?na ifn)]) (RouteApply ''IA_NA'' ?na ifn)"
  let ?remove = "command_request ?c (enc [(1, createRemoveRouteIpv6Command ?na ifn),
      (2, createRemoveNDCacheEntryIpv6Command ifn)]) (RouteRemove ''IA_NA'' ?na ifn)"
  let ?link = "host_text V relay"
  have started: "started ?c" using assms(3) by (simp add: ready_def)
  obtain m1 where 1: "run_hook V M Select h s = (Ok 0, s\<lparr>posted := [lookup_request V enc ?c relay
      (ApplyVlan ?na ?link ''IA_NA'')], logged := logged s @ m1\<rparr>)" (is "_ = (_, ?s1)")
    using select_address_posts [OF assms(2,3,6-11), of M] assms(4) by auto
  have 2: "reply_step V ?s1 (?s1\<lparr>posted := [?apply]\<rparr>)" (is "reply_step V _ ?s2")
    using apply_reply_step [OF assms(1,2) _ _ assms(15,16), of ?s1 "[]"] started assms(5) by simp
  have "ready ?s2" using assms(3) by (simp add: ready_def)
  then obtain m3 where 3: "run_hook V M Release h' ?s2 = (Ok 0, ?s2\<lparr>posted := [?apply, lookup_request V enc ?c relay
      (RemoveVlan ?na ?link ''IA_NA'')], logged := logged ?s2 @ m3\<rparr>)" (is "_ = (_, ?s3)")
    using release_address_posts [OF assms(2) _ assms(12-14,11), of ?s2 M] by auto
  have 4: "reply_step V ?s3 (?s3\<lparr>posted := [?apply, ?remove]\<rparr>)"
    using remove_reply_step [OF assms(1,2) _ _ assms(15,16), of ?s3 "[?apply]"] started assms(5) by simp
  from 1 2 3 4 show ?thesis
    by (intro exI [of _ ?s1] exI [of _ ?s2] exI [of _ ?s3] exI [of _ "?s3\<lparr>posted := [?apply, ?remove]\<rparr>"]
        exI [of _ "createApplyRouteIpv6Command ?na ifn"]) (simp add: remove_command)
qed

lemma select_then_release_witness:
  "\<exists>s1 s2 s3 s4 command.
    run_hook (doc_env sample_doc) (list_db []) Select (sample_handle (sample_lease TYPE_NA 7 False)) sample_state = (Ok 0, s1) \<and>
    reply_step (doc_env sample_doc) s1 s2 \<and>
    run_hook (doc_env sample_doc) (list_db []) Release (sample_handle (sample_lease TYPE_NA 7 False)) s2 = (Ok 0, s3) \<and>
    reply_step (doc_env sample_doc) s3 s4 \<and>
    posted s4 =
      [command_request sample_client (std_enc [(1, command)]) (RouteApply ''IA_NA'' (host_text (doc_env sample_doc) 7) ''Vlan10''),
       command_request sample_client (std_enc [(1, ''no '' @ command), (2, createRemoveNDCacheEntryIpv6Command ''Vlan10'')])
         (RouteRemove ''IA_NA'' (host_text (doc_env sample_doc) 7) ''Vlan10'')]"
proof -
  let ?h = "sample_handle (sample_lease TYPE_NA 7 False)"
  have http: "url_scheme (cp_url (mc_params (m_client sample_state))) = HTTP"
    by (simp add: sample_client_def std_url_def)
  have na: "l_type (sample_lease TYPE_NA 7 False) = TYPE_NA" by simp
  have body: "''{}'' \<noteq> ([] :: string)" by simp
  from select_then_release [OF doc_env_api doc_env_encoded sample_sel(1) sample_sel(9) http sample_sel(2,3,4,5,6) na
      sample_sel(2,4,6) body sample_doc_parse, of "list_db []"]
  show ?thesis unfolding sample_sel(8) by (simp only: sample_lease_sel(1)) blast
qed

end
